(* ===== verification/Prelude.thy ===== *)
theory Prelude
  imports Main "HOL-Library.Word" "HOL-Library.List_Lexorder"
begin

text \<open>
  Shared vocabulary of the development: Rust's machine integers, fixed-size arrays
  \<^verbatim>\<open>[T; N]\<close>, little-endian byte encodings, \<^verbatim>\<open>Result\<close> values, and the notion of an
  explicit hash collision. SHA-256 comes from the \<^verbatim>\<open>sha2\<close> crate, which is not part of the
  repository, so it is a parameter of type \<open>sha\<close> of every definition that hashes; the type only
  says that a digest has 32 bytes.
\<close>

unbundle bit_operations_syntax

section \<open>Machine integers and byte strings\<close>

type_synonym u8 = "8 word"
type_synonym u32 = "32 word"
type_synonym u64 = "64 word"
type_synonym u128 = "128 word"
type_synonym bytes = "u8 list"

text \<open>\<^verbatim>\<open>b"..."\<close> literals and \<^verbatim>\<open>str::as_bytes\<close>; a string is its list of UTF-8 bytes.\<close>

definition bytes_of :: "string \<Rightarrow> bytes" where
  "bytes_of s = map of_char s"

lemma length_bytes_of [simp]: "length (bytes_of s) = length s"
  by (simp add: bytes_of_def)

lemma of_char_u8_inj: "(of_char c :: u8) = of_char d \<longleftrightarrow> c = d"
proof
  assume "(of_char c :: u8) = of_char d"
  then have "(of_nat (of_char c) :: u8) = of_nat (of_char d)"
    by (simp only: of_nat_of_char)
  then have "unat (of_nat (of_char c) :: u8) = unat (of_nat (of_char d) :: u8)"
    by (rule arg_cong)
  then have "(of_char c :: nat) = of_char d"
    using nat_of_char_less_256 [of c] nat_of_char_less_256 [of d]
    by (simp only: unat_of_nat word_size) simp
  then show "c = d" by simp
qed simp

lemma bytes_of_inj [simp]: "bytes_of s = bytes_of t \<longleftrightarrow> s = t"
proof -
  have "inj (of_char :: char \<Rightarrow> u8)"
    by (rule injI) (simp add: of_char_u8_inj)
  then show ?thesis
    by (simp add: bytes_of_def inj_map_eq_map)
qed

section \<open>Fixed-size arrays\<close>

text \<open>
  Rust's \<^verbatim>\<open>[T; N]\<close>: a list whose length is part of the type. \<open>elems\<close> reads the elements,
  \<open>try_into\<close> is \<^verbatim>\<open><[T; N]>::try_from(slice)\<close> (which fails exactly on a wrong length),
  \<open>arr_rep\<close> is the literal \<^verbatim>\<open>[v; N]\<close> and \<open>arr_of\<close> an array literal.
\<close>

typedef (overloaded) ('a, 'n) arr = "{xs :: 'a list. length xs = LENGTH('n::len)}"
  morphisms elems mk_arr
proof
  show "replicate LENGTH('n) undefined \<in> {xs :: 'a list. length xs = LENGTH('n)}" by simp
qed

setup_lifting type_definition_arr

type_synonym b32 = "(u8, 32) arr"
type_synonym b33 = "(u8, 33) arr"
type_synonym sha = "bytes \<Rightarrow> b32"

lemma length_elems [simp]: "length (elems (a :: ('a, 'n::len) arr)) = LENGTH('n)"
  using elems [of a] by simp

lemma elems_inject_iff [simp]: "elems a = elems b \<longleftrightarrow> a = b"
  by (simp add: elems_inject)

lift_definition arr_of :: "'a::zero list \<Rightarrow> ('a, 'n::len) arr" is
  "\<lambda>xs. take LENGTH('n) (xs @ replicate LENGTH('n) 0)" by simp

lift_definition arr_rep :: "'a \<Rightarrow> ('a, 'n::len) arr" is
  "\<lambda>v. replicate LENGTH('n) v" by simp

definition try_into :: "'a::zero list \<Rightarrow> ('a, 'n::len) arr option" where
  "try_into xs = (if length xs = LENGTH('n) then Some (arr_of xs) else None)"

lemma elems_arr_of: "elems (arr_of xs :: ('a::zero, 'n::len) arr)
    = take LENGTH('n) (xs @ replicate LENGTH('n) 0)"
  by transfer simp

lemma elems_arr_of_exact [simp]:
  "length xs = LENGTH('n) \<Longrightarrow> elems (arr_of xs :: ('a::zero, 'n::len) arr) = xs"
  by (simp add: elems_arr_of)

lemma arr_of_elems [simp]: "arr_of (elems a) = a"
  using elems_inject_iff [of "arr_of (elems a)" a] by (simp del: elems_inject_iff)

lemma elems_arr_rep [simp]: "elems (arr_rep v :: ('a, 'n::len) arr) = replicate LENGTH('n) v"
  by transfer simp

lemma arr_rep_eq [simp]: "(arr_rep v :: ('a, 'n::len) arr) = arr_rep w \<longleftrightarrow> v = w"
  by (subst elems_inject [symmetric]) simp

lemma try_into_Some: "try_into xs = Some a \<longleftrightarrow> elems a = xs"
proof
  assume "try_into xs = Some a"
  then show "elems a = xs" by (auto simp: try_into_def split: if_splits)
next
  assume "elems a = xs"
  then show "try_into xs = Some a" by (auto simp: try_into_def)
qed

lemma try_into_None: "(try_into xs :: ('a::zero, 'n::len) arr option) = None \<longleftrightarrow> length xs \<noteq> LENGTH('n)"
  by (simp add: try_into_def)

lemma try_into_elems [simp]: "try_into (elems a) = Some a"
  by (simp add: try_into_Some)

text \<open>\<^verbatim>\<open>a[i] ^= x\<close> and \<^verbatim>\<open>a[i] = x\<close> on an array.\<close>

definition xor_at :: "nat \<Rightarrow> u8 \<Rightarrow> (u8, 'n::len) arr \<Rightarrow> (u8, 'n) arr" where
  "xor_at i x a = arr_of ((elems a)[i := elems a ! i XOR x])"

definition set_at :: "nat \<Rightarrow> u8 \<Rightarrow> (u8, 'n::len) arr \<Rightarrow> (u8, 'n) arr" where
  "set_at i x a = arr_of ((elems a)[i := x])"

lemma xor_at_neq: "i < LENGTH('n) \<Longrightarrow> x \<noteq> 0 \<Longrightarrow> xor_at i x a \<noteq> (a :: (u8, 'n::len) arr)"
proof
  assume i: "i < LENGTH('n)" and "x \<noteq> 0" and "xor_at i x a = a"
  then have "(elems a)[i := elems a ! i XOR x] = elems a"
    by (metis elems_arr_of_exact length_elems length_list_update xor_at_def)
  then have "elems a ! i XOR x = elems a ! i"
    using i by (metis length_elems nth_list_update_eq)
  then have "x = 0" by (metis bit.xor_left_self bit.xor_self)
  with \<open>x \<noteq> 0\<close> show False ..
qed

instantiation arr :: (equal, len) equal
begin

definition equal_arr :: "('a, 'b) arr \<Rightarrow> ('a, 'b) arr \<Rightarrow> bool" where
  "equal_arr a b \<longleftrightarrow> elems a = elems b"

instance
  by standard (simp add: equal_arr_def)

end

text \<open>\<^verbatim>\<open>Ord\<close> on arrays is lexicographic; it is what \<^verbatim>\<open>BTreeSet\<close> and \<^verbatim>\<open>BTreeMap\<close> need.\<close>

instantiation arr :: (linorder, len) linorder
begin

definition less_eq_arr :: "('a, 'b) arr \<Rightarrow> ('a, 'b) arr \<Rightarrow> bool" where
  "less_eq_arr a b \<longleftrightarrow> elems a \<le> elems b"

definition less_arr :: "('a, 'b) arr \<Rightarrow> ('a, 'b) arr \<Rightarrow> bool" where
  "less_arr a b \<longleftrightarrow> elems a < elems b"

instance
  by standard (auto simp: less_eq_arr_def less_arr_def elems_inject order.strict_iff_order)

end

section \<open>Little-endian encodings\<close>

text \<open>\<^verbatim>\<open>w.to_le_bytes()\<close> on an unsigned integer of \<open>n\<close> bytes, and its inverse
  \<^verbatim>\<open>from_le_bytes\<close>.\<close>

definition le_bytes :: "nat \<Rightarrow> 'a::len word \<Rightarrow> bytes" where
  "le_bytes n w = map (\<lambda>i. ucast (drop_bit (8 * i) w)) [0..<n]"

primrec from_le :: "bytes \<Rightarrow> 'a::len word" where
  "from_le [] = 0"
| "from_le (b # bs) = ucast b OR push_bit 8 (from_le bs)"

abbreviation u32_le :: "u32 \<Rightarrow> bytes" where "u32_le \<equiv> le_bytes 4"
abbreviation u64_le :: "u64 \<Rightarrow> bytes" where "u64_le \<equiv> le_bytes 8"
abbreviation u128_le :: "u128 \<Rightarrow> bytes" where "u128_le \<equiv> le_bytes 16"

lemma length_le_bytes [simp]: "length (le_bytes n w) = n"
  by (simp add: le_bytes_def)

lemma le_bytes_Suc: "le_bytes (Suc n) w = ucast w # le_bytes n (drop_bit 8 w)"
  by (simp add: le_bytes_def upt_conv_Cons map_Suc_upt [symmetric] comp_def ac_simps
      del: upt_Suc)

lemma from_le_le_bytes: "from_le (le_bytes n w) = take_bit (8 * n) (w :: 'a::len word)"
proof (induction n arbitrary: w)
  case 0
  then show ?case by (simp add: le_bytes_def)
next
  case (Suc n)
  have "from_le (le_bytes (Suc n) w) = ucast (ucast w :: u8) OR push_bit 8 (take_bit (8 * n) (drop_bit 8 w))"
    by (simp add: le_bytes_Suc Suc.IH)
  also have "\<dots> = take_bit (8 * Suc n) w"
    by (rule bit_word_eqI) (auto simp: bit_simps)
  finally show ?case .
qed

lemma bit_u8: "bit (b :: u8) i \<Longrightarrow> i < 8"
  using bit_imp_le_length [of b i] by simp

lemma bit_from_le: "bit (from_le bs :: 'a::len word) i \<Longrightarrow> i < 8 * length bs"
proof (induction bs arbitrary: i)
  case (Cons b bs)
  then consider "bit b i" | "8 \<le> i" "bit (from_le bs :: 'a word) (i - 8)"
    by (auto simp: bit_simps)
  then show ?case
  proof cases
    case 1
    then show ?thesis using bit_u8 [of b i] by simp
  next
    case 2
    from Cons.IH [OF 2(2)] 2(1) show ?thesis by simp
  qed
qed simp

lemma le_bytes_from_le:
  "8 * length bs \<le> LENGTH('a) \<Longrightarrow> le_bytes (length bs) (from_le bs :: 'a::len word) = bs"
proof (induction bs)
  case (Cons b bs)
  let ?w = "from_le bs :: 'a word"
  have "ucast (ucast b OR push_bit 8 ?w) = b"
    using Cons.prems by (intro bit_word_eqI) (auto simp: bit_simps dest: bit_u8)
  moreover have "drop_bit 8 (ucast b OR push_bit 8 ?w) = ?w"
  proof (rule bit_word_eqI)
    fix i assume "i < LENGTH('a)"
    show "bit (drop_bit 8 (ucast b OR push_bit 8 ?w)) i = bit ?w i"
      using bit_from_le [of bs i, where 'a = 'a] bit_u8 [of b "8 + i"] Cons.prems
      by (auto simp: bit_simps)
  qed
  ultimately show ?case using Cons by (simp add: le_bytes_Suc)
qed (simp add: le_bytes_def)

lemma from_le_u32 [simp]: "from_le (u32_le w) = w"
  by (simp add: from_le_le_bytes take_bit_word_eq_self)

lemma from_le_u64 [simp]: "from_le (u64_le w) = w"
  by (simp add: from_le_le_bytes take_bit_word_eq_self)

lemma from_le_u128 [simp]: "from_le (u128_le w) = w"
  by (simp add: from_le_le_bytes take_bit_word_eq_self)

lemma u32_le_inject [simp]: "u32_le v = u32_le w \<longleftrightarrow> v = w"
  by (metis from_le_u32)

lemma u64_le_inject [simp]: "u64_le v = u64_le w \<longleftrightarrow> v = w"
  by (metis from_le_u64)

lemma u128_le_inject [simp]: "u128_le v = u128_le w \<longleftrightarrow> v = w"
  by (metis from_le_u128)

text \<open>The loop \<^verbatim>\<open>for word in program_owner { update(word.to_le_bytes()) }\<close>.\<close>

definition words_le :: "u32 list \<Rightarrow> bytes" where
  "words_le ws = concat (map u32_le ws)"

lemma length_words_le [simp]: "length (words_le ws) = 4 * length ws"
  by (induction ws) (simp_all add: words_le_def)

lemma words_le_inject: "length v = length w \<Longrightarrow> words_le v = words_le w \<longleftrightarrow> v = w"
  by (induction v w rule: list_induct2) (simp_all add: words_le_def)

section \<open>Results\<close>

text \<open>A Rust \<^verbatim>\<open>Result<T, E>\<close> (and a panic) is a value of \<open>'e + 'a\<close>, \<open>Inl\<close> the error.\<close>

named_theorems result_iff "when a Result-valued expression is Ok, and with what"

definition rbind :: "'e + 'a \<Rightarrow> ('a \<Rightarrow> 'e + 'b) \<Rightarrow> 'e + 'b" where
  "rbind r f = (case r of Inl e \<Rightarrow> Inl e | Inr a \<Rightarrow> f a)"

definition map_err :: "('e \<Rightarrow> 'f) \<Rightarrow> 'e + 'a \<Rightarrow> 'f + 'a" where
  "map_err f r = (case r of Inl e \<Rightarrow> Inl (f e) | Inr a \<Rightarrow> Inr a)"

definition ok_or :: "'e \<Rightarrow> 'a option \<Rightarrow> 'e + 'a" where
  "ok_or e x = (case x of None \<Rightarrow> Inl e | Some a \<Rightarrow> Inr a)"

definition is_ok :: "'e + 'a \<Rightarrow> bool" where
  "is_ok r = (case r of Inl _ \<Rightarrow> False | Inr _ \<Rightarrow> True)"

lemma rbind_simps [simp]: "rbind (Inl e) f = Inl e" "rbind (Inr a) f = f a"
  by (simp_all add: rbind_def)

lemma map_err_simps [simp]: "map_err g (Inl e) = Inl (g e)" "map_err g (Inr a) = Inr a"
  by (simp_all add: map_err_def)

lemma ok_or_simps [simp]: "ok_or e None = Inl e" "ok_or e (Some a) = Inr a"
  by (simp_all add: ok_or_def)

lemma is_ok_simps [simp]: "is_ok (Inr a)" "\<not> is_ok (Inl e)"
  by (simp_all add: is_ok_def)

lemma is_ok_iff: "is_ok r \<longleftrightarrow> (\<exists>a. r = Inr a)"
  by (cases r) simp_all

lemma rbind_Inr [result_iff]: "rbind r f = Inr b \<longleftrightarrow> (\<exists>a. r = Inr a \<and> f a = Inr b)"
  by (cases r) simp_all

lemma rbind_Inl: "rbind r f = Inl e \<longleftrightarrow> r = Inl e \<or> (\<exists>a. r = Inr a \<and> f a = Inl e)"
  by (cases r) auto

lemma map_err_Inr [result_iff]: "map_err g r = Inr a \<longleftrightarrow> r = Inr a"
  by (cases r) simp_all

lemma map_err_Inl: "map_err g r = Inl e \<longleftrightarrow> (\<exists>d. r = Inl d \<and> e = g d)"
  by (cases r) auto

lemma ok_or_Inr [result_iff]: "ok_or e x = Inr a \<longleftrightarrow> x = Some a"
  by (cases x) auto

lemma ok_or_Inl: "ok_or e x = Inl d \<longleftrightarrow> x = None \<and> d = e"
  by (cases x) auto

lemma if_err_Inr [result_iff]: "(if c then Inl e else r) = Inr a \<longleftrightarrow> \<not> c \<and> r = Inr a"
  by simp

section \<open>Text\<close>

text \<open>\<^verbatim>\<open>str::split_once\<close> and \<^verbatim>\<open>str::contains\<close>, and the decimal rendering of \<^verbatim>\<open>Display\<close> for
  unsigned integers.\<close>

fun split_once :: "string \<Rightarrow> string \<Rightarrow> (string \<times> string) option" where
  "split_once pat s =
     (if take (length pat) s = pat then Some ([], drop (length pat) s)
      else (case s of [] \<Rightarrow> None
        | c # t \<Rightarrow> map_option (\<lambda>(before, after). (c # before, after)) (split_once pat t)))"

declare split_once.simps [simp del]

definition str_contains :: "string \<Rightarrow> string \<Rightarrow> bool" where
  "str_contains s pat \<longleftrightarrow> split_once pat s \<noteq> None"

definition digit_char :: "nat \<Rightarrow> char" where
  "digit_char d = char_of (48 + d)"

fun dec :: "nat \<Rightarrow> string" where
  "dec n = (if n < 10 then [digit_char n] else dec (n div 10) @ [digit_char (n mod 10)])"

declare dec.simps [simp del]

section \<open>Hash collisions\<close>

text \<open>
  Facts that rest on the collision resistance of SHA-256 are stated without assuming it: either
  the wanted equality holds or two named, different messages have the same digest. The messages
  are written out, so the disjunction is never true for the trivial reason that some collision
  exists somewhere.
\<close>

definition collision :: "('m \<Rightarrow> 'd) \<Rightarrow> 'm \<Rightarrow> 'm \<Rightarrow> bool" where
  "collision H x y \<longleftrightarrow> x \<noteq> y \<and> H x = H y"

lemma collisionI: "H x = H y \<Longrightarrow> x \<noteq> y \<Longrightarrow> collision H x y"
  by (simp add: collision_def)

lemma hash_eqD: "H x = H y \<Longrightarrow> x = y \<or> collision H x y"
  by (auto simp: collision_def)

lemma collision_sym: "collision H x y \<longleftrightarrow> collision H y x"
  by (auto simp: collision_def)

text \<open>A hash that is injective on the messages a computation hashes.\<close>

lemma inj_on_neq: "inj_on H S \<Longrightarrow> x \<in> S \<Longrightarrow> y \<in> S \<Longrightarrow> x \<noteq> y \<Longrightarrow> H x \<noteq> H y"
  by (auto dest: inj_onD)

lemma inj_on_distinct: "distinct (map f xs) \<Longrightarrow> inj_on f (set xs)"
  by (simp add: distinct_map)

text \<open>
  A concrete function of type \<open>sha\<close> for the closed examples: a 32-bit polynomial checksum in the
  first four bytes, then a 1. It stands in for SHA-256 only where a theorem is instantiated.
\<close>

definition sample_hash :: sha where
  "sample_hash m = arr_of (u32_le (fold (\<lambda>b acc. 31 * acc + ucast b) m 7) @ [1])"

lemma sample_hash_nonzero: "sample_hash m \<noteq> arr_rep 0"
proof
  assume "sample_hash m = arr_rep 0"
  then have "elems (sample_hash m) ! 4 = elems (arr_rep 0 :: b32) ! 4" by simp
  then show False by (simp add: sample_hash_def elems_arr_of nth_append)
qed

text \<open>A hash that picks bytes: the length and those positions at which the messages of the
  test suites differ.\<close>

definition pick_hash :: sha where
  "pick_hash m = arr_of (of_nat (length m) # map (\<lambda>i. if i < length m then m ! i else 0)
     ([0..<12] @ [32..<44] @ [45, 65, 96, 97, 113, 155, 178]))"

end
