(* ===== verification/AttestationCore.thy ===== *)
theory AttestationCore
  imports Prelude
begin

text \<open>
  The crate \<^verbatim>\<open>attestation-core\<close> (\<^verbatim>\<open>crates/attestation-core/src/lib.rs\<close>): the domain separators,
  the witness, statement and journal records, the four SHA-256 derivations (account id,
  commitment, nullifier, gate tag), the Merkle path fold, and \<open>attest\<close>, the statement both zkVM
  programs prove. A panic of \<open>attest\<close> is an \<open>Inl\<close>. Each derivation hashes a byte string that has
  a definition of its own (\<open>account_id_bytes\<close>, \<open>commitment_bytes\<close>, ...), so that the lemmas can
  name the two messages of a collision.
\<close>

section \<open>Domain separators\<close>

definition COMMITMENT_PREFIX :: b32 where
  "COMMITMENT_PREFIX = arr_of (bytes_of ''/LEE/v0.3/Commitment/'' @ replicate 11 0)"

definition PRIVATE_ACCOUNT_ID_PREFIX :: b32 where
  "PRIVATE_ACCOUNT_ID_PREFIX = arr_of (bytes_of ''/LEE/v0.3/AccountId/Private/'' @ replicate 4 0)"

definition NULLIFIER_PREFIX :: b32 where
  "NULLIFIER_PREFIX = arr_of (bytes_of ''/lp-0005/v0.1/Nullifier/'' @ replicate 8 0)"

definition GATE_TAG_PREFIX :: b32 where
  "GATE_TAG_PREFIX = arr_of (bytes_of ''/lp-0005/v0.1/GateTag/'' @ replicate 10 0)"

lemma elems_COMMITMENT_PREFIX:
  "elems COMMITMENT_PREFIX = bytes_of ''/LEE/v0.3/Commitment/'' @ replicate 11 0"
  by (simp add: COMMITMENT_PREFIX_def)

lemma elems_PRIVATE_ACCOUNT_ID_PREFIX:
  "elems PRIVATE_ACCOUNT_ID_PREFIX = bytes_of ''/LEE/v0.3/AccountId/Private/'' @ replicate 4 0"
  by (simp add: PRIVATE_ACCOUNT_ID_PREFIX_def)

lemma elems_NULLIFIER_PREFIX:
  "elems NULLIFIER_PREFIX = bytes_of ''/lp-0005/v0.1/Nullifier/'' @ replicate 8 0"
  by (simp add: NULLIFIER_PREFIX_def)

lemma elems_GATE_TAG_PREFIX:
  "elems GATE_TAG_PREFIX = bytes_of ''/lp-0005/v0.1/GateTag/'' @ replicate 10 0"
  by (simp add: GATE_TAG_PREFIX_def)

lemmas elems_PREFIX = elems_COMMITMENT_PREFIX elems_PRIVATE_ACCOUNT_ID_PREFIX
  elems_NULLIFIER_PREFIX elems_GATE_TAG_PREFIX

lemma prefixes_distinct:
  "COMMITMENT_PREFIX \<noteq> PRIVATE_ACCOUNT_ID_PREFIX" "COMMITMENT_PREFIX \<noteq> NULLIFIER_PREFIX"
  "COMMITMENT_PREFIX \<noteq> GATE_TAG_PREFIX" "PRIVATE_ACCOUNT_ID_PREFIX \<noteq> NULLIFIER_PREFIX"
  "PRIVATE_ACCOUNT_ID_PREFIX \<noteq> GATE_TAG_PREFIX" "NULLIFIER_PREFIX \<noteq> GATE_TAG_PREFIX"
  unfolding elems_inject [symmetric] elems_PREFIX
  by (simp_all add: bytes_of_def of_char_u8_inj)

section \<open>Data\<close>

type_synonym program_id = "(u32, 8) arr"

record PrivateInputs =
  w_npk :: b32
  w_identifier :: u128
  w_program_owner :: program_id
  w_balance :: u128
  w_nonce :: u128
  w_data_hash :: b32
  w_merkle_path :: "b32 list"
  w_leaf_index :: u64

record PublicJournal =
  j_merkle_root :: b32
  j_threshold :: u128
  j_context_id :: b32
  j_presenter_pubkey :: b33
  j_nullifier :: b32

record AttestStatement =
  s_merkle_root :: b32
  s_threshold :: u128
  s_context_id :: b32
  s_presenter_pubkey :: b33

record AttestInstruction =
  i_witness :: PrivateInputs
  i_statement :: AttestStatement

section \<open>Derivations\<close>

definition account_id_bytes :: "b32 \<Rightarrow> u128 \<Rightarrow> bytes" where
  "account_id_bytes npk identifier =
     elems PRIVATE_ACCOUNT_ID_PREFIX @ elems npk @ u128_le identifier"

definition derive_account_id :: "sha \<Rightarrow> b32 \<Rightarrow> u128 \<Rightarrow> b32" where
  "derive_account_id H npk identifier = H (account_id_bytes npk identifier)"

definition commitment_bytes :: "b32 \<Rightarrow> program_id \<Rightarrow> u128 \<Rightarrow> u128 \<Rightarrow> b32 \<Rightarrow> bytes" where
  "commitment_bytes account_id program_owner balance nonce data_hash =
     elems COMMITMENT_PREFIX @ elems account_id @ words_le (elems program_owner)
     @ u128_le balance @ u128_le nonce @ elems data_hash"

definition compute_commitment :: "sha \<Rightarrow> b32 \<Rightarrow> program_id \<Rightarrow> u128 \<Rightarrow> u128 \<Rightarrow> b32 \<Rightarrow> b32" where
  "compute_commitment H account_id program_owner balance nonce data_hash =
     H (commitment_bytes account_id program_owner balance nonce data_hash)"

definition nullifier_bytes :: "b33 \<Rightarrow> b32 \<Rightarrow> b32 \<Rightarrow> bytes" where
  "nullifier_bytes presenter_pubkey context_id account_id =
     elems NULLIFIER_PREFIX @ elems presenter_pubkey @ elems context_id @ elems account_id"

definition compute_nullifier :: "sha \<Rightarrow> b33 \<Rightarrow> b32 \<Rightarrow> b32 \<Rightarrow> b32" where
  "compute_nullifier H presenter_pubkey context_id account_id =
     H (nullifier_bytes presenter_pubkey context_id account_id)"

definition gate_tag_bytes :: "b32 \<Rightarrow> u128 \<Rightarrow> b32 \<Rightarrow> bytes" where
  "gate_tag_bytes nullifier minimum_threshold expected_context_id =
     elems GATE_TAG_PREFIX @ elems nullifier @ u128_le minimum_threshold
     @ elems expected_context_id"

definition compute_gate_tag :: "sha \<Rightarrow> b32 \<Rightarrow> u128 \<Rightarrow> b32 \<Rightarrow> b32" where
  "compute_gate_tag H nullifier minimum_threshold expected_context_id =
     H (gate_tag_bytes nullifier minimum_threshold expected_context_id)"

text \<open>\<^verbatim>\<open>hash_two(L, R)\<close> and the loop of \<^verbatim>\<open>fold_merkle_path\<close>: the mutable \<open>node\<close> and \<open>idx\<close> are the
  accumulators; bit 0 of \<open>idx\<close> says on which side the sibling goes.\<close>

definition hash_two :: "sha \<Rightarrow> b32 \<Rightarrow> b32 \<Rightarrow> b32" where
  "hash_two H l r = H (elems l @ elems r)"

fun merkle_loop :: "sha \<Rightarrow> b32 \<Rightarrow> u64 \<Rightarrow> b32 list \<Rightarrow> b32" where
  "merkle_loop H node idx [] = node"
| "merkle_loop H node idx (sib # sibs) =
     merkle_loop H
       (if idx AND 1 = 0 then hash_two H node sib else hash_two H sib node)
       (drop_bit 1 idx) sibs"

definition fold_merkle_path :: "sha \<Rightarrow> b32 \<Rightarrow> u64 \<Rightarrow> b32 list \<Rightarrow> b32" where
  "fold_merkle_path H leaf_hash leaf_index siblings = merkle_loop H leaf_hash leaf_index siblings"

section \<open>The attested statement\<close>

datatype attest_panic = MerklePathDoesNotAnchor | BalanceBelowThreshold

definition leaf_hash_of :: "sha \<Rightarrow> b32 \<Rightarrow> b32" where
  "leaf_hash_of H commitment = H (elems commitment)"

definition attest :: "sha \<Rightarrow> PrivateInputs \<Rightarrow> AttestStatement \<Rightarrow> attest_panic + b32" where
  "attest H witness statement =
    (let account_id = derive_account_id H (w_npk witness) (w_identifier witness);
         leaf_commitment = compute_commitment H account_id (w_program_owner witness)
           (w_balance witness) (w_nonce witness) (w_data_hash witness);
         leaf_hash = leaf_hash_of H leaf_commitment;
         recovered_root = fold_merkle_path H leaf_hash (w_leaf_index witness) (w_merkle_path witness)
     in if recovered_root \<noteq> s_merkle_root statement then Inl MerklePathDoesNotAnchor
        else if \<not> s_threshold statement \<le> w_balance witness then Inl BalanceBelowThreshold
        else Inr (compute_nullifier H (s_presenter_pubkey statement) (s_context_id statement)
               account_id))"


section \<open>The hashed byte strings determine their fields\<close>

lemma length_preimages [simp]:
  "length (account_id_bytes npk i) = 80"
  "length (commitment_bytes a po b n d) = 160"
  "length (nullifier_bytes pk c a) = 129"
  "length (gate_tag_bytes nf m c) = 112"
  by (simp_all add: account_id_bytes_def commitment_bytes_def nullifier_bytes_def gate_tag_bytes_def)

lemma account_id_bytes_inject [simp]:
  "account_id_bytes n i = account_id_bytes n' i' \<longleftrightarrow> n = n' \<and> i = i'"
  by (simp add: account_id_bytes_def)

lemma commitment_bytes_inject [simp]:
  "commitment_bytes a po b n d = commitment_bytes a' po' b' n' d' \<longleftrightarrow>
     a = a' \<and> po = po' \<and> b = b' \<and> n = n' \<and> d = d'"
  by (simp add: commitment_bytes_def words_le_inject)

lemma nullifier_bytes_inject [simp]:
  "nullifier_bytes pk c a = nullifier_bytes pk' c' a' \<longleftrightarrow> pk = pk' \<and> c = c' \<and> a = a'"
  by (simp add: nullifier_bytes_def)

lemma gate_tag_bytes_inject [simp]:
  "gate_tag_bytes nf m c = gate_tag_bytes nf' m' c' \<longleftrightarrow> nf = nf' \<and> m = m' \<and> c = c'"
  by (simp add: gate_tag_bytes_def)

lemma preimages_disjoint [simp]:
  "account_id_bytes npk i \<noteq> commitment_bytes a po b n d"
  "account_id_bytes npk i \<noteq> nullifier_bytes pk c a"
  "account_id_bytes npk i \<noteq> gate_tag_bytes nf m c"
  "commitment_bytes a po b n d \<noteq> nullifier_bytes pk c a'"
  "commitment_bytes a po b n d \<noteq> gate_tag_bytes nf m c"
  "nullifier_bytes pk c a \<noteq> gate_tag_bytes nf m c'"
  by (auto dest: arg_cong [where f = length])

section \<open>The Merkle fold\<close>

lemma and_1_eq_0 [simp]: "(idx :: u64) AND 1 = 0 \<longleftrightarrow> \<not> bit idx 0"
  by (simp add: and_one_eq bit_0 even_iff_mod_2_eq_zero)

lemma merkle_loop_append:
  "merkle_loop H node idx (xs @ ys) =
     merkle_loop H (merkle_loop H node idx xs) (drop_bit (length xs) idx) ys"
  by (induction xs arbitrary: node idx) (simp_all add: ac_simps)

lemma fold_merkle_path_Nil [simp]: "fold_merkle_path H leaf idx [] = leaf"
  by (simp add: fold_merkle_path_def)

lemma fold_merkle_path_snoc [simp]:
  "fold_merkle_path H leaf idx (sibs @ [sib]) =
     (if bit idx (length sibs) then hash_two H sib (fold_merkle_path H leaf idx sibs)
      else hash_two H (fold_merkle_path H leaf idx sibs) sib)"
  by (simp add: fold_merkle_path_def merkle_loop_append bit_simps)

lemma fold_merkle_path_cong_bits:
  "(\<And>k. k < length sibs \<Longrightarrow> bit i k = bit j k) \<Longrightarrow>
   fold_merkle_path H leaf i sibs = fold_merkle_path H leaf j sibs"
  by (induction sibs rule: rev_induct) simp_all

section \<open>When \<open>attest\<close> succeeds\<close>

definition witness_account_id :: "sha \<Rightarrow> PrivateInputs \<Rightarrow> b32" where
  "witness_account_id H w = derive_account_id H (w_npk w) (w_identifier w)"

definition witness_commitment :: "sha \<Rightarrow> PrivateInputs \<Rightarrow> b32" where
  "witness_commitment H w = compute_commitment H (witness_account_id H w) (w_program_owner w)
     (w_balance w) (w_nonce w) (w_data_hash w)"

definition witness_root :: "sha \<Rightarrow> PrivateInputs \<Rightarrow> b32" where
  "witness_root H w = fold_merkle_path H (leaf_hash_of H (witness_commitment H w))
     (w_leaf_index w) (w_merkle_path w)"

lemma attest_unfold:
  "attest H w s =
    (if witness_root H w \<noteq> s_merkle_root s then Inl MerklePathDoesNotAnchor
     else if w_balance w < s_threshold s then Inl BalanceBelowThreshold
     else Inr (compute_nullifier H (s_presenter_pubkey s) (s_context_id s) (witness_account_id H w)))"
  by (simp add: attest_def witness_root_def witness_commitment_def witness_account_id_def
      Let_def not_le)

lemma attest_Inr [result_iff]:
  "attest H w s = Inr n \<longleftrightarrow>
     witness_root H w = s_merkle_root s \<and> s_threshold s \<le> w_balance w
     \<and> n = compute_nullifier H (s_presenter_pubkey s) (s_context_id s) (witness_account_id H w)"
  by (auto simp: attest_unfold)

lemma attest_Inl:
  "attest H w s = Inl p \<longleftrightarrow>
     (p = MerklePathDoesNotAnchor \<and> witness_root H w \<noteq> s_merkle_root s)
     \<or> (p = BalanceBelowThreshold \<and> witness_root H w = s_merkle_root s \<and> w_balance w < s_threshold s)"
  by (auto simp: attest_unfold)

end
