(* ===== verification/Sha256.thy ===== *)
theory Sha256
  imports AttestationCore
begin

text \<open>
  SHA-256 as a concrete instance of the parameter \<open>sha\<close>, so that the derivations can be evaluated on
  the reference vectors the repository pins them to. It is the function the \<^verbatim>\<open>sha2\<close> crate documents,
  written from the standard over integers below \<open>2 ^ 32\<close>; no theorem about the program assumes
  that the parameter is this function. Each compression of the vectors is evaluated once, in a lemma
  of its own.
\<close>

section \<open>Words\<close>

definition ror32 :: "nat \<Rightarrow> int \<Rightarrow> int" where
  "ror32 n x = drop_bit n x + push_bit (32 - n) (take_bit n x)"

definition sched0 :: "int \<Rightarrow> int" where "sched0 x = ror32 7 x XOR ror32 18 x XOR drop_bit 3 x"
definition sched1 :: "int \<Rightarrow> int" where "sched1 x = ror32 17 x XOR ror32 19 x XOR drop_bit 10 x"
definition mix_a :: "int \<Rightarrow> int" where "mix_a x = ror32 2 x XOR ror32 13 x XOR ror32 22 x"
definition mix_e :: "int \<Rightarrow> int" where "mix_e x = ror32 6 x XOR ror32 11 x XOR ror32 25 x"
definition sel_bits :: "int \<Rightarrow> int \<Rightarrow> int \<Rightarrow> int" where "sel_bits x y z = z XOR (x AND (y XOR z))"
definition majority :: "int \<Rightarrow> int \<Rightarrow> int \<Rightarrow> int" where
  "majority x y z = (x AND y) XOR (x AND z) XOR (y AND z)"

section \<open>The compression function\<close>

definition sha_keys :: "int list" where
  "sha_keys = [1116352408, 1899447441, 3049323471, 3921009573, 961987163, 1508970993, 2453635748,
    2870763221, 3624381080, 310598401, 607225278, 1426881987, 1925078388, 2162078206,
    2614888103, 3248222580, 3835390401, 4022224774, 264347078, 604807628, 770255983,
    1249150122, 1555081692, 1996064986, 2554220882, 2821834349, 2952996808, 3210313671,
    3336571891, 3584528711, 113926993, 338241895, 666307205, 773529912, 1294757372, 1396182291,
    1695183700, 1986661051, 2177026350, 2456956037, 2730485921, 2820302411, 3259730800,
    3345764771, 3516065817, 3600352804, 4094571909, 275423344, 430227734, 506948616, 659060556,
    883997877, 958139571, 1322822218, 1537002063, 1747873779, 1955562222, 2024104815,
    2227730452, 2361852424, 2428436474, 2756734187, 3204031479, 3329325298]"

definition sha_init :: "int list" where
  "sha_init = [1779033703, 3144134277, 1013904242, 2773480762, 1359893119, 2600822924, 528734635,
    1541459225]"

text \<open>The message schedule as a window of 16 words that moves by one word a round.\<close>

fun slide :: "int list \<Rightarrow> int list" where
  "slide [a, b, c, d, e, f, g, h, i, j, k, l, m, n, p, q] =
     [b, c, d, e, f, g, h, i, j, k, l, m, n, p, q, take_bit 32 (sched1 p + j + sched0 b + a)]"
| "slide ws = ws"

fun sha_shift :: "int list \<Rightarrow> int \<Rightarrow> int \<Rightarrow> int list" where
  "sha_shift [a, b, c, d, e, f, g, h] t u =
     [take_bit 32 (t + u), a, b, c, take_bit 32 (d + t), e, f, g]"
| "sha_shift st _ _ = st"

fun sha_round :: "int \<Rightarrow> int \<Rightarrow> int list \<Rightarrow> int list" where
  "sha_round k w [a, b, c, d, e, f, g, h] =
     sha_shift [a, b, c, d, e, f, g, h] (h + mix_e e + sel_bits e f g + k + w) (mix_a a + majority a b c)"
| "sha_round k w st = st"

fun sha_rounds :: "int list \<Rightarrow> int list \<Rightarrow> int list \<Rightarrow> int list" where
  "sha_rounds [] ws st = st"
| "sha_rounds (k # ks) ws st = sha_rounds ks (slide ws) (sha_round k (hd ws) st)"

definition sha_block :: "int list \<Rightarrow> int list \<Rightarrow> int list" where
  "sha_block st ws = map2 (\<lambda>x y. take_bit 32 (x + y)) st (sha_rounds sha_keys ws st)"

section \<open>Padding and the digest\<close>

text \<open>The 1 bit, zeros up to 56 bytes modulo 64, and the length in bits, big-endian.\<close>

definition sha_pad :: "bytes \<Rightarrow> bytes" where
  "sha_pad m = m @ [128] @ replicate (nat ((55 - int (length m)) mod 64)) 0
     @ rev (u64_le (of_nat (8 * length m)))"

fun be_words :: "bytes \<Rightarrow> int list" where
  "be_words (a # b # c # d # rest) =
     (uint a * 16777216 + uint b * 65536 + uint c * 256 + uint d) # be_words rest"
| "be_words _ = []"

fun chunks16 :: "int list \<Rightarrow> int list list" where
  "chunks16 [] = []"
| "chunks16 (w # ws) = take 16 (w # ws) # chunks16 (drop 15 ws)"

definition be_bytes :: "int \<Rightarrow> bytes" where
  "be_bytes w = map (\<lambda>k. word_of_int (w div k)) [16777216, 65536, 256, 1]"

definition sha256 :: sha where
  "sha256 m = arr_of (concat (map be_bytes (foldl sha_block sha_init (chunks16 (be_words (sha_pad m))))))"

section \<open>The compressions of the reference vectors\<close>

lemmas sha_defs = ror32_def sched0_def sched1_def mix_a_def mix_e_def sel_bits_def majority_def
  sha_keys_def sha_block_def

lemma empty_block_1:
  "sha_block [1779033703, 3144134277, 1013904242, 2773480762, 1359893119, 2600822924, 528734635,
    1541459225]
    [2147483648, 0, 0, 0, 0, 0, 0, 0, 0, 0, 0, 0, 0, 0, 0, 0]
   = [3820012610, 2566659092, 2600203464, 2574235940, 665731556, 1687917388, 2761267483,
    2018687061]"
  by (simp add: sha_defs)

lemma account_id_block_1:
  "sha_block [1779033703, 3144134277, 1013904242, 2773480762, 1359893119, 2600822924, 528734635,
    1541459225]
    [793527621, 796274734, 858734947, 1668248942, 1950966831, 1349675382, 1635018031, 0,
    1309938693, 2982603108, 2944839368, 416105687, 2185896758, 2595805994, 2825551507,
    2247365338]
   = [3943408534, 3503878533, 2964188928, 3039452914, 1324276284, 3626605513, 1659736330,
    4191846910]"
  by (simp add: sha_defs)

lemma account_id_block_2:
  "sha_block [3943408534, 3503878533, 2964188928, 3039452914, 1324276284, 3626605513, 1659736330,
    4191846910]
    [0, 0, 0, 0, 2147483648, 0, 0, 0, 0, 0, 0, 0, 0, 0, 0, 640]
   = [2771658784, 3886772490, 1106353224, 2597288640, 254685949, 1772378452, 683652727, 1090470798]"
  by (simp add: sha_defs)

lemma account_id_one_block_2:
  "sha_block [3943408534, 3503878533, 2964188928, 3039452914, 1324276284, 3626605513, 1659736330,
    4191846910]
    [16777216, 0, 0, 0, 2147483648, 0, 0, 0, 0, 0, 0, 0, 0, 0, 0, 640]
   = [3418975733, 674677516, 924909654, 4114695836, 418978399, 955736953, 2780228351, 327139144]"
  by (simp add: sha_defs)

lemma commitment_block_1:
  "sha_block [1779033703, 3144134277, 1013904242, 2773480762, 1359893119, 2600822924, 528734635,
    1541459225]
    [793527621, 796274734, 858735471, 1835886964, 1835363956, 788529152, 0, 0, 0, 0, 0, 0, 0, 0,
    0, 0]
   = [127065828, 1164727641, 3174780379, 2311093982, 1847612041, 2362042403, 3730288226, 92857165]"
  by (simp add: sha_defs)

lemma commitment_block_2:
  "sha_block [127065828, 1164727641, 3174780379, 2311093982, 1847612041, 2362042403, 3730288226, 92857165]
    [0, 0, 0, 0, 0, 0, 0, 0, 0, 0, 0, 0, 0, 0, 0, 0]
   = [1452363642, 1113581046, 2217259291, 2874048591, 890035476, 1373335312, 1938955318,
    2496453383]"
  by (simp add: sha_defs)

lemma commitment_block_3:
  "sha_block [1452363642, 1113581046, 2217259291, 2874048591, 890035476, 1373335312, 1938955318,
    2496453383]
    [3820012610, 2566659092, 2600203464, 2574235940, 665731556, 1687917388, 2761267483,
    2018687061, 2147483648, 0, 0, 0, 0, 0, 0, 1280]
   = [937744335, 1893592881, 3998173063, 2601498669, 1749693395, 3995771123, 259849534, 65362459]"
  by (simp add: sha_defs)

lemma leaf_block_1:
  "sha_block [1779033703, 3144134277, 1013904242, 2773480762, 1359893119, 2600822924, 528734635,
    1541459225]
    [937744335, 1893592881, 3998173063, 2601498669, 1749693395, 3995771123, 259849534, 65362459,
    2147483648, 0, 0, 0, 0, 0, 0, 256]
   = [4209885297, 2607118110, 3954644052, 438355173, 2588606201, 2180085287, 704482731, 3091662889]"
  by (simp add: sha_defs)

section \<open>The reference vectors\<close>

text \<open>\<^verbatim>\<open>crates/attestation-core/tests/account_id_regression.rs\<close> and \<^verbatim>\<open>commitment_regression.rs\<close>: the
  constants, copied there from LEZ's own tests.\<close>

definition NPK_FROM_LEZ_TEST :: b32 where
  "NPK_FROM_LEZ_TEST = arr_of [78, 20, 20, 5, 177, 198, 233, 100, 175, 134, 174, 200, 24, 205, 68, 215, 130, 74, 35, 54,
    154, 184, 219, 42, 168, 106, 126, 147, 133, 244, 18, 218]"

definition DUMMY_COMMITMENT :: b32 where
  "DUMMY_COMMITMENT = arr_of [55, 228, 215, 207, 112, 221, 239, 49, 238, 79, 71, 135, 155, 15, 184, 45, 104, 74, 51, 211,
    238, 42, 160, 243, 15, 124, 253, 62, 3, 229, 90, 27]"

definition DUMMY_COMMITMENT_HASH :: b32 where
  "DUMMY_COMMITMENT_HASH = arr_of [250, 237, 192, 113, 155, 101, 119, 30, 235, 183, 20, 84, 26, 32, 196, 229, 154, 74, 254,
    249, 129, 241, 118, 39, 41, 253, 141, 171, 184, 71, 8, 41]"

text \<open>A message's blocks, and the digest once they are compressed.\<close>

lemma sha256_digest:
  "chunks16 (be_words (sha_pad m)) = blocks \<Longrightarrow> foldl sha_block sha_init blocks = st \<Longrightarrow>
   concat (map be_bytes st) = digest \<Longrightarrow> sha256 m = arr_of digest"
  by (simp add: sha256_def)

lemma no_bytes_blocks:
  "chunks16 (be_words (sha_pad [])) =
    [[2147483648, 0, 0, 0, 0, 0, 0, 0, 0, 0, 0, 0, 0, 0, 0, 0]]"
  by code_simp

lemma no_bytes_digest:
  "sha256 [] =
    arr_of [227, 176, 196, 66, 152, 252, 28, 20, 154, 251, 244, 200, 153, 111, 185, 36, 39, 174, 65,
    228, 100, 155, 147, 76, 164, 149, 153, 27, 120, 82, 184, 85]"
  by (rule sha256_digest [OF no_bytes_blocks], simp add: sha_init_def empty_block_1, code_simp)

lemma account_id_zero_blocks:
  "chunks16 (be_words (sha_pad (account_id_bytes NPK_FROM_LEZ_TEST 0))) =
    [[793527621, 796274734, 858734947, 1668248942, 1950966831, 1349675382, 1635018031, 0,
      1309938693, 2982603108, 2944839368, 416105687, 2185896758, 2595805994, 2825551507,
      2247365338],
     [0, 0, 0, 0, 2147483648, 0, 0, 0, 0, 0, 0, 0, 0, 0, 0, 640]]"
  by code_simp

lemma account_id_zero_digest:
  "sha256 (account_id_bytes NPK_FROM_LEZ_TEST 0) =
    arr_of [165, 52, 40, 32, 231, 171, 113, 10, 65, 241, 156, 72, 154, 207, 122, 192, 15, 46, 50, 253,
    105, 164, 89, 84, 40, 191, 182, 119, 64, 255, 67, 142]"
  by (rule sha256_digest [OF account_id_zero_blocks], simp add: sha_init_def account_id_block_1 account_id_block_2, code_simp)

lemma account_id_one_blocks:
  "chunks16 (be_words (sha_pad (account_id_bytes NPK_FROM_LEZ_TEST 1))) =
    [[793527621, 796274734, 858734947, 1668248942, 1950966831, 1349675382, 1635018031, 0,
      1309938693, 2982603108, 2944839368, 416105687, 2185896758, 2595805994, 2825551507,
      2247365338],
     [16777216, 0, 0, 0, 2147483648, 0, 0, 0, 0, 0, 0, 0, 0, 0, 0, 640]]"
  by code_simp

lemma account_id_one_digest:
  "sha256 (account_id_bytes NPK_FROM_LEZ_TEST 1) =
    arr_of [203, 201, 109, 245, 40, 54, 195, 12, 55, 33, 0, 86, 245, 65, 70, 156, 24, 249, 26, 95, 56,
    247, 99, 121, 165, 182, 234, 255, 19, 127, 191, 72]"
  by (rule sha256_digest [OF account_id_one_blocks], simp add: sha_init_def account_id_block_1 account_id_one_block_2, code_simp)

lemma dummy_commitment_blocks:
  "chunks16 (be_words (sha_pad (commitment_bytes (arr_rep 0) (arr_rep 0) 0 0
      (arr_of [227, 176, 196, 66, 152, 252, 28, 20, 154, 251, 244, 200, 153, 111, 185, 36, 39, 174, 65,
    228, 100, 155, 147, 76, 164, 149, 153, 27, 120, 82, 184, 85])))) =
    [[793527621, 796274734, 858735471, 1835886964, 1835363956, 788529152, 0, 0, 0, 0, 0, 0, 0,
      0, 0, 0],
     [0, 0, 0, 0, 0, 0, 0, 0, 0, 0, 0, 0, 0, 0, 0, 0],
     [3820012610, 2566659092, 2600203464, 2574235940, 665731556, 1687917388, 2761267483,
      2018687061, 2147483648, 0, 0, 0, 0, 0, 0, 1280]]"
  by code_simp

lemma dummy_commitment_digest:
  "sha256 (commitment_bytes (arr_rep 0) (arr_rep 0) 0 0
      (arr_of [227, 176, 196, 66, 152, 252, 28, 20, 154, 251, 244, 200, 153, 111, 185, 36, 39, 174, 65,
    228, 100, 155, 147, 76, 164, 149, 153, 27, 120, 82, 184, 85])) =
    arr_of [55, 228, 215, 207, 112, 221, 239, 49, 238, 79, 71, 135, 155, 15, 184, 45, 104, 74, 51, 211,
    238, 42, 160, 243, 15, 124, 253, 62, 3, 229, 90, 27]"
  by (rule sha256_digest [OF dummy_commitment_blocks], simp add: sha_init_def commitment_block_1 commitment_block_2 commitment_block_3, code_simp)

lemma dummy_leaf_blocks:
  "chunks16 (be_words (sha_pad (elems DUMMY_COMMITMENT))) =
    [[937744335, 1893592881, 3998173063, 2601498669, 1749693395, 3995771123, 259849534,
      65362459, 2147483648, 0, 0, 0, 0, 0, 0, 256]]"
  by code_simp

lemma dummy_leaf_digest:
  "sha256 (elems DUMMY_COMMITMENT) =
    arr_of [250, 237, 192, 113, 155, 101, 119, 30, 235, 183, 20, 84, 26, 32, 196, 229, 154, 74, 254,
    249, 129, 241, 118, 39, 41, 253, 141, 171, 184, 71, 8, 41]"
  by (rule sha256_digest [OF dummy_leaf_blocks], simp add: sha_init_def leaf_block_1, code_simp)

text \<open>The derivations give the values LEZ's own tests fix: the account ids of the test key for the
  identifiers 0 and 1, the commitment of the default account under the null id, and its leaf hash.\<close>

lemma reference_vectors:
  "derive_account_id sha256 NPK_FROM_LEZ_TEST 0 =
     arr_of [165, 52, 40, 32, 231, 171, 113, 10, 65, 241, 156, 72, 154, 207, 122, 192, 15, 46, 50, 253,
    105, 164, 89, 84, 40, 191, 182, 119, 64, 255, 67, 142]
   \<and> derive_account_id sha256 NPK_FROM_LEZ_TEST 1 =
     arr_of [203, 201, 109, 245, 40, 54, 195, 12, 55, 33, 0, 86, 245, 65, 70, 156, 24, 249, 26, 95, 56,
    247, 99, 121, 165, 182, 234, 255, 19, 127, 191, 72]
   \<and> compute_commitment sha256 (arr_rep 0) (arr_rep 0) 0 0 (sha256 []) = DUMMY_COMMITMENT
   \<and> leaf_hash_of sha256 DUMMY_COMMITMENT = DUMMY_COMMITMENT_HASH"
  by (simp add: derive_account_id_def account_id_zero_digest account_id_one_digest
      compute_commitment_def no_bytes_digest dummy_commitment_digest leaf_hash_of_def dummy_leaf_digest
      DUMMY_COMMITMENT_def [symmetric] DUMMY_COMMITMENT_HASH_def)

end
