(* ===== verification/Base58.thy ===== *)
theory Base58
  imports Prelude
begin

text \<open>
  The base58 encoder of \<^verbatim>\<open>crates/cu-bench/src/main.rs\<close> (\<^verbatim>\<open>bs58_encode\<close>), a big-integer conversion by
  repeated multiplication. \<open>bs58_encode\<close> keeps the code's integers: \<^verbatim>\<open>u8\<close> digits, a 64-bit \<^verbatim>\<open>usize\<close>
  carry that could wrap, casts that could truncate, a \<^verbatim>\<open>while\<close> loop that need not end and an alphabet
  lookup that panics out of range; the last two are \<open>None\<close>. The same conversion on naturals,
  \<open>b58_text\<close>, is its specification: the refinement shows that nothing wraps, truncates, loops or
  panics, and the value lemmas that the text denotes the 32 bytes as a number.
\<close>

section \<open>The encoder\<close>

definition b58_alphabet :: string where
  "b58_alphabet = ''123456789ABCDEFGHJKLMNPQRSTUVWXYZabcdefghijkmnopqrstuvwxyz''"

text \<open>The inner \<^verbatim>\<open>for\<close> over the digits, least significant first.\<close>

fun bs58_mul :: "u8 list \<Rightarrow> u64 \<Rightarrow> u8 list \<times> u64" where
  "bs58_mul [] carry = ([], carry)"
| "bs58_mul (digit # digits) carry =
    (let carry = carry + push_bit 8 (ucast digit)
     in case bs58_mul digits (carry div 58) of (ds, out) \<Rightarrow> (ucast (carry mod 58) # ds, out))"

text \<open>\<^verbatim>\<open>while carry > 0\<close>.\<close>

partial_function (option) bs58_carry :: "u64 \<Rightarrow> u8 list \<Rightarrow> u8 list option" where
  "bs58_carry carry digits =
     (if carry > 0 then bs58_carry (carry div 58) (digits @ [ucast (carry mod 58)]) else Some digits)"

declare bs58_carry.simps [code]

definition bs58_byte :: "u8 \<Rightarrow> u8 list \<Rightarrow> u8 list option" where
  "bs58_byte byte digits = (case bs58_mul digits (ucast byte) of (ds, carry) \<Rightarrow> bs58_carry carry ds)"

primrec bs58_bytes :: "bytes \<Rightarrow> u8 list \<Rightarrow> u8 list option" where
  "bs58_bytes [] digits = Some digits"
| "bs58_bytes (byte # bs) digits = Option.bind (bs58_byte byte digits) (bs58_bytes bs)"

definition alphabet_at :: "u8 \<Rightarrow> char option" where
  "alphabet_at d = (if unat d < length b58_alphabet then Some (b58_alphabet ! unat d) else None)"

definition bs58_encode :: "b32 \<Rightarrow> string option" where
  "bs58_encode input =
     Option.bind (bs58_bytes (elems input) []) (\<lambda>digits.
     let leading_zeros = length (takeWhile (\<lambda>b. b = 0) (elems input))
     in map_option (\<lambda>text. replicate leading_zeros (CHR ''1'') @ text)
          (those (map alphabet_at (rev digits))))"

section \<open>The conversion on naturals\<close>

fun b58_mul :: "nat list \<Rightarrow> nat \<Rightarrow> nat list \<times> nat" where
  "b58_mul [] carry = ([], carry)"
| "b58_mul (digit # digits) carry =
    (let carry = carry + digit * 256
     in case b58_mul digits (carry div 58) of (ds, out) \<Rightarrow> (carry mod 58 # ds, out))"

fun b58_carry :: "nat \<Rightarrow> nat list" where
  "b58_carry carry = (if carry > 0 then carry mod 58 # b58_carry (carry div 58) else [])"

declare b58_carry.simps [simp del]

definition b58_step :: "u8 \<Rightarrow> nat list \<Rightarrow> nat list" where
  "b58_step byte digits =
     (case b58_mul digits (unat byte) of (ds, carry) \<Rightarrow> ds @ b58_carry carry)"

definition b58_digits :: "bytes \<Rightarrow> nat list" where
  "b58_digits input = fold b58_step input []"

definition b58_text :: "b32 \<Rightarrow> string" where
  "b58_text input =
    (let digits = b58_digits (elems input);
         leading_zeros = length (takeWhile (\<lambda>b. b = 0) (elems input))
     in replicate leading_zeros (CHR ''1'') @ map (\<lambda>d. b58_alphabet ! d) (rev digits))"

text \<open>The value of little-endian base-58 digits and of big-endian bytes.\<close>

fun b58_value :: "nat list \<Rightarrow> nat" where
  "b58_value [] = 0"
| "b58_value (d # ds) = d + 58 * b58_value ds"

definition bytes_value :: "bytes \<Rightarrow> nat" where
  "bytes_value bs = foldl (\<lambda>n b. 256 * n + unat b) 0 bs"

lemma b58_value_append: "b58_value (xs @ ys) = b58_value xs + 58 ^ length xs * b58_value ys"
  by (induction xs) (simp_all add: algebra_simps)

lemma b58_mul_length: "length (fst (b58_mul ds c)) = length ds"
  by (induction ds c rule: b58_mul.induct) (simp_all add: Let_def case_prod_beta)

lemma b58_mul_value:
  "b58_value (fst (b58_mul ds c)) + 58 ^ length ds * snd (b58_mul ds c) = c + 256 * b58_value ds"
proof (induction ds c rule: b58_mul.induct)
  case (2 d ds c)
  let ?c = "c + d * 256"
  note IH = 2 [OF refl]
  have "b58_value (fst (b58_mul (d # ds) c)) + 58 ^ length (d # ds) * snd (b58_mul (d # ds) c)
      = ?c mod 58 + 58 * (b58_value (fst (b58_mul ds (?c div 58)))
          + 58 ^ length ds * snd (b58_mul ds (?c div 58)))"
    by (simp add: Let_def case_prod_beta algebra_simps)
  also have "\<dots> = ?c mod 58 + 58 * (?c div 58 + 256 * b58_value ds)"
    by (simp only: IH)
  also have "\<dots> = (?c mod 58 + 58 * (?c div 58)) + 256 * (58 * b58_value ds)"
    by (simp add: algebra_simps)
  also have "\<dots> = c + 256 * b58_value (d # ds)"
    by (simp only: mod_mult_div_eq) (simp add: algebra_simps)
  finally show ?case .
qed simp

lemma b58_carry_value: "b58_value (b58_carry c) = c"
proof (induction c rule: b58_carry.induct)
  case (1 c)
  then show ?case by (subst b58_carry.simps) simp
qed

lemma b58_step_value: "b58_value (b58_step b ds) = 256 * b58_value ds + unat b"
  using b58_mul_value [of ds "unat b"]
  by (simp add: b58_step_def case_prod_beta b58_value_append b58_mul_length b58_carry_value)

lemma b58_digits_value: "b58_value (b58_digits bs) = bytes_value bs"
proof -
  have "b58_value (fold b58_step bs ds) = foldl (\<lambda>n b. 256 * n + unat b) (b58_value ds) bs" for ds
    by (induction bs arbitrary: ds) (simp_all add: b58_step_value)
  then show ?thesis by (simp add: b58_digits_def bytes_value_def)
qed

text \<open>Digits are below 58 and every carry of the inner loop is below 256.\<close>

lemma b58_mul_bounds:
  "\<forall>d \<in> set ds. d < 58 \<Longrightarrow> c < 256 \<Longrightarrow>
   (\<forall>d \<in> set (fst (b58_mul ds c)). d < 58) \<and> snd (b58_mul ds c) < 256"
proof (induction ds c rule: b58_mul.induct)
  case (2 d ds c)
  have "c + d * 256 < 256 * 58" using 2(2,3) by auto
  then have "(c + d * 256) div 58 < 256" by (simp add: less_mult_imp_div_less)
  with 2 show ?case by (simp add: Let_def case_prod_beta)
qed simp

lemma b58_carry_bounds: "\<forall>d \<in> set (b58_carry c). d < 58"
proof (induction c rule: b58_carry.induct)
  case (1 c)
  then show ?case by (subst b58_carry.simps) auto
qed

lemma b58_step_bounds: "\<forall>d \<in> set ds. d < 58 \<Longrightarrow> \<forall>d \<in> set (b58_step b ds). d < 58"
proof -
  assume "\<forall>d \<in> set ds. d < 58"
  moreover have "unat b < 2 ^ LENGTH(8)" by (rule unsigned_less)
  ultimately show ?thesis
    using b58_mul_bounds [of ds "unat b"] b58_carry_bounds
    by (auto simp: b58_step_def case_prod_beta)
qed

lemma b58_digits_bounds: "\<forall>d \<in> set (b58_digits bs). d < 58"
proof -
  have "\<forall>d \<in> set ds. d < 58 \<Longrightarrow> \<forall>d \<in> set (fold b58_step bs ds). d < 58" for ds
  proof (induction bs arbitrary: ds)
    case (Cons b bs)
    from Cons.IH [OF b58_step_bounds [OF Cons.prems]] show ?case by simp
  qed simp
  from this [of "[]"] show ?thesis by (simp add: b58_digits_def)
qed

section \<open>The text determines the account id\<close>

definition b58_index :: "char \<Rightarrow> nat" where
  "b58_index c = length (takeWhile (\<lambda>x. x \<noteq> c) b58_alphabet)"

definition b58_read :: "string \<Rightarrow> nat" where
  "b58_read s = foldl (\<lambda>n c. 58 * n + b58_index c) 0 s"

lemma length_b58_alphabet [simp]: "length b58_alphabet = 58"
  by (simp add: b58_alphabet_def)

lemma b58_index_alphabet: "d < 58 \<Longrightarrow> b58_index (b58_alphabet ! d) = d"
proof -
  assume d: "d < 58"
  have dist: "distinct b58_alphabet" by (simp add: b58_alphabet_def)
  have "takeWhile (\<lambda>x. x \<noteq> b58_alphabet ! d) b58_alphabet = take d b58_alphabet"
  proof (rule takeWhile_eq_take_P_nth)
    show "b58_alphabet ! i \<noteq> b58_alphabet ! d" if "i < d" "i < length b58_alphabet" for i
      using that d dist by (simp add: nth_eq_iff_index_eq)
  qed simp
  with d show ?thesis by (simp add: b58_index_def)
qed

lemma foldl_zeros: "foldl (\<lambda>n c. 58 * n + b58_index c) 0 (replicate k (CHR ''1'')) = 0"
  by (induction k) (simp_all add: b58_index_def b58_alphabet_def)

lemma foldl_digits:
  "\<forall>d \<in> set ds. d < 58 \<Longrightarrow>
   foldl (\<lambda>n c. 58 * n + b58_index c) 0 (map (\<lambda>d. b58_alphabet ! d) (rev ds)) = b58_value ds"
  by (induction ds) (simp_all add: b58_index_alphabet)

lemma b58_read_encode: "b58_read (b58_text a) = bytes_value (elems a)"
  by (simp add: b58_read_def b58_text_def Let_def foldl_zeros foldl_digits b58_digits_bounds
      b58_digits_value)

lemma bytes_value_snoc: "bytes_value (bs @ [b]) = 256 * bytes_value bs + unat b"
  by (simp add: bytes_value_def)

lemma bytes_value_inject:
  "length bs = length cs \<Longrightarrow> bytes_value bs = bytes_value cs \<Longrightarrow> bs = cs"
proof (induction bs arbitrary: cs rule: rev_induct)
  case (snoc b bs)
  then obtain c cs' where cs: "cs = cs' @ [c]" by (cases cs rule: rev_cases) auto
  have less: "unat x < 256" for x :: u8
    using unsigned_less [of x, where 'a = nat] by simp
  from snoc.prems(2) have eq: "256 * bytes_value bs + unat b = 256 * bytes_value cs' + unat c"
    by (simp add: cs bytes_value_snoc)
  then have "(256 * bytes_value bs + unat b) mod 256 = (256 * bytes_value cs' + unat c) mod 256"
    by simp
  then have "unat b = unat c" using less [of b] less [of c] by simp
  then have "b = c" by (rule unsigned_word_eqI)
  with eq have "bytes_value bs = bytes_value cs'" by simp
  with snoc cs \<open>b = c\<close> show ?case by simp
qed simp

lemma b58_text_inject: "b58_text a = b58_text b \<longleftrightarrow> a = b"
proof
  assume "b58_text a = b58_text b"
  then have "bytes_value (elems a) = bytes_value (elems b)"
    by (metis b58_read_encode)
  then have "elems a = elems b" by (intro bytes_value_inject) simp_all
  then show "a = b" by simp
qed simp

section \<open>The encoder computes it\<close>

lemma unat_ucast_u8 [simp]: "unat (ucast (b :: u8) :: u64) = unat b"
  by (simp add: unsigned_ucast_eq take_bit_nat_eq_self unsigned_less [THEN less_le_trans])

lemma unat_u8_less: "unat (b :: u8) < 256"
  using unsigned_less [of b, where 'a = nat] by simp

lemma digit_in:
  assumes "unat (carry :: u64) < 65536"
  shows "unat (carry + push_bit 8 (ucast (digit :: u8))) = unat carry + unat digit * 256"
proof -
  have "unat (push_bit 8 (ucast digit) :: u64) = unat digit * 256"
    using unat_u8_less [of digit] by (simp add: push_bit_eq_mult unat_word_ariths)
  with assms unat_u8_less [of digit] show ?thesis by (simp add: unat_word_ariths)
qed

lemma digit_out: "unat (ucast ((carry :: u64) mod 58) :: u8) = unat carry mod 58"
proof -
  have "unat (carry mod 58) = unat carry mod 58" by (simp add: unat_mod)
  moreover have "unat carry mod 58 < 58" by simp
  ultimately show ?thesis by (simp add: unsigned_ucast_eq take_bit_eq_mod)
qed

lemma unat_div_58: "unat ((carry :: u64) div 58) = unat carry div 58"
  by (simp add: unat_div)

lemma bs58_mul_refines:
  "unat carry < 65536 \<Longrightarrow>
   map unat (fst (bs58_mul ds carry)) = fst (b58_mul (map unat ds) (unat carry))
   \<and> unat (snd (bs58_mul ds carry)) = snd (b58_mul (map unat ds) (unat carry))
   \<and> snd (b58_mul (map unat ds) (unat carry)) < 65536"
proof (induction ds carry rule: bs58_mul.induct)
  case (2 digit ds carry)
  let ?c = "carry + push_bit 8 (ucast digit) :: u64"
  have c: "unat ?c = unat carry + unat digit * 256" by (rule digit_in) (rule 2)
  then have "unat (?c div 58) < 65536"
    using 2(2) unat_u8_less [of digit] by (simp add: unat_div_58)
  from 2(1) [OF refl this] show ?case
    by (simp add: Let_def case_prod_beta digit_out unat_div_58 c)
qed simp

lemma bs58_carry_refines:
  "\<exists>ds'. bs58_carry carry ds = Some ds' \<and> map unat ds' = map unat ds @ b58_carry (unat carry)"
proof (induction "unat carry" arbitrary: carry ds rule: less_induct)
  case less
  show ?case
  proof (cases "carry > 0")
    case True
    then have pos: "0 < unat carry" by (simp add: word_less_nat_alt)
    then have "unat (carry div 58) < unat carry" by (simp add: unat_div_58)
    from less [OF this, of "ds @ [ucast (carry mod 58)]"] True pos show ?thesis
      by (subst bs58_carry.simps, subst b58_carry.simps) (simp add: digit_out unat_div_58)
  qed (subst bs58_carry.simps, subst b58_carry.simps, simp add: word_less_nat_alt)
qed

lemma bs58_byte_refines:
  "\<exists>ds'. bs58_byte byte ds = Some ds' \<and> map unat ds' = b58_step byte (map unat ds)"
proof -
  have "unat (ucast byte :: u64) < 65536" using unat_u8_less [of byte] by simp
  from bs58_mul_refines [OF this, of ds]
    bs58_carry_refines [of "snd (bs58_mul ds (ucast byte))" "fst (bs58_mul ds (ucast byte))"]
  show ?thesis by (auto simp: bs58_byte_def b58_step_def case_prod_beta)
qed

lemma bs58_bytes_refines:
  "\<exists>ds'. bs58_bytes bs ds = Some ds' \<and> map unat ds' = fold b58_step bs (map unat ds)"
proof (induction bs arbitrary: ds)
  case (Cons b bs)
  obtain ds' where "bs58_byte b ds = Some ds'" "map unat ds' = b58_step b (map unat ds)"
    using bs58_byte_refines by blast
  with Cons [of ds'] show ?case by simp
qed simp

lemma those_alphabet:
  "\<forall>d \<in> set ds. unat d < 58 \<Longrightarrow>
   those (map alphabet_at ds) = Some (map (\<lambda>d. b58_alphabet ! d) (map unat ds))"
  by (induction ds) (simp_all add: alphabet_at_def)

text \<open>The refinement: the encoder always returns, and returns the specification's text.\<close>

lemma bs58_encode_refines: "bs58_encode a = Some (b58_text a)"
proof -
  obtain ds where ds: "bs58_bytes (elems a) [] = Some ds" "map unat ds = b58_digits (elems a)"
    using bs58_bytes_refines [of "elems a" "[]"] by (auto simp: b58_digits_def)
  then have "\<forall>d \<in> set ds. unat d < 58"
    using b58_digits_bounds [of "elems a"] by (metis list.set_map imageI)
  then have "those (map alphabet_at (rev ds)) = Some (map (\<lambda>d. b58_alphabet ! d) (map unat (rev ds)))"
    by (intro those_alphabet) simp
  with ds show ?thesis
    by (simp add: bs58_encode_def b58_text_def Let_def rev_map [symmetric] del: map_map)
qed

section \<open>Length\<close>

text \<open>No superfluous leading digit: the number has as many digits as its size needs.\<close>

definition canonical :: "nat list \<Rightarrow> bool" where
  "canonical ds \<longleftrightarrow> ds = [] \<or> 58 ^ (length ds - 1) \<le> b58_value ds"

lemma b58_carry_canonical: "canonical (b58_carry c)"
proof (induction c rule: b58_carry.induct)
  case (1 c)
  show ?case
  proof (cases "c > 0")
    case True
    then have eq: "b58_carry c = c mod 58 # b58_carry (c div 58)" by (subst b58_carry.simps) simp
    show ?thesis
    proof (cases "b58_carry (c div 58) = []")
      case False
      with 1 [OF True] have "58 * 58 ^ (length (b58_carry (c div 58)) - 1) \<le> 58 * (c div 58)"
        by (simp add: canonical_def b58_carry_value)
      moreover have "58 * 58 ^ (length (b58_carry (c div 58)) - 1)
          = (58 :: nat) ^ length (b58_carry (c div 58))"
        using False by (simp flip: power_Suc)
      ultimately have "58 ^ length (b58_carry (c div 58)) \<le> c" by linarith
      then show ?thesis by (simp add: canonical_def b58_carry_value) (simp add: eq)
    qed (use True in \<open>simp add: canonical_def b58_carry_value\<close>, simp add: eq)
  qed (subst b58_carry.simps, simp add: canonical_def)
qed

lemma b58_step_canonical:
  assumes "canonical ds"
  shows "canonical (b58_step b ds)"
proof (cases "b58_carry (snd (b58_mul ds (unat b))) = []")
  case True
  then have len: "length (b58_step b ds) = length ds"
    by (simp add: b58_step_def case_prod_beta b58_mul_length)
  then show ?thesis
    using assms by (auto simp: canonical_def b58_step_value simp flip: length_0_conv)
next
  case False
  let ?c = "b58_carry (snd (b58_mul ds (unat b)))"
  have "58 ^ (length ?c - 1) \<le> b58_value ?c"
    using b58_carry_canonical [of "snd (b58_mul ds (unat b))"] False by (simp add: canonical_def)
  then have "58 ^ length ds * 58 ^ (length ?c - 1) \<le> b58_value (b58_step b ds)"
    by (simp add: b58_step_def case_prod_beta b58_value_append b58_mul_length trans_le_add2)
  moreover have "length (b58_step b ds) - 1 = length ds + (length ?c - 1)"
    using False by (cases ?c) (simp_all add: b58_step_def case_prod_beta b58_mul_length)
  ultimately show ?thesis by (simp add: canonical_def power_add)
qed

lemma b58_digits_canonical: "canonical (b58_digits bs)"
proof -
  have "canonical ds \<Longrightarrow> canonical (fold b58_step bs ds)" for ds
    by (induction bs arbitrary: ds) (simp_all add: b58_step_canonical)
  then show ?thesis by (simp add: b58_digits_def canonical_def)
qed

text \<open>The digits are the only ones: bounded, without a superfluous digit and of the right value.\<close>

lemma b58_value_less: "\<forall>d \<in> set ds. d < 58 \<Longrightarrow> b58_value ds < 58 ^ length ds"
proof (induction ds)
  case (Cons d ds)
  then have "d < 58" "b58_value ds + 1 \<le> 58 ^ length ds" by simp_all
  then have "d + 58 * b58_value ds < 58 * 58 ^ length ds" by linarith
  then show ?case by simp
qed simp

lemma b58_value_inject:
  "length ds = length es \<Longrightarrow> \<forall>d \<in> set ds. d < 58 \<Longrightarrow> \<forall>e \<in> set es. e < 58 \<Longrightarrow>
   b58_value ds = b58_value es \<Longrightarrow> ds = es"
proof (induction ds es rule: list_induct2)
  case (Cons d ds e es)
  from Cons.prems have "d + 58 * b58_value ds = e + 58 * b58_value es" "d < 58" "e < 58" by simp_all
  moreover from this have "d = e" by (metis mod_less mod_mult_self2)
  ultimately have "d = e \<and> b58_value ds = b58_value es" by simp
  with Cons show ?case by simp
qed simp

lemma canonical_length:
  assumes "canonical ds" and "\<forall>e \<in> set es. e < 58" and "b58_value ds = b58_value es"
  shows "length ds \<le> length es"
proof (cases "ds = []")
  case False
  with assms(1,3) have "58 ^ (length ds - 1) \<le> b58_value es" by (simp add: canonical_def)
  from le_less_trans [OF this b58_value_less [OF assms(2)]]
  have "length ds - 1 < length es" by (rule power_less_imp_less_exp [rotated]) simp
  then show ?thesis by linarith
qed simp

lemma b58_digits_unique:
  assumes "canonical ds" and "\<forall>d \<in> set ds. d < 58" and "b58_value ds = bytes_value bs"
  shows "b58_digits bs = ds"
proof (rule b58_value_inject)
  have eq: "b58_value (b58_digits bs) = b58_value ds" by (simp add: b58_digits_value assms(3))
  show "length (b58_digits bs) = length ds"
    using canonical_length [OF b58_digits_canonical assms(2) eq]
      canonical_length [OF assms(1) b58_digits_bounds eq [symmetric]] by (rule antisym)
qed (simp_all add: assms b58_digits_bounds b58_digits_value)

lemma bytes_value_less: "bytes_value bs < 256 ^ length bs"
proof (induction bs rule: rev_induct)
  case (snoc b bs)
  then show ?case using unat_u8_less [of b] by (simp add: bytes_value_snoc)
qed (simp add: bytes_value_def)

lemma bytes_value_zeros: "bytes_value (replicate k 0 @ bs) = bytes_value bs"
proof -
  have "foldl (\<lambda>n b. 256 * n + unat (b :: u8)) 0 (replicate k 0) = 0" by (induction k) simp_all
  then show ?thesis by (simp add: bytes_value_def)
qed

lemma bytes_value_leading:
  "bytes_value bs < 256 ^ (length bs - length (takeWhile (\<lambda>b. b = 0) bs))"
proof -
  have "takeWhile (\<lambda>b. b = 0) bs = replicate (length (takeWhile (\<lambda>b. b = 0) bs)) 0"
    by (induction bs) simp_all
  then have "bytes_value bs = bytes_value (dropWhile (\<lambda>b. b = 0) bs)"
    by (metis bytes_value_zeros takeWhile_dropWhile_id)
  moreover have "length (dropWhile (\<lambda>b. b = 0) bs) = length bs - length (takeWhile (\<lambda>b. b = 0) bs)"
    by (metis length_append takeWhile_dropWhile_id diff_add_inverse)
  ultimately show ?thesis by (metis bytes_value_less)
qed

text \<open>44 characters are always enough.\<close>

lemma b58_text_length: "length (b58_text a) \<le> 44"
proof -
  let ?z = "length (takeWhile (\<lambda>b. b = 0) (elems a))" and ?ds = "b58_digits (elems a)"
  have z: "?z \<le> 32" using length_takeWhile_le [of "\<lambda>b. b = 0" "elems a"] by simp
  have "?z + length ?ds \<le> 44"
  proof (cases "?ds = []")
    case False
    then have "58 ^ (length ?ds - 1) \<le> bytes_value (elems a)"
      using b58_digits_canonical [of "elems a"] by (simp add: canonical_def b58_digits_value)
    also have "\<dots> < 256 ^ (32 - ?z)" using bytes_value_leading [of "elems a"] by simp
    finally have "58 ^ (length ?ds - 1) * 58 ^ ?z < (256 :: nat) ^ (32 - ?z) * 58 ^ ?z" by simp
    also have "\<dots> \<le> 256 ^ (32 - ?z) * 256 ^ ?z" by (intro mult_le_mono2 power_mono) simp_all
    also have "\<dots> = 256 ^ 32" using z by (simp flip: power_add)
    also have "\<dots> < 58 ^ 44" by simp
    finally have "58 ^ (length ?ds - 1 + ?z) < (58 :: nat) ^ 44" by (simp add: power_add)
    then have "length ?ds - 1 + ?z < 44" by (rule power_less_imp_less_exp [rotated]) simp
    with False show ?thesis by (cases ?ds) simp_all
  qed (use z in simp)
  then show ?thesis by (simp add: b58_text_def Let_def)
qed

lemma b58_text_zeros:
  "take (length (takeWhile (\<lambda>b. b = 0) (elems a))) (b58_text a)
     = replicate (length (takeWhile (\<lambda>b. b = 0) (elems a))) (CHR ''1'')"
  by (simp add: b58_text_def Let_def)

lemma b58_text_alphabet: "set (b58_text a) \<subseteq> set b58_alphabet"
proof -
  have "set (map (\<lambda>d. b58_alphabet ! d) (rev (b58_digits (elems a)))) \<subseteq> set b58_alphabet"
    using b58_digits_bounds [of "elems a"] by (auto intro!: nth_mem)
  moreover have "CHR ''1'' \<in> set b58_alphabet" by (simp add: b58_alphabet_def)
  ultimately show ?thesis by (auto simp: b58_text_def Let_def)
qed

end
