(* ===== verification/CommitmentSet.thy ===== *)
theory CommitmentSet
  imports AttestationCore
begin

text \<open>
  The abstract specification of what a Merkle witness proves. LEZ keeps the commitments of its
  shielded accounts in a binary hash tree whose leaf hashes are \<open>H(commitment)\<close> and whose inner
  nodes are \<open>hash_two l r\<close>; an empty subtree is only a digest, taken from a precomputed table.
  \<open>mtree\<close> is that tree with an account at every leaf, \<open>mroot\<close> its root,
  \<open>authentication_path\<close> the sibling list a sequencer hands out. The lemmas relate the path fold of
  the code to membership: an honest path always folds to the root, and a path that folds to the
  root opens a leaf of the tree or breaks SHA-256: one of the messages it hashes collides with one
  the tree hashes, or is a preimage of the digest of an empty subtree.
\<close>

section \<open>Trees, positions, authentication paths\<close>

datatype 'a mtree = Leaf 'a | Node "'a mtree" "'a mtree" | Empty b32

fun mroot :: "sha \<Rightarrow> b32 mtree \<Rightarrow> b32" where
  "mroot H (Leaf c) = leaf_hash_of H c"
| "mroot H (Node l r) = hash_two H (mroot H l) (mroot H r)"
| "mroot H (Empty d) = d"

fun leaf_at :: "'a mtree \<Rightarrow> bool list \<Rightarrow> 'a option" where
  "leaf_at (Leaf c) [] = Some c"
| "leaf_at (Node l r) (b # bs) = leaf_at (if b then r else l) bs"
| "leaf_at _ _ = None"

fun authentication_path :: "sha \<Rightarrow> b32 mtree \<Rightarrow> bool list \<Rightarrow> b32 list" where
  "authentication_path H (Node l r) (b # bs) =
     authentication_path H (if b then r else l) bs @ [mroot H (if b then l else r)]"
| "authentication_path H _ _ = []"

text \<open>The turns from the root down to leaf number \<open>idx\<close> at depth \<open>d\<close>: the lowest bit is the
  last turn.\<close>

definition turns :: "u64 \<Rightarrow> nat \<Rightarrow> bool list" where
  "turns idx d = map (bit idx) (rev [0..<d])"

lemma turns_0 [simp]: "turns idx 0 = []"
  by (simp add: turns_def)

lemma turns_Suc [simp]: "turns idx (Suc d) = bit idx d # turns idx d"
  by (simp add: turns_def)

lemma length_authentication_path:
  "leaf_at t bs = Some c \<Longrightarrow> length (authentication_path H t bs) = length bs"
  by (induction t bs rule: leaf_at.induct) (auto split: if_splits)

lemma leaf_at_in_set: "leaf_at t bs = Some c \<Longrightarrow> c \<in> set_mtree t"
  by (induction t bs rule: leaf_at.induct) (auto split: if_splits)

lemma leaf_at_map: "leaf_at (map_mtree f t) bs = map_option f (leaf_at t bs)"
  by (induction t bs rule: leaf_at.induct) auto

section \<open>Completeness of the fold\<close>

lemma fold_authentication_path:
  "leaf_at t (turns idx d) = Some c \<Longrightarrow>
   fold_merkle_path H (leaf_hash_of H c) idx (authentication_path H t (turns idx d)) = mroot H t"
proof (induction d arbitrary: t)
  case 0
  then show ?case by (cases t) simp_all
next
  case (Suc d)
  from Suc.prems obtain l r where t: "t = Node l r"
    by (cases t) auto
  let ?s = "if bit idx d then r else l"
  from Suc.prems have sub: "leaf_at ?s (turns idx d) = Some c"
    by (simp add: t)
  then have "length (authentication_path H ?s (turns idx d)) = d"
    by (simp add: length_authentication_path) (simp add: turns_def)
  moreover from sub have "fold_merkle_path H (leaf_hash_of H c) idx
      (authentication_path H ?s (turns idx d)) = mroot H ?s"
    by (rule Suc.IH)
  ultimately show ?case by (simp add: t split: if_splits)
qed

section \<open>Soundness of the fold, up to an explicit break of the hash\<close>

text \<open>The messages the two computations hash.\<close>

fun tree_messages :: "sha \<Rightarrow> b32 mtree \<Rightarrow> bytes list" where
  "tree_messages H (Leaf c) = [elems c]"
| "tree_messages H (Node l r) =
     (elems (mroot H l) @ elems (mroot H r)) # tree_messages H l @ tree_messages H r"
| "tree_messages H (Empty d) = []"

fun empties :: "'a mtree \<Rightarrow> b32 list" where
  "empties (Leaf c) = []"
| "empties (Node l r) = empties l @ empties r"
| "empties (Empty d) = [d]"

lemma empties_map [simp]: "empties (map_mtree f t) = empties t"
  by (induction t) simp_all

fun loop_messages :: "sha \<Rightarrow> b32 \<Rightarrow> u64 \<Rightarrow> b32 list \<Rightarrow> bytes list" where
  "loop_messages H node idx [] = []"
| "loop_messages H node idx (sib # sibs) =
     (if idx AND 1 = 0 then elems node @ elems sib else elems sib @ elems node)
     # loop_messages H (if idx AND 1 = 0 then hash_two H node sib else hash_two H sib node)
         (drop_bit 1 idx) sibs"

definition path_messages :: "sha \<Rightarrow> b32 \<Rightarrow> u64 \<Rightarrow> b32 list \<Rightarrow> bytes list" where
  "path_messages H c idx sibs = elems c # loop_messages H (leaf_hash_of H c) idx sibs"

definition collision_between :: "sha \<Rightarrow> bytes list \<Rightarrow> bytes list \<Rightarrow> bool" where
  "collision_between H xs ys \<longleftrightarrow> (\<exists>x \<in> set xs. \<exists>y \<in> set ys. collision H x y)"

text \<open>A break of the hash: a message of \<open>xs\<close> collides with one of \<open>ys\<close> or is a preimage of one of \<open>ds\<close>.\<close>

definition hash_break :: "sha \<Rightarrow> bytes list \<Rightarrow> bytes list \<Rightarrow> b32 list \<Rightarrow> bool" where
  "hash_break H xs ys ds \<longleftrightarrow> collision_between H xs ys \<or> (\<exists>x \<in> set xs. H x \<in> set ds)"

lemma collision_betweenI:
  "x \<in> set xs \<Longrightarrow> y \<in> set ys \<Longrightarrow> collision H x y \<Longrightarrow> collision_between H xs ys"
  by (auto simp: collision_between_def)

lemma hash_breakI:
  "x \<in> set xs \<Longrightarrow> y \<in> set ys \<Longrightarrow> collision H x y \<Longrightarrow> hash_break H xs ys ds"
  "x \<in> set xs \<Longrightarrow> H x \<in> set ds \<Longrightarrow> hash_break H xs ys ds"
  by (auto simp: collision_between_def hash_break_def)

lemma hash_break_mono:
  "hash_break H xs ys ds \<Longrightarrow> set xs \<subseteq> set xs' \<Longrightarrow> set ys \<subseteq> set ys' \<Longrightarrow> set ds \<subseteq> set ds' \<Longrightarrow>
   hash_break H xs' ys' ds'"
  by (auto simp: collision_between_def hash_break_def)

lemma loop_messages_append:
  "loop_messages H node idx (xs @ ys) =
     loop_messages H node idx xs
     @ loop_messages H (merkle_loop H node idx xs) (drop_bit (length xs) idx) ys"
  by (induction xs arbitrary: node idx) (simp_all add: ac_simps)

lemma path_messages_Nil [simp]: "path_messages H c idx [] = [elems c]"
  by (simp add: path_messages_def)

lemma path_messages_snoc [simp]:
  "path_messages H c idx (sibs @ [sib]) = path_messages H c idx sibs @
     [let node = fold_merkle_path H (leaf_hash_of H c) idx sibs
      in if bit idx (length sibs) then elems sib @ elems node else elems node @ elems sib]"
  by (simp add: path_messages_def loop_messages_append fold_merkle_path_def bit_simps Let_def)

lemma leaf_in_path_messages: "elems c \<in> set (path_messages H c idx sibs)"
  by (simp add: path_messages_def)

lemma root_message_Node:
  "x = elems l @ elems r \<Longrightarrow> H x = hash_two H l r"
  by (simp add: hash_two_def)

text \<open>A 32-byte leaf message and a 64-byte node message are never equal, so a leaf and an inner
  node can only share a digest through a collision.\<close>

lemma leaf_node_collision:
  "leaf_hash_of H c = hash_two H l r \<Longrightarrow> collision H (elems c) (elems l @ elems r)"
  by (auto simp: collision_def leaf_hash_of_def hash_two_def dest: arg_cong [where f = length])

text \<open>What a digest equal to a root says: the tree has the shape and the children that were hashed, or
  the hashed message breaks the hash.\<close>

lemma leaf_hash_is_root:
  assumes "leaf_hash_of H c = mroot H t"
  obtains "t = Leaf c" | "hash_break H [elems c] (tree_messages H t) (empties t)"
proof (cases t)
  case (Leaf c')
  with assms have "H (elems c) = H (elems c')" by (simp add: leaf_hash_of_def)
  from hash_eqD [of H, OF this] that Leaf show ?thesis
    by (auto simp: hash_break_def collision_between_def)
next
  case (Node l r)
  with assms leaf_node_collision [of H c "mroot H l" "mroot H r"] show ?thesis
    by (intro that(2)) (simp add: hash_break_def collision_between_def)
next
  case (Empty d)
  with assms show ?thesis by (intro that(2)) (simp add: hash_break_def leaf_hash_of_def)
qed

lemma node_hash_is_root:
  assumes "hash_two H a b = mroot H t"
  obtains l r where "t = Node l r" "a = mroot H l" "b = mroot H r"
  | "hash_break H [elems a @ elems b] (tree_messages H t) (empties t)"
proof (cases t)
  case (Leaf c)
  with assms leaf_node_collision [of H c a b] show ?thesis
    by (intro that(2)) (simp add: hash_break_def collision_between_def collision_sym)
next
  case (Node l r)
  with assms have "H (elems a @ elems b) = H (elems (mroot H l) @ elems (mroot H r))"
    by (simp add: hash_two_def)
  from hash_eqD [of H, OF this] that Node show ?thesis
    by (auto simp: hash_break_def collision_between_def)
next
  case (Empty d)
  with assms show ?thesis by (intro that(2)) (simp add: hash_break_def hash_two_def)
qed

lemma fold_sound:
  assumes "fold_merkle_path H (leaf_hash_of H c) idx sibs = mroot H t"
  shows "leaf_at t (turns idx (length sibs)) = Some c
      \<or> hash_break H (path_messages H c idx sibs) (tree_messages H t) (empties t)"
  using assms
proof (induction sibs arbitrary: t rule: rev_induct)
  case Nil
  then have "leaf_hash_of H c = mroot H t" by simp
  then show ?case by (cases rule: leaf_hash_is_root) auto
next
  case (snoc sib sibs)
  let ?n = "fold_merkle_path H (leaf_hash_of H c) idx sibs"
  let ?b = "bit idx (length sibs)"
  define a b where "a = (if ?b then sib else ?n)" and "b = (if ?b then ?n else sib)"
  have last: "elems a @ elems b \<in> set (path_messages H c idx (sibs @ [sib]))"
    by (simp add: a_def b_def Let_def)
  have "hash_two H a b = mroot H t"
    using snoc.prems by (simp add: a_def b_def split: if_splits)
  then show ?case
  proof (cases rule: node_hash_is_root)
    case (1 l r)
    then have "?n = mroot H (if ?b then r else l)" by (auto simp: a_def b_def split: if_splits)
    from snoc.IH [OF this] show ?thesis
      using 1(1) by (auto simp: hash_break_def collision_between_def split: if_splits)
  next
    case 2
    from hash_break_mono [OF this] last show ?thesis by auto
  qed
qed

section \<open>A ledger of shielded accounts\<close>

text \<open>The accounts whose commitments the tree holds, and the commitment LEZ computes for each.\<close>

record shielded_account =
  sa_account_id :: b32
  sa_program_owner :: program_id
  sa_balance :: u128
  sa_nonce :: u128
  sa_data_hash :: b32

definition commit :: "sha \<Rightarrow> shielded_account \<Rightarrow> b32" where
  "commit H a = compute_commitment H (sa_account_id a) (sa_program_owner a) (sa_balance a)
     (sa_nonce a) (sa_data_hash a)"

definition ledger_root :: "sha \<Rightarrow> shielded_account mtree \<Rightarrow> b32" where
  "ledger_root H t = mroot H (map_mtree (commit H) t)"

definition account_preimage :: "shielded_account \<Rightarrow> bytes" where
  "account_preimage a = commitment_bytes (sa_account_id a) (sa_program_owner a) (sa_balance a)
     (sa_nonce a) (sa_data_hash a)"

fun leaves :: "'a mtree \<Rightarrow> 'a list" where
  "leaves (Leaf a) = [a]"
| "leaves (Node l r) = leaves l @ leaves r"
| "leaves (Empty d) = []"

definition ledger_messages :: "sha \<Rightarrow> shielded_account mtree \<Rightarrow> bytes list" where
  "ledger_messages H t = map account_preimage (leaves t) @ tree_messages H (map_mtree (commit H) t)"

definition witness_preimage :: "sha \<Rightarrow> PrivateInputs \<Rightarrow> bytes" where
  "witness_preimage H w = commitment_bytes (witness_account_id H w) (w_program_owner w)
     (w_balance w) (w_nonce w) (w_data_hash w)"

definition witness_messages :: "sha \<Rightarrow> PrivateInputs \<Rightarrow> bytes list" where
  "witness_messages H w = witness_preimage H w
     # path_messages H (witness_commitment H w) (w_leaf_index w) (w_merkle_path w)"

text \<open>The account a witness opens: the one at the position its index and path length name.\<close>

definition opened_account :: "shielded_account mtree \<Rightarrow> PrivateInputs \<Rightarrow> shielded_account option" where
  "opened_account t w = leaf_at t (turns (w_leaf_index w) (length (w_merkle_path w)))"

definition witness_matches :: "sha \<Rightarrow> PrivateInputs \<Rightarrow> shielded_account \<Rightarrow> bool" where
  "witness_matches H w a \<longleftrightarrow> sa_account_id a = witness_account_id H w
     \<and> sa_program_owner a = w_program_owner w \<and> sa_balance a = w_balance w
     \<and> sa_nonce a = w_nonce w \<and> sa_data_hash a = w_data_hash w"

lemma set_leaves [simp]: "set (leaves t) = set_mtree t"
  by (induction t) auto

lemma preimage_eq_iff: "account_preimage a = witness_preimage H w \<longleftrightarrow> witness_matches H w a"
  by (auto simp: account_preimage_def witness_preimage_def witness_matches_def)

lemma account_preimage_inject: "account_preimage a = account_preimage b \<longleftrightarrow> a = (b :: shielded_account)"
  by (auto simp: account_preimage_def intro: shielded_account.equality)

lemma commit_eq_hash: "commit H a = H (account_preimage a)"
  "witness_commitment H w = H (witness_preimage H w)"
  by (simp_all add: commit_def account_preimage_def compute_commitment_def
      witness_commitment_def witness_preimage_def)

text \<open>A path from the commitment of a preimage to the ledger's root opens an account with that preimage.\<close>

lemma preimage_root_sound:
  assumes "fold_merkle_path H (leaf_hash_of H (H pre)) idx sibs = ledger_root H t"
  shows "(\<exists>a. leaf_at t (turns idx (length sibs)) = Some a \<and> account_preimage a = pre)
    \<or> hash_break H (pre # path_messages H (H pre) idx sibs) (ledger_messages H t) (empties t)"
  using fold_sound [OF assms [unfolded ledger_root_def]]
proof
  assume "leaf_at (map_mtree (commit H) t) (turns idx (length sibs)) = Some (H pre)"
  then obtain a where a: "leaf_at t (turns idx (length sibs)) = Some a" and "H pre = H (account_preimage a)"
    by (auto simp: leaf_at_map commit_eq_hash)
  from leaf_at_in_set [OF a] have mem: "account_preimage a \<in> set (ledger_messages H t)"
    by (simp add: ledger_messages_def)
  from hash_eqD [of H, OF \<open>H pre = H (account_preimage a)\<close>] show ?thesis
    using a hash_breakI(1) [OF _ mem, of pre "pre # path_messages H (H pre) idx sibs"] by auto
next
  assume "hash_break H (path_messages H (H pre) idx sibs)
    (tree_messages H (map_mtree (commit H) t)) (empties (map_mtree (commit H) t))"
  then have "hash_break H (pre # path_messages H (H pre) idx sibs) (ledger_messages H t) (empties t)"
    by (rule hash_break_mono) (auto simp: ledger_messages_def)
  then show ?thesis ..
qed

lemma witness_root_sound:
  assumes "witness_root H w = ledger_root H t"
  shows "(\<exists>a. opened_account t w = Some a \<and> witness_matches H w a)
    \<or> hash_break H (witness_messages H w) (ledger_messages H t) (empties t)"
  using preimage_root_sound [of H "witness_preimage H w"] assms
  by (auto simp: witness_root_def opened_account_def witness_messages_def commit_eq_hash preimage_eq_iff)

text \<open>Two witnesses for one position: if both fold to one root, they have the same account and path,
  unless a message of one collides with one of the other.\<close>

lemma loop_messages_snoc:
  "loop_messages H leaf i (sibs @ [s]) = loop_messages H leaf i sibs @
     [if bit i (length sibs) then elems s @ elems (fold_merkle_path H leaf i sibs)
      else elems (fold_merkle_path H leaf i sibs) @ elems s]"
  by (simp add: loop_messages_append fold_merkle_path_def bit_simps)

lemma fold_same_position:
  "turns i (length sibs) = turns j (length sibs') \<Longrightarrow>
   fold_merkle_path H leaf i sibs = fold_merkle_path H leaf' j sibs' \<Longrightarrow>
   leaf = leaf' \<and> sibs = sibs' \<or> collision_between H (loop_messages H leaf i sibs) (loop_messages H leaf' j sibs')"
proof (induction sibs arbitrary: sibs' rule: rev_induct)
  case Nil
  then show ?case by (cases sibs') simp_all
next
  case (snoc s sibs)
  from arg_cong [OF snoc.prems(1), of length] obtain ts t where sibs': "sibs' = ts @ [t]"
    by (cases sibs' rule: rev_cases) (simp_all add: turns_def)
  with snoc.prems(1) have turns: "turns i (length sibs) = turns j (length ts)"
    and bits: "bit i (length sibs) = bit j (length ts)" by simp_all
  let ?x = "fold_merkle_path H leaf i sibs" and ?y = "fold_merkle_path H leaf' j ts"
  let ?m = "if bit i (length sibs) then elems s @ elems ?x else elems ?x @ elems s"
  let ?m' = "if bit j (length ts) then elems t @ elems ?y else elems ?y @ elems t"
  from snoc.prems(2) have "H ?m = H ?m'" by (simp add: sibs' hash_two_def split: if_splits)
  from hash_eqD [of H, OF this] show ?case
  proof
    assume "?m = ?m'"
    with bits have "?x = ?y" "s = t" by (simp_all split: if_splits)
    from snoc.IH [OF turns this(1)] \<open>s = t\<close> show ?thesis
      by (auto simp: sibs' loop_messages_snoc collision_between_def)
  next
    assume "collision H ?m ?m'"
    then show ?thesis
      by (intro disjI2 collision_betweenI [of ?m _ ?m']) (simp_all add: sibs' loop_messages_snoc)
  qed
qed

lemma same_position_same_account:
  assumes "turns (w_leaf_index w) (length (w_merkle_path w)) = turns (w_leaf_index v) (length (w_merkle_path v))"
    and "witness_root H w = witness_root H v"
  shows "witness_preimage H w = witness_preimage H v
    \<or> collision_between H (witness_messages H w) (witness_messages H v)"
proof -
  let ?leaf = "\<lambda>w. leaf_hash_of H (witness_commitment H w)"
  let ?loop = "\<lambda>w. loop_messages H (?leaf w) (w_leaf_index w) (w_merkle_path w)"
  from fold_same_position [OF assms(1) assms(2) [unfolded witness_root_def]]
  consider (leaf) "?leaf w = ?leaf v" | (loop) "collision_between H (?loop w) (?loop v)" by blast
  then show ?thesis
  proof cases
    case leaf
    from hash_eqD [of H, OF this [unfolded leaf_hash_of_def]] hash_eqD [of H "witness_preimage H w" "witness_preimage H v"]
    show ?thesis
      by (auto simp: commit_eq_hash collision_between_def witness_messages_def path_messages_def)
  next
    case loop
    then show ?thesis by (auto simp: collision_between_def witness_messages_def path_messages_def)
  qed
qed

lemma same_verdict:
  assumes "turns (w_leaf_index w) (length (w_merkle_path w)) = turns (w_leaf_index v) (length (w_merkle_path v))"
    and "witness_root H v = s_merkle_root s"
  shows "attest H w s = attest H v s \<or> attest H w s = Inl MerklePathDoesNotAnchor
    \<or> collision_between H (witness_messages H w) (witness_messages H v)"
proof (cases "witness_root H w = s_merkle_root s")
  case True
  with assms(2) have "witness_root H w = witness_root H v" by simp
  from same_position_same_account [OF assms(1) this] show ?thesis
    by (auto simp: attest_unfold witness_preimage_def assms(2))
qed (simp add: attest_unfold)

text \<open>The witness an honest holder of leaf \<open>idx\<close> at depth \<open>d\<close> builds from its account and the
  sequencer's membership proof.\<close>

definition honest_witness :: "sha \<Rightarrow> shielded_account mtree \<Rightarrow> b32 \<Rightarrow> u128 \<Rightarrow> shielded_account
    \<Rightarrow> u64 \<Rightarrow> nat \<Rightarrow> PrivateInputs" where
  "honest_witness H t npk identifier a idx d =
    \<lparr>w_npk = npk, w_identifier = identifier, w_program_owner = sa_program_owner a,
     w_balance = sa_balance a, w_nonce = sa_nonce a, w_data_hash = sa_data_hash a,
     w_merkle_path = authentication_path H (map_mtree (commit H) t) (turns idx d),
     w_leaf_index = idx\<rparr>"

lemma honest_witness_root:
  assumes "leaf_at t (turns idx d) = Some a"
    and "sa_account_id a = derive_account_id H npk identifier"
  shows "witness_root H (honest_witness H t npk identifier a idx d) = ledger_root H t"
proof -
  have "leaf_at (map_mtree (commit H) t) (turns idx d) = Some (commit H a)"
    using assms(1) by (simp add: leaf_at_map)
  from fold_authentication_path [OF this, of H] show ?thesis
    using assms(2)
    by (simp add: witness_root_def honest_witness_def ledger_root_def witness_commitment_def
        witness_account_id_def commit_def)
qed

end
