(* ===== verification/ChainVectors.thy ===== *)
theory ChainVectors
  imports Sha256 Base58 CommitmentSet
begin

text \<open>
  \<^verbatim>\<open>cu-bench/tests/real_chain_attestation.rs\<close> and its fixture
  \<^verbatim>\<open>tests/fixtures/real_chain_witness.json\<close>: the witness captured from a live LEZ sequencer, a private
  account that held 3000 tokens, with the path the sequencer returned for its commitment and the account
  id its wallet reported. The derivations are evaluated on it with \<open>sha256\<close>. Owner, balance and
  nonce are different and not zero, and the leaf index goes right on both levels, so a change of
  field order, width, endianness or folding direction breaks the chain of values.
\<close>

section \<open>The captured witness\<close>

definition CAPTURED_WITNESS :: PrivateInputs where
  "CAPTURED_WITNESS = \<lparr>
     w_npk = arr_of [99, 22, 150, 12, 188, 15, 152, 34, 44, 221, 47, 71, 177, 129, 180, 150, 173, 78, 248, 196,
      169, 231, 97, 195, 103, 75, 178, 53, 5, 31, 208, 176],
     w_identifier = 0,
     w_program_owner = arr_of [3170810844, 2526647253, 999807262, 1205602179, 3401962591, 3484055895, 2106546407,
      1900691388],
     w_balance = 3000,
     w_nonce = 295170297827881938935955856748885603587,
     w_data_hash = arr_of [227, 176, 196, 66, 152, 252, 28, 20, 154, 251, 244, 200, 153, 111, 185, 36, 39, 174, 65,
      228, 100, 155, 147, 76, 164, 149, 153, 27, 120, 82, 184, 85],
     w_merkle_path =
      [arr_of [31, 98, 117, 39, 94, 9, 225, 61, 173, 255, 226, 241, 97, 165, 41, 47, 91, 58, 166, 3, 187,
       74, 71, 229, 9, 141, 65, 46, 16, 10, 245, 233],
       arr_of [165, 4, 198, 185, 152, 206, 114, 91, 113, 44, 108, 185, 241, 220, 113, 88, 64, 20, 242,
       107, 102, 130, 213, 43, 78, 202, 199, 57, 7, 159, 169, 76]],
     w_leaf_index = 3\<rparr>"

definition CAPTURED_ROOT :: b32 where
  "CAPTURED_ROOT = arr_of [205, 10, 139, 247, 3, 67, 48, 35, 144, 52, 207, 241, 128, 176, 1, 17, 218, 217, 124, 55,
    23, 9, 21, 175, 4, 251, 40, 8, 172, 113, 215, 167]"

definition CAPTURED_ACCOUNT_ID_BASE58 :: string where
  "CAPTURED_ACCOUNT_ID_BASE58 = ''4YzuSpLzKkAN3Knu9unGTu9kpRJCkoUQesBWvraWtQFd''"

text \<open>The digests on the way: the account id, the commitment, its leaf hash and the inner node.\<close>

definition captured_id :: b32 where
  "captured_id = arr_of [52, 197, 137, 211, 26, 235, 95, 178, 178, 240, 61, 7, 239, 11, 254, 132, 90, 124, 42, 209,
    107, 91, 1, 253, 16, 142, 54, 189, 205, 165, 75, 180]"

definition captured_commitment :: b32 where
  "captured_commitment = arr_of [116, 245, 58, 36, 62, 27, 22, 112, 220, 105, 230, 29, 54, 203, 239, 172, 107, 65, 73, 218,
    198, 238, 133, 176, 204, 118, 76, 190, 6, 85, 135, 120]"

definition captured_leaf :: b32 where
  "captured_leaf = arr_of [117, 62, 123, 96, 209, 57, 103, 52, 49, 216, 237, 181, 51, 154, 125, 142, 53, 43, 40, 187,
    60, 255, 24, 114, 57, 73, 253, 224, 124, 125, 216, 124]"

definition captured_node :: b32 where
  "captured_node = arr_of [135, 104, 107, 53, 241, 88, 3, 178, 19, 106, 30, 225, 177, 251, 195, 82, 77, 26, 177, 74,
    67, 58, 163, 73, 129, 250, 231, 169, 6, 156, 50, 77]"

section \<open>The compressions\<close>

lemma captured_id_block_1:
  "sha_block [1779033703, 3144134277, 1013904242, 2773480762, 1359893119, 2600822924, 528734635,
    1541459225]
    [793527621, 796274734, 858734947, 1668248942, 1950966831, 1349675382, 1635018031, 0,
    1662424588, 3155138594, 752693063, 2978067606, 2907633860, 2850513347, 1733014069,
    85971120]
   = [2927571240, 2772651242, 1507681056, 4190631987, 1040434425, 1938754260, 482081393,
    2988106272]"
  by (simp add: sha_defs)

lemma captured_id_block_2:
  "sha_block [2927571240, 2772651242, 1507681056, 4190631987, 1040434425, 1938754260, 482081393,
    2988106272]
    [0, 0, 0, 0, 2147483648, 0, 0, 0, 0, 0, 0, 0, 0, 0, 0, 640]
   = [885361107, 451633074, 3002088711, 4010540676, 1518086865, 1801126397, 277755581,
    3450162100]"
  by (simp add: sha_defs)

lemma captured_commitment_block_1:
  "sha_block [1779033703, 3144134277, 1013904242, 2773480762, 1359893119, 2600822924, 528734635,
    1541459225]
    [793527621, 796274734, 858735471, 1835886964, 1835363956, 788529152, 0, 0, 885361107,
    451633074, 3002088711, 4010540676, 1518086865, 1801126397, 277755581, 3450162100]
   = [2720948282, 1604975449, 710585516, 1118539864, 1903790415, 2033627813, 3629621744,
    2050177731]"
  by (simp add: sha_defs)

lemma captured_commitment_block_2:
  "sha_block [2720948282, 1604975449, 710585516, 1118539864, 1903790415, 2033627813, 3629621744,
    2050177731]
    [3703307964, 3583220118, 517576507, 2198330439, 1607779786, 1467591375, 3881340797,
    3158264433, 3087728640, 0, 0, 0, 58063090, 808150741, 352319083, 1169887198]
   = [2267834841, 1862869951, 106958347, 767009673, 3234424928, 1712271691, 1630927633,
    3919541986]"
  by (simp add: sha_defs)

lemma captured_commitment_block_3:
  "sha_block [2267834841, 1862869951, 106958347, 767009673, 3234424928, 1712271691, 1630927633,
    3919541986]
    [3820012610, 2566659092, 2600203464, 2574235940, 665731556, 1687917388, 2761267483,
    2018687061, 2147483648, 0, 0, 0, 0, 0, 0, 1280]
   = [1962228260, 1041962608, 3697927709, 919334828, 1799440858, 3337520560, 3430304958,
    106268536]"
  by (simp add: sha_defs)

lemma captured_leaf_block_1:
  "sha_block [1779033703, 3144134277, 1013904242, 2773480762, 1359893119, 2600822924, 528734635,
    1541459225]
    [1962228260, 1041962608, 3697927709, 919334828, 1799440858, 3337520560, 3430304958,
    106268536, 2147483648, 0, 0, 0, 0, 0, 0, 256]
   = [1967029088, 3510200116, 836300213, 865762702, 892020923, 1023350898, 961150432, 2088622204]"
  by (simp add: sha_defs)

lemma captured_node_block_1:
  "sha_block [1779033703, 3144134277, 1013904242, 2773480762, 1359893119, 2600822924, 528734635,
    1541459225]
    [526546215, 1577705789, 2919228145, 1638213935, 1530570243, 3142207461, 160252206,
    269153769, 1967029088, 3510200116, 836300213, 865762702, 892020923, 1023350898, 961150432,
    2088622204]
   = [2306174894, 2210457853, 1536338027, 4140312252, 937904843, 3489040791, 3531199787,
    386171723]"
  by (simp add: sha_defs)

lemma captured_node_block_2:
  "sha_block [2306174894, 2210457853, 1536338027, 4140312252, 937904843, 3489040791, 3531199787,
    386171723]
    [2147483648, 0, 0, 0, 0, 0, 0, 0, 0, 0, 0, 0, 0, 0, 0, 512]
   = [2271767349, 4049077170, 325721825, 2986066770, 1293594954, 1127916361, 2180704169,
    110899789]"
  by (simp add: sha_defs)

lemma captured_root_block_1:
  "sha_block [1779033703, 3144134277, 1013904242, 2773480762, 1359893119, 2600822924, 528734635,
    1541459225]
    [2768553657, 2563666523, 1898736825, 4057755992, 1075114603, 1719850283, 1321912121,
    127904076, 2271767349, 4049077170, 325721825, 2986066770, 1293594954, 1127916361,
    2180704169, 110899789]
   = [1970665372, 2187047422, 4262297142, 19356500, 3542330002, 1630913033, 3497942705,
    469676185]"
  by (simp add: sha_defs)

lemma captured_root_block_2:
  "sha_block [1970665372, 2187047422, 4262297142, 19356500, 3542330002, 1630913033, 3497942705,
    469676185]
    [2147483648, 0, 0, 0, 0, 0, 0, 0, 0, 0, 0, 0, 0, 0, 0, 512]
   = [3440020471, 54734883, 2419380209, 2159018257, 3671686199, 386471343, 83568648, 2893141927]"
  by (simp add: sha_defs)

section \<open>The messages and their digests\<close>

lemma captured_id_blocks:
  "chunks16 (be_words (sha_pad (account_id_bytes (w_npk CAPTURED_WITNESS) (w_identifier CAPTURED_WITNESS)))) =
    [[793527621, 796274734, 858734947, 1668248942, 1950966831, 1349675382, 1635018031, 0,
      1662424588, 3155138594, 752693063, 2978067606, 2907633860, 2850513347, 1733014069,
      85971120],
     [0, 0, 0, 0, 2147483648, 0, 0, 0, 0, 0, 0, 0, 0, 0, 0, 640]]"
  by code_simp

lemma captured_id_digest: "sha256 (account_id_bytes (w_npk CAPTURED_WITNESS) (w_identifier CAPTURED_WITNESS)) = captured_id"
  unfolding captured_id_def
  by (rule sha256_digest [OF captured_id_blocks], simp add: sha_init_def captured_id_block_1 captured_id_block_2, code_simp)

lemma captured_commitment_blocks:
  "chunks16 (be_words (sha_pad (commitment_bytes captured_id (w_program_owner CAPTURED_WITNESS) (w_balance CAPTURED_WITNESS)
      (w_nonce CAPTURED_WITNESS) (w_data_hash CAPTURED_WITNESS)))) =
    [[793527621, 796274734, 858735471, 1835886964, 1835363956, 788529152, 0, 0, 885361107,
      451633074, 3002088711, 4010540676, 1518086865, 1801126397, 277755581, 3450162100],
     [3703307964, 3583220118, 517576507, 2198330439, 1607779786, 1467591375, 3881340797,
      3158264433, 3087728640, 0, 0, 0, 58063090, 808150741, 352319083, 1169887198],
     [3820012610, 2566659092, 2600203464, 2574235940, 665731556, 1687917388, 2761267483,
      2018687061, 2147483648, 0, 0, 0, 0, 0, 0, 1280]]"
  by code_simp

lemma captured_commitment_digest: "sha256 (commitment_bytes captured_id (w_program_owner CAPTURED_WITNESS) (w_balance CAPTURED_WITNESS)
      (w_nonce CAPTURED_WITNESS) (w_data_hash CAPTURED_WITNESS)) = captured_commitment"
  unfolding captured_commitment_def
  by (rule sha256_digest [OF captured_commitment_blocks], simp add: sha_init_def captured_commitment_block_1 captured_commitment_block_2 captured_commitment_block_3, code_simp)

lemma captured_leaf_blocks:
  "chunks16 (be_words (sha_pad (elems captured_commitment))) =
    [[1962228260, 1041962608, 3697927709, 919334828, 1799440858, 3337520560, 3430304958,
      106268536, 2147483648, 0, 0, 0, 0, 0, 0, 256]]"
  by code_simp

lemma captured_leaf_digest: "sha256 (elems captured_commitment) = captured_leaf"
  unfolding captured_leaf_def
  by (rule sha256_digest [OF captured_leaf_blocks], simp add: sha_init_def captured_leaf_block_1, code_simp)

lemma captured_node_blocks:
  "chunks16 (be_words (sha_pad (elems (w_merkle_path CAPTURED_WITNESS ! 0) @ elems captured_leaf))) =
    [[526546215, 1577705789, 2919228145, 1638213935, 1530570243, 3142207461, 160252206,
      269153769, 1967029088, 3510200116, 836300213, 865762702, 892020923, 1023350898, 961150432,
      2088622204],
     [2147483648, 0, 0, 0, 0, 0, 0, 0, 0, 0, 0, 0, 0, 0, 0, 512]]"
  by code_simp

lemma captured_node_digest: "sha256 (elems (w_merkle_path CAPTURED_WITNESS ! 0) @ elems captured_leaf) = captured_node"
  unfolding captured_node_def
  by (rule sha256_digest [OF captured_node_blocks], simp add: sha_init_def captured_node_block_1 captured_node_block_2, code_simp)

lemma captured_root_blocks:
  "chunks16 (be_words (sha_pad (elems (w_merkle_path CAPTURED_WITNESS ! 1) @ elems captured_node))) =
    [[2768553657, 2563666523, 1898736825, 4057755992, 1075114603, 1719850283, 1321912121,
      127904076, 2271767349, 4049077170, 325721825, 2986066770, 1293594954, 1127916361,
      2180704169, 110899789],
     [2147483648, 0, 0, 0, 0, 0, 0, 0, 0, 0, 0, 0, 0, 0, 0, 512]]"
  by code_simp

lemma captured_root_digest: "sha256 (elems (w_merkle_path CAPTURED_WITNESS ! 1) @ elems captured_node) = CAPTURED_ROOT"
  unfolding CAPTURED_ROOT_def
  by (rule sha256_digest [OF captured_root_blocks], simp add: sha_init_def captured_root_block_1 captured_root_block_2, code_simp)

section \<open>The captured account\<close>

lemma captured_account_id: "witness_account_id sha256 CAPTURED_WITNESS = captured_id"
  by (simp add: witness_account_id_def derive_account_id_def captured_id_digest)

lemma captured_leaf_hash:
  "leaf_hash_of sha256 (witness_commitment sha256 CAPTURED_WITNESS) = captured_leaf"
  by (simp add: witness_commitment_def compute_commitment_def captured_account_id
      captured_commitment_digest leaf_hash_of_def captured_leaf_digest)

lemma captured_position:
  "w_leaf_index CAPTURED_WITNESS = 3" "w_balance CAPTURED_WITNESS = 3000"
  "w_merkle_path CAPTURED_WITNESS = [w_merkle_path CAPTURED_WITNESS ! 0, w_merkle_path CAPTURED_WITNESS ! 1]"
  by (simp_all add: CAPTURED_WITNESS_def)

lemma captured_turns:
  "turns (w_leaf_index CAPTURED_WITNESS) (length (w_merkle_path CAPTURED_WITNESS)) = [True, True]"
  by (simp add: CAPTURED_WITNESS_def turns_def numeral_2_eq_2)

lemma captured_root: "witness_root sha256 CAPTURED_WITNESS = CAPTURED_ROOT"
  unfolding witness_root_def captured_leaf_hash
  by (subst captured_position(3))
    (simp add: fold_merkle_path_def captured_position(1) hash_two_def captured_node_digest
      captured_root_digest [unfolded One_nat_def] bit_simps drop_bit_eq_div)

definition captured_digits :: "nat list" where
  "captured_digits = [36, 14, 23, 51, 29, 33, 49, 53, 29, 10, 50, 37, 23, 27, 46, 43, 11, 17, 24, 47, 43, 8,
    52, 26, 15, 45, 52, 8, 52, 45, 18, 2, 21, 9, 43, 18, 57, 19, 47, 25, 52, 57, 31, 3]"

lemma captured_base58: "b58_text captured_id = CAPTURED_ACCOUNT_ID_BASE58"
proof -
  have "b58_digits (elems captured_id) = captured_digits"
  proof (rule b58_digits_unique)
    show "canonical captured_digits" by (simp add: canonical_def captured_digits_def)
    show "\<forall>d \<in> set captured_digits. d < 58" by (simp add: captured_digits_def)
    show "b58_value captured_digits = bytes_value (elems captured_id)"
      by (simp add: captured_digits_def captured_id_def bytes_value_def)
  qed
  then show ?thesis
    by (simp add: b58_text_def captured_digits_def CAPTURED_ACCOUNT_ID_BASE58_def b58_alphabet_def
        captured_id_def)
qed

text \<open>The tests that need no built image, for any hash; they pass with SHA-256. The test's own \<^verbatim>\<open>base58\<close> is a
  copy of the benchmark's encoder; a panic is an error value.\<close>

definition derived_account_id_matches_the_chain :: "sha \<Rightarrow> bool" where
  "derived_account_id_matches_the_chain H =
    (let w = CAPTURED_WITNESS; derived = derive_account_id H (w_npk w) (w_identifier w)
     in bs58_encode derived = Some CAPTURED_ACCOUNT_ID_BASE58)"

definition commitment_anchors_to_the_chain_root :: "sha \<Rightarrow> bool" where
  "commitment_anchors_to_the_chain_root H =
    (let w = CAPTURED_WITNESS;
         account_id = derive_account_id H (w_npk w) (w_identifier w);
         commitment = compute_commitment H account_id (w_program_owner w) (w_balance w) (w_nonce w) (w_data_hash w);
         leaf_hash = H (elems commitment);
         root = fold_merkle_path H leaf_hash (w_leaf_index w) (w_merkle_path w)
     in root = CAPTURED_ROOT)"

definition real_chain_witness_cannot_overstate_its_balance :: "sha \<Rightarrow> bool" where
  "real_chain_witness_cannot_overstate_its_balance H =
    (let witness = CAPTURED_WITNESS;
         statement = \<lparr>s_merkle_root = CAPTURED_ROOT, s_threshold = w_balance CAPTURED_WITNESS + 1,
           s_context_id = arr_rep 42, s_presenter_pubkey = arr_rep 2\<rparr>;
         result = attest H witness statement
     in \<not> is_ok result)"

lemma real_chain_tests:
  "derived_account_id_matches_the_chain sha256" "commitment_anchors_to_the_chain_root sha256"
  "real_chain_witness_cannot_overstate_its_balance sha256"
proof -
  have "derive_account_id sha256 (w_npk CAPTURED_WITNESS) (w_identifier CAPTURED_WITNESS) = captured_id"
    using captured_account_id by (simp add: witness_account_id_def)
  then show "derived_account_id_matches_the_chain sha256"
    by (simp add: derived_account_id_matches_the_chain_def bs58_encode_refines captured_base58 Let_def)
  show "commitment_anchors_to_the_chain_root sha256"
    using captured_root
    by (simp add: commitment_anchors_to_the_chain_root_def witness_root_def witness_commitment_def
        witness_account_id_def leaf_hash_of_def Let_def)
  show "real_chain_witness_cannot_overstate_its_balance sha256"
    by (simp add: real_chain_witness_cannot_overstate_its_balance_def attest_unfold captured_root
        captured_position Let_def)
qed

text \<open>Claim C18: with SHA-256 for the hash, the derivations are the chain's own. For the captured witness
  they give the account id the wallet reported and the root the sequencer's path belongs to, so it
  attests exactly the statements over that root up to the 3000 tokens the account held; and every
  other witness for that leaf of that root, whatever fields and siblings it invents, gets the same
  verdict or is refused for its path, unless two named messages collide under SHA-256.\<close>

theorem captured_account_attested:
  assumes "s_merkle_root s = CAPTURED_ROOT"
    and "turns (w_leaf_index w) (length (w_merkle_path w)) = [True, True]"
  shows "bs58_encode (derive_account_id sha256 (w_npk CAPTURED_WITNESS) (w_identifier CAPTURED_WITNESS))
      = Some CAPTURED_ACCOUNT_ID_BASE58
    \<and> attest sha256 CAPTURED_WITNESS s = (if 3000 < s_threshold s then Inl BalanceBelowThreshold
        else Inr (compute_nullifier sha256 (s_presenter_pubkey s) (s_context_id s) captured_id))
    \<and> (attest sha256 w s = attest sha256 CAPTURED_WITNESS s
       \<or> attest sha256 w s = Inl MerklePathDoesNotAnchor
       \<or> collision_between sha256 (witness_messages sha256 w) (witness_messages sha256 CAPTURED_WITNESS))"
proof -
  have own: "attest sha256 CAPTURED_WITNESS s = (if 3000 < s_threshold s then Inl BalanceBelowThreshold
      else Inr (compute_nullifier sha256 (s_presenter_pubkey s) (s_context_id s) captured_id))"
    by (simp add: attest_unfold captured_root assms(1) captured_position captured_account_id)
  have "turns (w_leaf_index w) (length (w_merkle_path w))
      = turns (w_leaf_index CAPTURED_WITNESS) (length (w_merkle_path CAPTURED_WITNESS))"
    using assms(2) by (simp add: captured_turns)
  from same_verdict [OF this, of sha256 s] own captured_base58 captured_account_id
  show ?thesis
    by (simp add: bs58_encode_refines witness_account_id_def captured_root assms(1))
qed

definition captured_statement :: "u128 \<Rightarrow> AttestStatement" where
  "captured_statement threshold = \<lparr>s_merkle_root = CAPTURED_ROOT, s_threshold = threshold,
     s_context_id = arr_rep 42, s_presenter_pubkey = arr_rep 2\<rparr>"

theorem captured_account_attested_witness:
  "bs58_encode (derive_account_id sha256 (w_npk CAPTURED_WITNESS) (w_identifier CAPTURED_WITNESS))
      = Some CAPTURED_ACCOUNT_ID_BASE58
   \<and> attest sha256 CAPTURED_WITNESS (captured_statement 1000)
      = Inr (compute_nullifier sha256 (arr_rep 2) (arr_rep 42) captured_id)
   \<and> attest sha256 CAPTURED_WITNESS (captured_statement 3001) = Inl BalanceBelowThreshold
   \<and> (attest sha256 (CAPTURED_WITNESS\<lparr>w_balance := 5000\<rparr>) (captured_statement 4000)
        \<in> {Inl BalanceBelowThreshold, Inl MerklePathDoesNotAnchor}
      \<or> collision_between sha256 (witness_messages sha256 (CAPTURED_WITNESS\<lparr>w_balance := 5000\<rparr>))
          (witness_messages sha256 CAPTURED_WITNESS))"
proof -
  note captured_turns
  then show ?thesis
    using captured_account_attested [of "captured_statement 1000" CAPTURED_WITNESS]
      captured_account_attested [of "captured_statement 3001" CAPTURED_WITNESS]
      captured_account_attested [of "captured_statement 4000" "CAPTURED_WITNESS\<lparr>w_balance := 5000\<rparr>"]
    by (simp add: captured_statement_def captured_position(1)) auto
qed

end
