(* ===== verification/AttestationGuests.thy ===== *)
theory AttestationGuests
  imports CommitmentSet
begin

text \<open>
  The two zkVM programs that prove an attestation. \<open>guest_main\<close> is the standalone Risc0 guest
  (\<^verbatim>\<open>attestation-circuit/methods/guest/src/bin/attestation.rs\<close>), which writes the derivation out
  again and commits a \<open>PublicJournal\<close>; \<open>lez_main\<close> is the LEZ-native program
  (\<^verbatim>\<open>guest-lez/src/bin/attestation_lez.rs\<close>), which calls \<open>attest\<close> and emits a
  \<^verbatim>\<open>ProgramOutput\<close>. What \<^verbatim>\<open>env::read\<close> and \<^verbatim>\<open>read_lee_inputs\<close> deliver are arguments; what is
  committed is the \<open>Inr\<close> result; a panic, which leaves no proof, is an \<open>Inl\<close>. The account and
  program-I/O records are the fields of \<^verbatim>\<open>lee_core\<close>'s types that the source reads and writes.
\<close>

section \<open>The standalone guest\<close>

definition guest_main :: "sha \<Rightarrow> PrivateInputs \<Rightarrow> PublicJournal \<Rightarrow> attest_panic + PublicJournal" where
  "guest_main H priv_in journal =
    (let account_id = derive_account_id H (w_npk priv_in) (w_identifier priv_in);
         leaf_commitment = compute_commitment H account_id (w_program_owner priv_in)
           (w_balance priv_in) (w_nonce priv_in) (w_data_hash priv_in);
         leaf_hash = leaf_hash_of H leaf_commitment;
         recovered_root = fold_merkle_path H leaf_hash (w_leaf_index priv_in) (w_merkle_path priv_in)
     in if recovered_root \<noteq> j_merkle_root journal then Inl MerklePathDoesNotAnchor
        else if \<not> j_threshold journal \<le> w_balance priv_in then Inl BalanceBelowThreshold
        else Inr (journal\<lparr>j_nullifier :=
               compute_nullifier H (j_presenter_pubkey journal) (j_context_id journal) account_id\<rparr>))"

text \<open>The statement half of a journal.\<close>

definition statement_of :: "PublicJournal \<Rightarrow> AttestStatement" where
  "statement_of j = \<lparr>s_merkle_root = j_merkle_root j, s_threshold = j_threshold j,
     s_context_id = j_context_id j, s_presenter_pubkey = j_presenter_pubkey j\<rparr>"

lemma statement_of_simps [simp]:
  "s_merkle_root (statement_of j) = j_merkle_root j" "s_threshold (statement_of j) = j_threshold j"
  "s_context_id (statement_of j) = j_context_id j"
  "s_presenter_pubkey (statement_of j) = j_presenter_pubkey j"
  "statement_of (j\<lparr>j_nullifier := n\<rparr>) = statement_of j"
  by (simp_all add: statement_of_def)

lemma guest_main_is_attest:
  "guest_main H w j =
     (case attest H w (statement_of j) of Inl p \<Rightarrow> Inl p | Inr n \<Rightarrow> Inr (j\<lparr>j_nullifier := n\<rparr>))"
  by (simp add: guest_main_def attest_def Let_def)

lemma guest_main_Inr [result_iff]:
  "guest_main H w j = Inr j' \<longleftrightarrow>
     (\<exists>n. attest H w (statement_of j) = Inr n \<and> j' = j\<lparr>j_nullifier := n\<rparr>)"
  by (auto simp: guest_main_is_attest split: sum.splits)

lemma guest_main_journal:
  assumes "guest_main H w j = Inr j'"
  shows "attest H w (statement_of j') = Inr (j_nullifier j')"
  using assms by (auto simp: guest_main_Inr)

text \<open>The messages the asserts carry, by which the SDK recognises them.\<close>

fun panic_message :: "attest_panic \<Rightarrow> string" where
  "panic_message MerklePathDoesNotAnchor = ''merkle path does not anchor to the claimed root''"
| "panic_message BalanceBelowThreshold = ''balance is below the attested threshold''"

section \<open>LEZ programs: accounts, inputs, outputs\<close>

record account =
  acc_program_owner :: program_id
  acc_balance :: u128
  acc_data :: bytes
  acc_nonce :: u128

record account_with_metadata =
  am_account :: account
  am_is_authorized :: bool
  am_account_id :: b32

record 'i program_input =
  pi_self_program_id :: program_id
  pi_caller_program_id :: "program_id option"
  pi_pre_states :: "account_with_metadata list"
  pi_instruction :: 'i

record program_output =
  po_self_program_id :: program_id
  po_caller_program_id :: "program_id option"
  po_instruction_words :: "u32 list"
  po_pre_states :: "account_with_metadata list"
  po_post_states :: "account list"

section \<open>The LEZ-native program\<close>

datatype lez_panic = AttestPanic attest_panic | ZeroNullifier

definition lez_main :: "sha \<Rightarrow> AttestInstruction program_input \<Rightarrow> u32 list \<Rightarrow> lez_panic + program_output"
  where
  "lez_main H input instruction_words =
    (case attest H (i_witness (pi_instruction input)) (i_statement (pi_instruction input)) of
       Inl p \<Rightarrow> Inl (AttestPanic p)
     | Inr nullifier \<Rightarrow>
         if \<not> nullifier \<noteq> arr_rep 0 then Inl ZeroNullifier
         else Inr \<lparr>po_self_program_id = pi_self_program_id input,
                po_caller_program_id = pi_caller_program_id input,
                po_instruction_words = instruction_words,
                po_pre_states = pi_pre_states input,
                po_post_states = map am_account (pi_pre_states input)\<rparr>)"

lemma lez_main_Inr [result_iff]:
  "lez_main H input ws = Inr out \<longleftrightarrow>
     (\<exists>n. attest H (i_witness (pi_instruction input)) (i_statement (pi_instruction input)) = Inr n
        \<and> n \<noteq> arr_rep 0)
     \<and> out = \<lparr>po_self_program_id = pi_self_program_id input,
              po_caller_program_id = pi_caller_program_id input,
              po_instruction_words = ws, po_pre_states = pi_pre_states input,
              po_post_states = map am_account (pi_pre_states input)\<rparr>"
  by (auto simp: lez_main_def split: sum.splits)

end
