(* ===== verification/PresenterSignature.thy ===== *)
theory PresenterSignature
  imports AttestationGuests
begin

text \<open>
  The presenter challenge. Signatures come from the \<^verbatim>\<open>k256\<close> crate, outside the repository, so
  key decoding, signature decoding and verification are a record of parameters; \<open>signer\<close> is the
  signing side the SDK uses. \<open>signer_ok\<close> states what the crate documents about the two sides
  together: a compressed key and a DER signature decode to what was encoded, and a signature
  verifies under its own key. The challenge digest exists in four copies in the source
  (off-chain verifier, kernel, shallow guest, deep guest); each is a definition here.
\<close>

section \<open>The \<^verbatim>\<open>k256\<close> interface\<close>

record ('vk, 'sg) ecdsa =
  from_sec1_bytes :: "bytes \<Rightarrow> 'vk option"
  from_der :: "bytes \<Rightarrow> 'sg option"
  ecdsa_verify :: "'vk \<Rightarrow> bytes \<Rightarrow> 'sg \<Rightarrow> bool"

record ('sk, 'vk, 'sg) signer =
  signing_key_from_bytes :: "bytes \<Rightarrow> 'sk option"
  verifying_key :: "'sk \<Rightarrow> 'vk"
  to_encoded_point :: "'vk \<Rightarrow> bytes"
  ecdsa_sign :: "'sk \<Rightarrow> bytes \<Rightarrow> 'sg"
  to_der :: "'sg \<Rightarrow> bytes"

definition signer_ok :: "('vk, 'sg) ecdsa \<Rightarrow> ('sk, 'vk, 'sg) signer \<Rightarrow> bool" where
  "signer_ok E S \<longleftrightarrow>
     (\<forall>vk. from_sec1_bytes E (to_encoded_point S vk) = Some vk)
     \<and> (\<forall>sg. from_der E (to_der S sg) = Some sg)
     \<and> (\<forall>sk m. ecdsa_verify E (verifying_key S sk) m (ecdsa_sign S sk m))"

section \<open>The challenge digest\<close>

definition challenge_bytes :: "b32 \<Rightarrow> b32 \<Rightarrow> u128 \<Rightarrow> b32 \<Rightarrow> b33 \<Rightarrow> b32 \<Rightarrow> bytes" where
  "challenge_bytes nonce merkle_root threshold context_id presenter_pubkey nullifier =
     bytes_of ''/lp-0005/v0.1/PresenterChallenge/'' @ elems nonce @ elems merkle_root
     @ u128_le threshold @ elems context_id @ elems presenter_pubkey @ elems nullifier"

lemma length_challenge_bytes [simp]: "length (challenge_bytes n r t c pk nf) = 210"
  by (simp add: challenge_bytes_def)

lemma challenge_bytes_inject [simp]:
  "challenge_bytes n r t c pk nf = challenge_bytes n' r' t' c' pk' nf' \<longleftrightarrow>
     n = n' \<and> r = r' \<and> t = t' \<and> c = c' \<and> pk = pk' \<and> nf = nf'"
  by (simp add: challenge_bytes_def)

definition journal_challenge :: "b32 \<Rightarrow> PublicJournal \<Rightarrow> bytes" where
  "journal_challenge nonce j = challenge_bytes nonce (j_merkle_root j) (j_threshold j)
     (j_context_id j) (j_presenter_pubkey j) (j_nullifier j)"

lemma journal_challenge_inject [simp]:
  "journal_challenge n j = journal_challenge n' (j' :: PublicJournal) \<longleftrightarrow> n = n' \<and> j = j'"
  by (auto simp: journal_challenge_def intro: PublicJournal.equality)

text \<open>A DER signature is valid for a message under a SEC1-encoded key.\<close>

definition signature_valid :: "('vk, 'sg) ecdsa \<Rightarrow> b33 \<Rightarrow> bytes \<Rightarrow> bytes \<Rightarrow> bool" where
  "signature_valid E pubkey msg der \<longleftrightarrow>
     (\<exists>vk sg. from_sec1_bytes E (elems pubkey) = Some vk \<and> from_der E der = Some sg
        \<and> ecdsa_verify E vk msg sg)"

lemma signature_valid_code [code]:
  "signature_valid E pubkey msg der =
     (case from_sec1_bytes E (elems pubkey) of None \<Rightarrow> False
      | Some vk \<Rightarrow> (case from_der E der of None \<Rightarrow> False | Some sg \<Rightarrow> ecdsa_verify E vk msg sg))"
  by (auto simp: signature_valid_def split: option.splits)

section \<open>Signing, in the SDK\<close>

text \<open>\<^verbatim>\<open>PresenterKey\<close> of \<^verbatim>\<open>crates/sdk/src/lib.rs\<close>; \<^verbatim>\<open>generate\<close> draws the key at random and is not
  modelled. The assert on the encoded length is the \<open>None\<close> of \<open>presenter_public\<close>.\<close>

definition presenter_from_bytes :: "('sk, 'vk, 'sg) signer \<Rightarrow> b32 \<Rightarrow> 'sk option" where
  "presenter_from_bytes S bs = signing_key_from_bytes S (elems bs)"

definition presenter_public :: "('sk, 'vk, 'sg) signer \<Rightarrow> 'sk \<Rightarrow> b33 option" where
  "presenter_public S sk = try_into (to_encoded_point S (verifying_key S sk))"

definition sign_digest :: "('sk, 'vk, 'sg) signer \<Rightarrow> 'sk \<Rightarrow> b32 \<Rightarrow> bytes" where
  "sign_digest S sk digest = to_der S (ecdsa_sign S sk (elems digest))"

lemma signature_valid_sign_digest:
  assumes "signer_ok E S" and "presenter_public S sk = Some pk"
  shows "signature_valid E pk (elems digest) (sign_digest S sk digest)"
proof -
  have "elems pk = to_encoded_point S (verifying_key S sk)"
    using assms(2) by (simp add: presenter_public_def try_into_Some)
  then show ?thesis
    using assms(1) by (simp add: signature_valid_def sign_digest_def signer_ok_def)
qed

end
