(* ===== verification/GateInterface.thy ===== *)
theory GateInterface
  imports PresenterSignature
begin

text \<open>
  The contract every gate of the repository has with its integrator. A gate is called with a policy
  (the context it belongs to and the floor it demands) and with evidence (whatever the presenter
  supplied). \<open>sound_gate\<close> promises that acceptance means the evidence presents a journal for that
  context, at or above that floor, and that the evidence is valid (proof or journal authentic as
  far as the gate looks, challenge signed). \<open>complete_gate\<close> adds that nothing else is demanded.
  The off-chain verifier, the kernel and the SPEL guests interpret these locales.
\<close>

locale sound_gate =
  fixes run :: "b32 \<Rightarrow> u128 \<Rightarrow> 'ev \<Rightarrow> 'e + 'ok"
    and presented :: "'ev \<Rightarrow> PublicJournal option"
    and valid :: "'ev \<Rightarrow> bool"
  assumes run_sound: "run ctx floor ev = Inr ok \<Longrightarrow>
    valid ev \<and> (\<exists>j. presented ev = Some j \<and> j_context_id j = ctx \<and> floor \<le> j_threshold j)"
begin

lemma accepted:
  assumes "is_ok (run ctx floor ev)"
  obtains j where "presented ev = Some j" "j_context_id j = ctx" "floor \<le> j_threshold j" "valid ev"
proof -
  from assms obtain ok where "run ctx floor ev = Inr ok"
    by (auto simp: is_ok_iff)
  from run_sound [OF this] show ?thesis
    by (auto intro: that)
qed

lemma no_cross_context_replay:
  assumes "is_ok (run ctx floor ev)" and "is_ok (run ctx' floor' ev)"
  shows "ctx = ctx'"
  using assms(1) by (rule accepted) (use assms(2) in \<open>auto elim!: accepted\<close>)

lemma wrong_context_rejected:
  "presented ev = Some j \<Longrightarrow> j_context_id j \<noteq> ctx \<Longrightarrow> \<not> is_ok (run ctx floor ev)"
  by (auto elim!: accepted)

lemma floor_above_threshold_rejected:
  "presented ev = Some j \<Longrightarrow> j_threshold j < floor \<Longrightarrow> \<not> is_ok (run ctx floor ev)"
  by (auto elim!: accepted)

lemma invalid_evidence_rejected: "\<not> valid ev \<Longrightarrow> \<not> is_ok (run ctx floor ev)"
  by (auto elim!: accepted)

end

locale complete_gate = sound_gate run presented valid
  for run :: "b32 \<Rightarrow> u128 \<Rightarrow> 'ev \<Rightarrow> 'e + 'ok"
    and presented :: "'ev \<Rightarrow> PublicJournal option"
    and valid :: "'ev \<Rightarrow> bool" +
  assumes run_complete: "presented ev = Some j \<Longrightarrow> j_context_id j = ctx \<Longrightarrow>
    floor \<le> j_threshold j \<Longrightarrow> valid ev \<Longrightarrow> is_ok (run ctx floor ev)"
begin

lemma accepts_iff:
  "is_ok (run ctx floor ev) \<longleftrightarrow>
     valid ev \<and> (\<exists>j. presented ev = Some j \<and> j_context_id j = ctx \<and> floor \<le> j_threshold j)"
  by (auto elim!: accepted intro: run_complete)

lemma floor_antimono:
  "is_ok (run ctx floor ev) \<Longrightarrow> floor' \<le> floor \<Longrightarrow> is_ok (run ctx floor' ev)"
  by (auto simp: accepts_iff)

lemma accepting_floors:
  assumes "presented ev = Some j" and "j_context_id j = ctx" and "valid ev"
  shows "is_ok (run ctx floor ev) \<longleftrightarrow> floor \<le> j_threshold j"
  using assms by (auto simp: accepts_iff)

end

end
