(* ===== verification/OffchainVerifier.thy ===== *)
theory OffchainVerifier
  imports GateInterface
begin

text \<open>
  \<^verbatim>\<open>crates/verifier-offchain/src/lib.rs\<close>: receipt check, presenter signature check and
  \<open>verify_credential\<close>, which chains them with the context and floor checks. Risc0's receipt
  verification and journal decoding are parameters (\<open>zkvm\<close>), and so is the image id, which the
  build generates. \<open>risc0_sound\<close> is the meaning Risc0 documents for a verified receipt: the guest
  with that image id ran to its end and committed that journal. It is stated with an extractor
  \<open>ext\<close> for the inputs of that run, so that the theorems speak of the prover's own witness.
\<close>

section \<open>Receipts\<close>

record 'r zkvm =
  receipt_verify :: "'r \<Rightarrow> program_id \<Rightarrow> string + unit"
  journal_decode :: "'r \<Rightarrow> string + PublicJournal"

datatype VerifyError = Receipt string | Journal string | InvalidPubkey | InvalidSignature
  | SignatureRejected | ContextMismatch | ThresholdTooLow

definition verify_receipt :: "'r zkvm \<Rightarrow> program_id \<Rightarrow> 'r \<Rightarrow> VerifyError + PublicJournal" where
  "verify_receipt Z ATTESTATION_ID receipt =
     rbind (map_err Receipt (receipt_verify Z receipt ATTESTATION_ID))
       (\<lambda>_. map_err Journal (journal_decode Z receipt))"

definition risc0_sound :: "'r zkvm \<Rightarrow> program_id \<Rightarrow> sha \<Rightarrow> ('r \<Rightarrow> PrivateInputs \<times> PublicJournal) \<Rightarrow> bool"
  where
  "risc0_sound Z ID H ext \<longleftrightarrow>
     (\<forall>r j. receipt_verify Z r ID = Inr () \<longrightarrow> journal_decode Z r = Inr j \<longrightarrow>
        guest_main H (fst (ext r)) (snd (ext r)) = Inr j)"

section \<open>The presenter signature\<close>

definition presenter_challenge_digest :: "sha \<Rightarrow> b32 \<Rightarrow> PublicJournal \<Rightarrow> b32" where
  "presenter_challenge_digest H nonce journal =
     H (bytes_of ''/lp-0005/v0.1/PresenterChallenge/'' @ elems nonce
        @ elems (j_merkle_root journal) @ u128_le (j_threshold journal)
        @ elems (j_context_id journal) @ elems (j_presenter_pubkey journal)
        @ elems (j_nullifier journal))"

definition verify_presenter_signature ::
  "sha \<Rightarrow> ('vk, 'sg) ecdsa \<Rightarrow> PublicJournal \<Rightarrow> b32 \<Rightarrow> bytes \<Rightarrow> VerifyError + unit" where
  "verify_presenter_signature H E journal nonce signature_der =
     (case from_sec1_bytes E (elems (j_presenter_pubkey journal)) of
        None \<Rightarrow> Inl InvalidPubkey
      | Some vk \<Rightarrow>
          (case from_der E signature_der of
             None \<Rightarrow> Inl InvalidSignature
           | Some sig \<Rightarrow>
               (let digest = presenter_challenge_digest H nonce journal
                in if ecdsa_verify E vk (elems digest) sig then Inr () else Inl SignatureRejected)))"

section \<open>End to end\<close>

definition verify_credential :: "sha \<Rightarrow> ('vk, 'sg) ecdsa \<Rightarrow> 'r zkvm \<Rightarrow> program_id \<Rightarrow>
    'r \<Rightarrow> b32 \<Rightarrow> bytes \<Rightarrow> b32 \<Rightarrow> u128 \<Rightarrow> VerifyError + PublicJournal" where
  "verify_credential H E Z ATTESTATION_ID receipt presenter_nonce presenter_signature_der
     expected_context_id minimum_threshold =
     rbind (verify_receipt Z ATTESTATION_ID receipt) (\<lambda>journal.
       if j_context_id journal \<noteq> expected_context_id then Inl ContextMismatch
       else if j_threshold journal < minimum_threshold then Inl ThresholdTooLow
       else rbind (verify_presenter_signature H E journal presenter_nonce presenter_signature_der)
              (\<lambda>_. Inr journal))"

section \<open>Characterisations\<close>

lemma challenge_digest_bytes:
  "presenter_challenge_digest H nonce j = H (journal_challenge nonce j)"
  by (simp add: presenter_challenge_digest_def journal_challenge_def challenge_bytes_def)

definition presenter_signed :: "sha \<Rightarrow> ('vk, 'sg) ecdsa \<Rightarrow> PublicJournal \<Rightarrow> b32 \<Rightarrow> bytes \<Rightarrow> bool" where
  "presenter_signed H E j nonce der =
     signature_valid E (j_presenter_pubkey j) (elems (presenter_challenge_digest H nonce j)) der"

lemma verify_receipt_Inr [result_iff]:
  "verify_receipt Z ID r = Inr j \<longleftrightarrow> receipt_verify Z r ID = Inr () \<and> journal_decode Z r = Inr j"
  by (auto simp: verify_receipt_def result_iff)

lemma verify_presenter_signature_Inr [result_iff]:
  "verify_presenter_signature H E j nonce der = Inr u \<longleftrightarrow> presenter_signed H E j nonce der"
  by (auto simp: verify_presenter_signature_def presenter_signed_def signature_valid_def Let_def
      split: option.splits)

lemma verify_credential_Inr [result_iff]:
  "verify_credential H E Z ID r nonce der ctx m = Inr j \<longleftrightarrow>
     verify_receipt Z ID r = Inr j \<and> j_context_id j = ctx \<and> m \<le> j_threshold j
     \<and> presenter_signed H E j nonce der"
  by (auto simp: verify_credential_def rbind_Inr verify_presenter_signature_Inr not_less)

text \<open>The order in which the checks report: receipt, context, floor, signature.\<close>

lemma verify_credential_Inl:
  "verify_credential H E Z ID r nonce der ctx m = Inl e \<longleftrightarrow>
     (case verify_receipt Z ID r of
        Inl e' \<Rightarrow> e = e'
      | Inr j \<Rightarrow> if j_context_id j \<noteq> ctx then e = ContextMismatch
          else if j_threshold j < m then e = ThresholdTooLow
          else verify_presenter_signature H E j nonce der = Inl e)"
  by (auto simp: verify_credential_def rbind_Inl split: sum.splits)

interpretation offchain: complete_gate
  "\<lambda>ctx m (r, nonce, der). verify_credential H E Z ID r nonce der ctx m"
  "\<lambda>(r, nonce, der). case verify_receipt Z ID r of Inl _ \<Rightarrow> None | Inr j \<Rightarrow> Some j"
  "\<lambda>(r, nonce, der). case verify_receipt Z ID r of Inl _ \<Rightarrow> False
     | Inr j \<Rightarrow> presenter_signed H E j nonce der"
  for H :: sha and E :: "('vk, 'sg) ecdsa" and Z :: "'r zkvm" and ID :: program_id
  by unfold_locales (auto simp: verify_credential_Inr is_ok_iff split: sum.splits prod.splits)

section \<open>What an accepted credential proves\<close>

lemma accepted_receipt_attests:
  assumes "risc0_sound Z ID H ext" and "verify_receipt Z ID r = Inr j"
  shows "attest H (fst (ext r)) (statement_of j) = Inr (j_nullifier j)"
proof -
  from assms have "guest_main H (fst (ext r)) (snd (ext r)) = Inr j"
    by (auto simp: risc0_sound_def verify_receipt_Inr)
  then show ?thesis by (rule guest_main_journal)
qed

end
