(* ===== verification/Sdk.thy ===== *)
theory Sdk
  imports OffchainVerifier
begin

text \<open>
  \<^verbatim>\<open>crates/sdk/src/lib.rs\<close>: proof requests, proving, error classification, presenter signatures,
  and the helpers that synthesise a request; and the fixture of
  \<^verbatim>\<open>attestation-circuit/src/bin/baseline.rs\<close>. The Risc0 prover is the parameter \<open>prover\<close>;
  \<open>prover_ok\<close> says that it does for one request and one receipt kind what it documents: a run of the
  guest that ends yields a receipt that verifies and decodes to what the guest committed, a run that
  panics yields an error carrying the message. Nothing is assumed of other requests and kinds, which
  may hit the session limit or lack the Groth16 sidecar.
  \<^verbatim>\<open>anyhow\<close> errors are their rendered text. Lowercasing and trimming are ASCII, which is exact for
  the ASCII messages the prover emits.
\<close>

section \<open>Presenter signatures\<close>

definition presenter_sign :: "sha \<Rightarrow> ('sk, 'vk, 'sg) signer \<Rightarrow> 'sk \<Rightarrow> b32 \<Rightarrow> PublicJournal \<Rightarrow> bytes"
  where
  "presenter_sign H S sk nonce journal = sign_digest S sk (presenter_challenge_digest H nonce journal)"

lemma presenter_signed_sign:
  assumes "signer_ok E S" and "presenter_public S sk = Some (j_presenter_pubkey j)"
  shows "presenter_signed H E j nonce (presenter_sign H S sk nonce j)"
  unfolding presenter_signed_def presenter_sign_def using assms by (rule signature_valid_sign_digest)

section \<open>Requests\<close>

record ProveRequest =
  q_npk :: b32
  q_identifier :: u128
  q_program_owner :: program_id
  q_balance :: u128
  q_nonce :: u128
  q_data_hash :: b32
  q_merkle_path :: "b32 list"
  q_leaf_index :: u64
  q_merkle_root :: b32
  q_threshold :: u128
  q_context_id :: b32
  q_presenter_pubkey :: b33

datatype ReceiptKind = Composite | Groth16

record 'r AttestationProof =
  pf_receipt :: 'r
  pf_journal :: PublicJournal

definition request_inputs :: "ProveRequest \<Rightarrow> PrivateInputs" where
  "request_inputs req = \<lparr>w_npk = q_npk req, w_identifier = q_identifier req,
     w_program_owner = q_program_owner req, w_balance = q_balance req, w_nonce = q_nonce req,
     w_data_hash = q_data_hash req, w_merkle_path = q_merkle_path req,
     w_leaf_index = q_leaf_index req\<rparr>"

definition journal_stub :: "sha \<Rightarrow> ProveRequest \<Rightarrow> PublicJournal" where
  "journal_stub H req =
    (let account_id = derive_account_id H (q_npk req) (q_identifier req);
         nullifier = compute_nullifier H (q_presenter_pubkey req) (q_context_id req) account_id
     in \<lparr>j_merkle_root = q_merkle_root req, j_threshold = q_threshold req,
         j_context_id = q_context_id req, j_presenter_pubkey = q_presenter_pubkey req,
         j_nullifier = nullifier\<rparr>)"

section \<open>Proving\<close>

record ('env, 'r) prover =
  env_build :: "PrivateInputs \<Rightarrow> PublicJournal \<Rightarrow> string + 'env"
  prove_with_opts :: "'env \<Rightarrow> ReceiptKind \<Rightarrow> string + 'r"

definition prove_with_kind :: "sha \<Rightarrow> ('env, 'r) prover \<Rightarrow> 'r zkvm \<Rightarrow> ProveRequest \<Rightarrow> ReceiptKind
    \<Rightarrow> string + 'r AttestationProof" where
  "prove_with_kind H P Z req kind =
    (let priv_in = request_inputs req;
         stub = journal_stub H req
     in rbind (env_build P priv_in stub) (\<lambda>env.
        rbind (prove_with_opts P env kind) (\<lambda>receipt.
        rbind (journal_decode Z receipt) (\<lambda>journal.
        Inr \<lparr>pf_receipt = receipt, pf_journal = journal\<rparr>))))"

definition prove where "prove H P Z req = prove_with_kind H P Z req Composite"

definition prove_groth16 where "prove_groth16 H P Z req = prove_with_kind H P Z req Groth16"

section \<open>Error classification\<close>

datatype ProveError = StatementFalse string | ProverUnavailable string | Groth16Unavailable string
  | SessionLimit string | Other string

definition ascii_lower :: "char \<Rightarrow> char" where
  "ascii_lower c = (if of_char c \<in> {65..90::nat} then char_of (of_char c + 32 :: nat) else c)"

definition to_lowercase :: "string \<Rightarrow> string" where
  "to_lowercase s = map ascii_lower s"

text \<open>\<^verbatim>\<open>s.split(pat).nth(1)\<close>: what is between the first and the second occurrence.\<close>

definition split_nth_1 :: "string \<Rightarrow> string \<Rightarrow> string option" where
  "split_nth_1 pat s =
     (case split_once pat s of None \<Rightarrow> None
      | Some (_, after) \<Rightarrow>
          (case split_once pat after of None \<Rightarrow> Some after | Some (piece, _) \<Rightarrow> Some piece))"

definition ascii_whitespace :: "char \<Rightarrow> bool" where
  "ascii_whitespace c \<longleftrightarrow> of_char c \<in> {9..13::nat} \<union> {32}"

definition trim :: "string \<Rightarrow> string" where
  "trim s = rev (dropWhile ascii_whitespace (rev (dropWhile ascii_whitespace s)))"

definition classify :: "string \<Rightarrow> ProveError" where
  "classify msg =
    (let low = to_lowercase msg
     in if str_contains msg ''balance is below the attested threshold''
        then StatementFalse ''balance is below the attested threshold''
        else if str_contains msg ''merkle path does not anchor to the claimed root''
        then StatementFalse ''merkle path does not anchor to the claimed root''
        else if str_contains low ''guest panicked''
        then StatementFalse (trim (case split_nth_1 ''Guest panicked:'' msg of
               None \<Rightarrow> msg | Some piece \<Rightarrow> piece))
        else if str_contains low ''session limit'' \<or> str_contains low ''cycle limit''
        then SessionLimit msg
        else if str_contains low ''groth16'' \<or> str_contains low ''stark2snark''
             \<or> str_contains low ''docker''
        then Groth16Unavailable msg
        else if str_contains low ''r0vm'' \<or> str_contains low ''no such file''
             \<or> str_contains low ''not found''
        then ProverUnavailable msg
        else Other msg)"

definition prove_checked where "prove_checked H P Z req = map_err classify (prove H P Z req)"

definition prove_groth16_checked where
  "prove_groth16_checked H P Z req = map_err classify (prove_groth16 H P Z req)"

section \<open>Synthesised requests\<close>

definition precompute_leaf :: "sha \<Rightarrow> ProveRequest \<Rightarrow> b32 \<times> b32" where
  "precompute_leaf H req =
    (let account_id = derive_account_id H (q_npk req) (q_identifier req);
         commit = compute_commitment H account_id (q_program_owner req) (q_balance req)
           (q_nonce req) (q_data_hash req);
         leaf_hash = H (elems commit)
     in (commit, leaf_hash))"

definition synthetic_merkle_path :: "sha \<Rightarrow> b32 \<Rightarrow> u64 \<Rightarrow> nat \<Rightarrow> b32 list \<times> b32" where
  "synthetic_merkle_path H leaf_hash leaf_index depth =
    (let path = map (\<lambda>i. H (replicate 32 (of_nat i :: u8))) [0..<depth];
         root = fold_merkle_path H leaf_hash leaf_index path
     in (path, root))"

record DemoFixture =
  d_npk :: b32
  d_identifier :: u128
  d_program_owner :: program_id
  d_balance :: u128
  d_nonce :: u128
  d_data_seed :: bytes
  d_leaf_index :: u64
  d_tree_depth :: nat
  d_threshold :: u128
  d_context_id :: b32
  d_presenter_pubkey :: b33

definition into_request :: "sha \<Rightarrow> DemoFixture \<Rightarrow> ProveRequest" where
  "into_request H self =
    (let data_hash = H (d_data_seed self);
         req = \<lparr>q_npk = d_npk self, q_identifier = d_identifier self,
           q_program_owner = d_program_owner self, q_balance = d_balance self,
           q_nonce = d_nonce self, q_data_hash = data_hash, q_merkle_path = [],
           q_leaf_index = d_leaf_index self, q_merkle_root = arr_rep 0,
           q_threshold = d_threshold self, q_context_id = d_context_id self,
           q_presenter_pubkey = d_presenter_pubkey self\<rparr>;
         (_, leaf_hash) = precompute_leaf H req;
         (path, root) = synthetic_merkle_path H leaf_hash (q_leaf_index req) (d_tree_depth self)
     in req\<lparr>q_merkle_path := path, q_merkle_root := root\<rparr>)"

text \<open>The benchmark's fixture.\<close>

definition TREE_DEPTH :: nat where "TREE_DEPTH = 5"

definition synth_inputs :: "sha \<Rightarrow> PrivateInputs \<times> PublicJournal" where
  "synth_inputs H =
    (let npk = arr_rep 0x33;
         identifier = 42;
         program_owner = arr_rep 0x11223344;
         balance = 1000000;
         nonce = 7;
         data_hash = H (bytes_of ''fixture-account-data'');
         account_id = derive_account_id H npk identifier;
         leaf_commit = compute_commitment H account_id program_owner balance nonce data_hash;
         leaf_hash = H (elems leaf_commit);
         path = map (\<lambda>i. H (replicate 32 (of_nat i :: u8))) [0..<TREE_DEPTH];
         leaf_index = 3;
         merkle_root = fold_merkle_path H leaf_hash leaf_index path;
         presenter_pubkey = arr_rep 2;
         context_id = H (bytes_of ''lp-0005-baseline-context'');
         expected_nullifier = compute_nullifier H presenter_pubkey context_id account_id
     in (\<lparr>w_npk = npk, w_identifier = identifier, w_program_owner = program_owner,
          w_balance = balance, w_nonce = nonce, w_data_hash = data_hash, w_merkle_path = path,
          w_leaf_index = leaf_index\<rparr>,
         \<lparr>j_merkle_root = merkle_root, j_threshold = 100000, j_context_id = context_id,
          j_presenter_pubkey = presenter_pubkey, j_nullifier = expected_nullifier\<rparr>))"

text \<open>The benchmark's \<^verbatim>\<open>main\<close>, without timings: prove the fixture, encode the receipt for its size,
  verify it and decode the journal.\<close>

definition baseline_main :: "sha \<Rightarrow> ('env, 'r) prover \<Rightarrow> 'r zkvm \<Rightarrow> program_id \<Rightarrow> ('r \<Rightarrow> string + bytes)
    \<Rightarrow> string + nat \<times> PublicJournal" where
  "baseline_main H P Z ATTESTATION_ID to_vec =
    (let (priv_in, stub) = synth_inputs H
     in rbind (env_build P priv_in stub) (\<lambda>env.
        rbind (prove_with_opts P env Composite) (\<lambda>receipt.
        rbind (to_vec receipt) (\<lambda>receipt_bytes.
        rbind (receipt_verify Z receipt ATTESTATION_ID) (\<lambda>_.
        rbind (journal_decode Z receipt) (\<lambda>journal. Inr (length receipt_bytes, journal)))))))"

section \<open>What the prover is told and what it answers\<close>

definition request_true :: "sha \<Rightarrow> ProveRequest \<Rightarrow> bool" where
  "request_true H req \<longleftrightarrow>
     witness_root H (request_inputs req) = q_merkle_root req \<and> q_threshold req \<le> q_balance req"

lemma request_inputs_simps [simp]:
  "w_npk (request_inputs req) = q_npk req" "w_identifier (request_inputs req) = q_identifier req"
  "w_balance (request_inputs req) = q_balance req"
  by (simp_all add: request_inputs_def)

lemma journal_stub_simps [simp]:
  "j_merkle_root (journal_stub H req) = q_merkle_root req"
  "j_threshold (journal_stub H req) = q_threshold req"
  "j_context_id (journal_stub H req) = q_context_id req"
  "j_presenter_pubkey (journal_stub H req) = q_presenter_pubkey req"
  "j_nullifier (journal_stub H req) = compute_nullifier H (q_presenter_pubkey req)
     (q_context_id req) (witness_account_id H (request_inputs req))"
  by (simp_all add: journal_stub_def Let_def witness_account_id_def)

text \<open>The nullifier the host fills in is the one the guest overwrites it with.\<close>

lemma guest_main_stub:
  "guest_main H (request_inputs req) (journal_stub H req) =
    (if witness_root H (request_inputs req) \<noteq> q_merkle_root req then Inl MerklePathDoesNotAnchor
     else if q_balance req < q_threshold req then Inl BalanceBelowThreshold
     else Inr (journal_stub H req))"
  by (auto simp: guest_main_is_attest attest_unfold intro!: PublicJournal.equality)

definition prover_ok :: "sha \<Rightarrow> ('env, 'r) prover \<Rightarrow> 'r zkvm \<Rightarrow> program_id \<Rightarrow> ProveRequest \<Rightarrow> ReceiptKind
    \<Rightarrow> bool" where
  "prover_ok H P Z ID req kind \<longleftrightarrow>
     (\<exists>env. env_build P (request_inputs req) (journal_stub H req) = Inr env \<and>
        (case guest_main H (request_inputs req) (journal_stub H req) of
          Inl p \<Rightarrow> (\<exists>msg. prove_with_opts P env kind = Inl msg \<and>
            (\<forall>p'. str_contains msg (panic_message p') \<longleftrightarrow> p' = p))
        | Inr j' \<Rightarrow> (\<exists>r. prove_with_opts P env kind = Inr r \<and> receipt_verify Z r ID = Inr ()
            \<and> journal_decode Z r = Inr j')))"

lemma prove_true:
  assumes "prover_ok H P Z ID req kind" and "request_true H req"
  shows "\<exists>r. prove_with_kind H P Z req kind = Inr \<lparr>pf_receipt = r, pf_journal = journal_stub H req\<rparr>
    \<and> verify_receipt Z ID r = Inr (journal_stub H req)"
proof -
  have "guest_main H (request_inputs req) (journal_stub H req) = Inr (journal_stub H req)"
    using assms(2) by (simp add: guest_main_stub request_true_def not_less)
  with assms(1) show ?thesis
    by (auto simp: prover_ok_def prove_with_kind_def verify_receipt_Inr)
qed

lemma prove_false:
  assumes "prover_ok H P Z ID req kind" and "guest_main H (request_inputs req) (journal_stub H req) = Inl p"
  obtains msg where "prove_with_kind H P Z req kind = Inl msg"
    "\<And>p'. str_contains msg (panic_message p') \<longleftrightarrow> p' = p"
  using assms by (auto simp: prover_ok_def prove_with_kind_def)

lemma classify_panic:
  assumes "\<And>p'. str_contains msg (panic_message p') \<longleftrightarrow> p' = p"
  shows "classify msg = StatementFalse (panic_message p)"
  using assms [of MerklePathDoesNotAnchor] assms [of BalanceBelowThreshold]
  by (cases p) (simp_all add: classify_def Let_def)

section \<open>The synthesised requests are self-consistent\<close>

lemma synthetic_merkle_path_length [simp]:
  "length (fst (synthetic_merkle_path H leaf idx d)) = d"
  by (simp add: synthetic_merkle_path_def Let_def)

lemma synthetic_root:
  "snd (synthetic_merkle_path H leaf idx d) =
   fold_merkle_path H leaf idx (fst (synthetic_merkle_path H leaf idx d))"
  by (simp add: synthetic_merkle_path_def Let_def)

lemma into_request_root:
  "witness_root H (request_inputs (into_request H d)) = q_merkle_root (into_request H d)"
  by (simp add: into_request_def Let_def precompute_leaf_def case_prod_beta synthetic_root
      witness_root_def witness_commitment_def witness_account_id_def request_inputs_def
      leaf_hash_of_def)

lemma into_request_simps [simp]:
  "q_threshold (into_request H d) = d_threshold d" "q_balance (into_request H d) = d_balance d"
  "q_context_id (into_request H d) = d_context_id d" "q_npk (into_request H d) = d_npk d"
  "q_identifier (into_request H d) = d_identifier d"
  "q_presenter_pubkey (into_request H d) = d_presenter_pubkey d"
  "length (q_merkle_path (into_request H d)) = d_tree_depth d"
  by (simp_all add: into_request_def Let_def case_prod_beta)

lemma into_request_true: "request_true H (into_request H d) \<longleftrightarrow> d_threshold d \<le> d_balance d"
  by (simp add: request_true_def into_request_root)

text \<open>The benchmark fixture is the demo fixture with particular values.\<close>

definition baseline_fixture :: "sha \<Rightarrow> DemoFixture" where
  "baseline_fixture H = \<lparr>d_npk = arr_rep 0x33, d_identifier = 42, d_program_owner = arr_rep 0x11223344,
     d_balance = 1000000, d_nonce = 7, d_data_seed = bytes_of ''fixture-account-data'',
     d_leaf_index = 3, d_tree_depth = TREE_DEPTH, d_threshold = 100000,
     d_context_id = H (bytes_of ''lp-0005-baseline-context''), d_presenter_pubkey = arr_rep 2\<rparr>"

lemma synth_inputs_request:
  "synth_inputs H = (request_inputs (into_request H (baseline_fixture H)),
     journal_stub H (into_request H (baseline_fixture H)))"
  by (simp add: synth_inputs_def baseline_fixture_def into_request_def precompute_leaf_def
      synthetic_merkle_path_def request_inputs_def journal_stub_def Let_def)

lemma synth_inputs_proves:
  "guest_main H (fst (synth_inputs H)) (snd (synth_inputs H)) = Inr (snd (synth_inputs H))"
  using into_request_root [of H "baseline_fixture H"]
  by (simp add: synth_inputs_request guest_main_stub) (simp add: baseline_fixture_def)

text \<open>With a working prover the benchmark ends, and prints the fixture's journal unchanged.\<close>

lemma baseline_main_ok:
  assumes "prover_ok H P Z ID (into_request H (baseline_fixture H)) Composite"
    and "\<And>r. \<exists>bs. to_vec r = Inr bs"
  shows "\<exists>n. baseline_main H P Z ID to_vec = Inr (n, snd (synth_inputs H))"
proof -
  let ?req = "into_request H (baseline_fixture H)"
  have guest: "guest_main H (request_inputs ?req) (journal_stub H ?req) = Inr (journal_stub H ?req)"
    using synth_inputs_proves [of H] by (simp add: synth_inputs_request)
  from assms(1) obtain env r where "env_build P (request_inputs ?req) (journal_stub H ?req) = Inr env"
    "prove_with_opts P env Composite = Inr r" "receipt_verify Z r ID = Inr ()"
    "journal_decode Z r = Inr (journal_stub H ?req)"
    by (auto simp: prover_ok_def guest)
  moreover obtain bs where "to_vec r = Inr bs" using assms(2) by blast
  ultimately show ?thesis by (simp add: baseline_main_def synth_inputs_request)
qed

text \<open>The request of a holder whose account is leaf \<open>idx\<close> of the ledger \<open>t\<close>, built from the
  sequencer's authentication path.\<close>

definition holder_request :: "sha \<Rightarrow> shielded_account mtree \<Rightarrow> b32 \<Rightarrow> u128 \<Rightarrow> shielded_account
    \<Rightarrow> u64 \<Rightarrow> nat \<Rightarrow> u128 \<Rightarrow> b32 \<Rightarrow> b33 \<Rightarrow> ProveRequest" where
  "holder_request H t npk identifier a idx d threshold context pk =
    \<lparr>q_npk = npk, q_identifier = identifier, q_program_owner = sa_program_owner a,
     q_balance = sa_balance a, q_nonce = sa_nonce a, q_data_hash = sa_data_hash a,
     q_merkle_path = authentication_path H (map_mtree (commit H) t) (turns idx d),
     q_leaf_index = idx, q_merkle_root = ledger_root H t, q_threshold = threshold,
     q_context_id = context, q_presenter_pubkey = pk\<rparr>"

lemma holder_request_simps [simp]:
  "q_merkle_root (holder_request H t npk i a idx d m c pk) = ledger_root H t"
  "q_threshold (holder_request H t npk i a idx d m c pk) = m"
  "q_context_id (holder_request H t npk i a idx d m c pk) = c"
  "q_presenter_pubkey (holder_request H t npk i a idx d m c pk) = pk"
  "request_inputs (holder_request H t npk i a idx d m c pk) = honest_witness H t npk i a idx d"
  by (simp_all add: holder_request_def request_inputs_def honest_witness_def)

lemma holder_request_true:
  assumes "leaf_at t (turns idx d) = Some a" and "sa_account_id a = derive_account_id H npk i"
    and "m \<le> sa_balance a"
  shows "request_true H (holder_request H t npk i a idx d m c pk)"
  using honest_witness_root [OF assms(1,2)] assms(3)
  by (simp add: request_true_def) (simp add: holder_request_def)

lemma presented_proof_accepted:
  assumes "prover_ok H P Z ID req kind" and "signer_ok E S" and "request_true H req"
    and "presenter_public S sk = Some (q_presenter_pubkey req)" and "floor \<le> q_threshold req"
  shows "\<exists>pf. prove_with_kind H P Z req kind = Inr pf \<and> pf_journal pf = journal_stub H req
    \<and> verify_credential H E Z ID (pf_receipt pf) nonce (presenter_sign H S sk nonce (pf_journal pf))
        (q_context_id req) floor = Inr (pf_journal pf)"
proof -
  from prove_true [OF assms(1,3)] obtain r where
    "prove_with_kind H P Z req kind = Inr \<lparr>pf_receipt = r, pf_journal = journal_stub H req\<rparr>"
    "verify_receipt Z ID r = Inr (journal_stub H req)" by blast
  with presenter_signed_sign [OF assms(2), of sk "journal_stub H req"] assms(4,5) show ?thesis
    by (auto simp: verify_credential_Inr)
qed

end
