(* ===== verification/VerifierKernel.thy ===== *)
theory VerifierKernel
  imports OffchainVerifier
begin

text \<open>
  \<^verbatim>\<open>crates/verifier-program\<close>: the portable gate kernel \<open>check_gate\<close> and its own copy of the
  presenter check (\<^verbatim>\<open>src/signature.rs\<close>). The kernel trusts its caller for the authenticity of the
  journal. The crate's errors repeat names of \<open>VerifyError\<close>, so they are written qualified.
\<close>

datatype GateError = ContextMismatch | ThresholdTooLow | InvalidPubkey | InvalidSignature
  | SignatureRejected | NullifierAlreadyUsed

record GateInputs =
  g_attested :: PublicJournal
  g_expected_context_id :: b32
  g_minimum_threshold :: u128
  g_challenge_nonce :: b32
  g_presenter_signature_der :: bytes

definition kernel_challenge_digest :: "sha \<Rightarrow> b32 \<Rightarrow> PublicJournal \<Rightarrow> b32" where
  "kernel_challenge_digest H nonce journal =
     H (bytes_of ''/lp-0005/v0.1/PresenterChallenge/'' @ elems nonce
        @ elems (j_merkle_root journal) @ u128_le (j_threshold journal)
        @ elems (j_context_id journal) @ elems (j_presenter_pubkey journal)
        @ elems (j_nullifier journal))"

definition verify_presenter ::
  "sha \<Rightarrow> ('vk, 'sg) ecdsa \<Rightarrow> PublicJournal \<Rightarrow> b32 \<Rightarrow> bytes \<Rightarrow> GateError + unit" where
  "verify_presenter H E journal nonce signature_der =
     (case from_sec1_bytes E (elems (j_presenter_pubkey journal)) of
        None \<Rightarrow> Inl GateError.InvalidPubkey
      | Some vk \<Rightarrow>
          (case from_der E signature_der of
             None \<Rightarrow> Inl GateError.InvalidSignature
           | Some sig \<Rightarrow>
               (let digest = kernel_challenge_digest H nonce journal
                in if ecdsa_verify E vk (elems digest) sig then Inr ()
                   else Inl GateError.SignatureRejected)))"

definition check_gate :: "sha \<Rightarrow> ('vk, 'sg) ecdsa \<Rightarrow> GateInputs \<Rightarrow> GateError + unit" where
  "check_gate H E inputs =
     (if j_context_id (g_attested inputs) \<noteq> g_expected_context_id inputs
      then Inl GateError.ContextMismatch
      else if j_threshold (g_attested inputs) < g_minimum_threshold inputs
      then Inl GateError.ThresholdTooLow
      else verify_presenter H E (g_attested inputs) (g_challenge_nonce inputs)
             (g_presenter_signature_der inputs))"

section \<open>Characterisations\<close>

lemma kernel_digest_bytes: "kernel_challenge_digest H nonce j = H (journal_challenge nonce j)"
  by (simp add: kernel_challenge_digest_def journal_challenge_def challenge_bytes_def)

lemma verify_presenter_Inr [result_iff]:
  "verify_presenter H E j nonce der = Inr u \<longleftrightarrow> presenter_signed H E j nonce der"
  by (auto simp: verify_presenter_def presenter_signed_def signature_valid_def Let_def
      challenge_digest_bytes kernel_digest_bytes split: option.splits)

lemma check_gate_Inr [result_iff]:
  "check_gate H E g = Inr u \<longleftrightarrow>
     j_context_id (g_attested g) = g_expected_context_id g
     \<and> g_minimum_threshold g \<le> j_threshold (g_attested g)
     \<and> presenter_signed H E (g_attested g) (g_challenge_nonce g) (g_presenter_signature_der g)"
  by (auto simp: check_gate_def verify_presenter_Inr not_less)

text \<open>The kernel never reports a used nullifier; tracking it is left to the integrator.\<close>

lemma check_gate_never_nullifier: "check_gate H E g \<noteq> Inl NullifierAlreadyUsed"
  by (auto simp: check_gate_def verify_presenter_def Let_def split: option.splits)

interpretation kernel: complete_gate
  "\<lambda>ctx m (j, nonce, der). check_gate H E \<lparr>g_attested = j, g_expected_context_id = ctx,
     g_minimum_threshold = m, g_challenge_nonce = nonce, g_presenter_signature_der = der\<rparr>"
  "\<lambda>(j, nonce, der). Some j"
  "\<lambda>(j, nonce, der). presenter_signed H E j nonce der"
  for H :: sha and E :: "('vk, 'sg) ecdsa"
  by unfold_locales (auto simp: check_gate_Inr is_ok_iff split: prod.splits)

section \<open>The off-chain errors seen from the kernel\<close>

text \<open>\<open>gate_error\<close> reads a kernel error as the off-chain one; the kernel has no receipt to reject.\<close>

fun gate_error :: "GateError \<Rightarrow> VerifyError option" where
  "gate_error GateError.ContextMismatch = Some VerifyError.ContextMismatch"
| "gate_error GateError.ThresholdTooLow = Some VerifyError.ThresholdTooLow"
| "gate_error GateError.InvalidPubkey = Some VerifyError.InvalidPubkey"
| "gate_error GateError.InvalidSignature = Some VerifyError.InvalidSignature"
| "gate_error GateError.SignatureRejected = Some VerifyError.SignatureRejected"
| "gate_error GateError.NullifierAlreadyUsed = None"

text \<open>On a receipt that verifies, the off-chain verifier and the kernel compute the same result,
  error by error.\<close>

lemma verify_presenter_agrees:
  "(case verify_presenter H E j nonce der of Inl e \<Rightarrow> gate_error e = Some e' | Inr _ \<Rightarrow> False) \<longleftrightarrow>
     verify_presenter_signature H E j nonce der = Inl e'"
  by (auto simp: verify_presenter_def verify_presenter_signature_def Let_def
      challenge_digest_bytes kernel_digest_bytes split: option.splits)

lemma credential_agrees_with_kernel:
  assumes "verify_receipt Z ID r = Inr j"
    and "g = \<lparr>g_attested = j, g_expected_context_id = ctx, g_minimum_threshold = m,
              g_challenge_nonce = nonce, g_presenter_signature_der = der\<rparr>"
  shows "verify_credential H E Z ID r nonce der ctx m =
    (case check_gate H E g of Inl e \<Rightarrow> Inl (the (gate_error e)) | Inr _ \<Rightarrow> Inr j)"
  using assms
  by (auto simp: verify_credential_def check_gate_def verify_presenter_def
      verify_presenter_signature_def Let_def challenge_digest_bytes kernel_digest_bytes
      split: option.splits)

end
