(* ===== verification/SpelGuests.thy ===== *)
theory SpelGuests
  imports VerifierKernel
begin

text \<open>
  The on-chain gates of \<^verbatim>\<open>crates/verifier-program-spel\<close>: the shallow guest, the v2 guest (chained
  call over the serialised journal), the deep guest, and the reference wrapper around the kernel.
  What the \<^verbatim>\<open>#[lez_program]\<close> macro generates around them (argument decoding, account constraints)
  and what the chain does with a declared call are outside the source; each handler is modelled
  from its arguments to its \<^verbatim>\<open>SpelResult\<close>.
\<close>

section \<open>SPEL results and chained calls\<close>

datatype SpelError = SpelCustom u32 string

record 'i chained_call =
  cc_program_id :: program_id
  cc_pre_states :: "account_with_metadata list"
  cc_instruction :: 'i

record ('acc, 'i) spel_output =
  so_accounts :: "'acc list"
  so_chained :: "'i chained_call list"

definition E_THRESHOLD_TOO_LOW :: u32 where "E_THRESHOLD_TOO_LOW = 3001"
definition E_CONTEXT_MISMATCH :: u32 where "E_CONTEXT_MISMATCH = 3004"
definition E_BAD_SIGNATURE :: u32 where "E_BAD_SIGNATURE = 3005"
definition E_BAD_PUBKEY_LEN :: u32 where "E_BAD_PUBKEY_LEN = 3006"
definition E_BAD_WITNESS :: u32 where "E_BAD_WITNESS = 3007"
definition E_NULLIFIER_MISMATCH :: u32 where "E_NULLIFIER_MISMATCH = 3008"
definition E_ANCHORED_BALANCE_TOO_LOW :: u32 where "E_ANCHORED_BALANCE_TOO_LOW = 3009"
definition E_PRESENTER_NOT_ATTESTED :: u32 where "E_PRESENTER_NOT_ATTESTED = 3010"
definition E_PRESENTER_NOT_NATIVE :: u32 where "E_PRESENTER_NOT_NATIVE = 3011"
definition E_GATE_TAG_MISMATCH :: u32 where "E_GATE_TAG_MISMATCH = 3012"

lemmas gate_codes = E_THRESHOLD_TOO_LOW_def E_CONTEXT_MISMATCH_def E_BAD_SIGNATURE_def
  E_BAD_PUBKEY_LEN_def E_BAD_WITNESS_def E_NULLIFIER_MISMATCH_def E_ANCHORED_BALANCE_TOO_LOW_def
  E_PRESENTER_NOT_ATTESTED_def E_PRESENTER_NOT_NATIVE_def E_GATE_TAG_MISMATCH_def

abbreviation bad_signature :: SpelError where
  "bad_signature \<equiv> SpelCustom E_BAD_SIGNATURE ''bad presenter signature''"

abbreviation bad_pubkey_len :: SpelError where
  "bad_pubkey_len \<equiv> SpelCustom E_BAD_PUBKEY_LEN
     ''presenter_pubkey: expected 33-byte compressed secp256k1 key''"

definition ATTESTATION_LEZ_PROGRAM_ID :: program_id where
  "ATTESTATION_LEZ_PROGRAM_ID = arr_of [1709468571, 4167293182, 4193013908, 557707240,
     918071939, 428160327, 3222408227, 3660016756]"

definition AUTHENTICATED_TRANSFER_PROGRAM_ID :: program_id where
  "AUTHENTICATED_TRANSFER_PROGRAM_ID = arr_of [3170810844, 2526647253, 999807262, 1205602179,
     3401962591, 3484055895, 2106546407, 1900691388]"

definition ATTESTATION_PROGRAM_ID :: program_id where
  "ATTESTATION_PROGRAM_ID = arr_of [2483799259, 2922882797, 876186261, 293393208, 1395530467,
     1389967705, 1615301448, 1302162100]"

text \<open>The arguments the three handlers share.\<close>

record gate_args =
  a_merkle_root :: b32
  a_threshold :: u128
  a_context_id :: b32
  a_presenter_pubkey :: bytes
  a_nullifier :: b32
  a_presenter_nonce :: b32
  a_presenter_signature_der :: bytes
  a_expected_context_id :: b32
  a_minimum_threshold :: u128

section \<open>The shallow guest\<close>

definition shallow_challenge_digest :: "sha \<Rightarrow> b32 \<Rightarrow> b32 \<Rightarrow> u128 \<Rightarrow> b32 \<Rightarrow> b33 \<Rightarrow> b32 \<Rightarrow> b32" where
  "shallow_challenge_digest H presenter_nonce merkle_root threshold context_id presenter_pubkey
     nullifier =
     H (bytes_of ''/lp-0005/v0.1/PresenterChallenge/'' @ elems presenter_nonce @ elems merkle_root
        @ u128_le threshold @ elems context_id @ elems presenter_pubkey @ elems nullifier)"

definition shallow_verify_signature ::
  "('vk, 'sg) ecdsa \<Rightarrow> b32 \<Rightarrow> b33 \<Rightarrow> bytes \<Rightarrow> SpelError + unit" where
  "shallow_verify_signature E digest presenter_pubkey signature_der =
     rbind (ok_or bad_signature (from_sec1_bytes E (elems presenter_pubkey))) (\<lambda>pubkey.
     rbind (ok_or bad_signature (from_der E signature_der)) (\<lambda>signature.
     if ecdsa_verify E pubkey (elems digest) signature then Inr () else Inl bad_signature))"

definition shallow_gated_check ::
  "sha \<Rightarrow> ('vk, 'sg) ecdsa \<Rightarrow> account_with_metadata \<Rightarrow> gate_args
   \<Rightarrow> SpelError + (account, unit) spel_output" where
  "shallow_gated_check H E presenter a =
    (if a_context_id a \<noteq> a_expected_context_id a
     then Inl (SpelCustom E_CONTEXT_MISMATCH ''context mismatch'')
     else if a_threshold a < a_minimum_threshold a
     then Inl (SpelCustom E_THRESHOLD_TOO_LOW ''threshold too low'')
     else (case try_into (a_presenter_pubkey a) of
         None \<Rightarrow> Inl bad_pubkey_len
       | Some pubkey_bytes \<Rightarrow>
           (let digest = shallow_challenge_digest H (a_presenter_nonce a) (a_merkle_root a)
                  (a_threshold a) (a_context_id a) pubkey_bytes (a_nullifier a)
            in rbind (shallow_verify_signature E digest pubkey_bytes (a_presenter_signature_der a))
                 (\<lambda>_. Inr \<lparr>so_accounts = [am_account presenter], so_chained = []\<rparr>))))"

section \<open>The v2 guest\<close>

definition canonical_journal_bytes :: "b32 \<Rightarrow> u128 \<Rightarrow> b32 \<Rightarrow> b33 \<Rightarrow> b32 \<Rightarrow> bytes" where
  "canonical_journal_bytes merkle_root threshold context_id presenter_pubkey nullifier =
     elems merkle_root @ u128_le threshold @ elems context_id @ elems presenter_pubkey
     @ elems nullifier"

definition v2_verify_signature ::
  "sha \<Rightarrow> ('vk, 'sg) ecdsa \<Rightarrow> bytes \<Rightarrow> b33 \<Rightarrow> b32 \<Rightarrow> bytes \<Rightarrow> SpelError + unit" where
  "v2_verify_signature H E journal_bytes presenter_pubkey presenter_nonce signature_der =
    (let journal_hash = H journal_bytes;
         challenge = elems presenter_nonce @ elems journal_hash;
         digest = H challenge
     in rbind (ok_or bad_signature (from_sec1_bytes E (elems presenter_pubkey))) (\<lambda>pubkey.
        rbind (ok_or bad_signature (from_der E signature_der)) (\<lambda>signature.
        if ecdsa_verify E pubkey (elems digest) signature then Inr () else Inl bad_signature)))"

definition v2_gated_check ::
  "sha \<Rightarrow> ('vk, 'sg) ecdsa \<Rightarrow> account_with_metadata \<Rightarrow> gate_args
   \<Rightarrow> SpelError + (account, bytes) spel_output" where
  "v2_gated_check H E presenter a =
    (if a_context_id a \<noteq> a_expected_context_id a
     then Inl (SpelCustom E_CONTEXT_MISMATCH ''context mismatch'')
     else if a_threshold a < a_minimum_threshold a
     then Inl (SpelCustom E_THRESHOLD_TOO_LOW ''threshold too low'')
     else (case try_into (a_presenter_pubkey a) of
         None \<Rightarrow> Inl bad_pubkey_len
       | Some pubkey_bytes \<Rightarrow>
           (let journal_bytes = canonical_journal_bytes (a_merkle_root a) (a_threshold a)
                  (a_context_id a) pubkey_bytes (a_nullifier a)
            in rbind (v2_verify_signature H E journal_bytes pubkey_bytes (a_presenter_nonce a)
                   (a_presenter_signature_der a))
                 (\<lambda>_. Inr \<lparr>so_accounts = [am_account presenter],
                    so_chained = [\<lparr>cc_program_id = ATTESTATION_PROGRAM_ID, cc_pre_states = [],
                                   cc_instruction = journal_bytes\<rparr>]\<rparr>))))"


section \<open>The reference wrapper\<close>

text \<open>\<^verbatim>\<open>crates/verifier-program-spel/src/lib.rs\<close> unwraps the kernel's verdict with
  \<^verbatim>\<open>expect("gate check")\<close>: a rejection is a panic, not a \<^verbatim>\<open>SpelError\<close>. The program id there is a
  placeholder of zeros.\<close>

datatype wrapper_panic = GateCheckFailed GateError

definition WRAPPER_ATTESTATION_PROGRAM_ID :: program_id where
  "WRAPPER_ATTESTATION_PROGRAM_ID = arr_rep 0"

definition wrapper_gated_check ::
  "sha \<Rightarrow> ('vk, 'sg) ecdsa \<Rightarrow> account_with_metadata \<Rightarrow> PublicJournal \<Rightarrow> b32 \<Rightarrow> bytes \<Rightarrow> b32 \<Rightarrow> u128
   \<Rightarrow> wrapper_panic + (account, PublicJournal) spel_output" where
  "wrapper_gated_check H E presenter attested_journal presenter_nonce presenter_signature_der
     expected_context_id minimum_threshold =
     rbind (map_err GateCheckFailed
        (check_gate H E \<lparr>g_attested = attested_journal, g_expected_context_id = expected_context_id,
           g_minimum_threshold = minimum_threshold, g_challenge_nonce = presenter_nonce,
           g_presenter_signature_der = presenter_signature_der\<rparr>))
       (\<lambda>_. Inr \<lparr>so_accounts = [am_account presenter],
              so_chained = [\<lparr>cc_program_id = WRAPPER_ATTESTATION_PROGRAM_ID, cc_pre_states = [],
                             cc_instruction = attested_journal\<rparr>]\<rparr>)"

section \<open>Characterisations\<close>

text \<open>The journal a call presents, when its key has the right length.\<close>

definition args_journal :: "'a gate_args_scheme \<Rightarrow> PublicJournal option" where
  "args_journal a = map_option (\<lambda>pk. \<lparr>j_merkle_root = a_merkle_root a, j_threshold = a_threshold a,
     j_context_id = a_context_id a, j_presenter_pubkey = pk, j_nullifier = a_nullifier a\<rparr>)
     (try_into (a_presenter_pubkey a))"

lemma args_journal_Some:
  "args_journal a = Some j \<longleftrightarrow> a_merkle_root a = j_merkle_root j \<and> a_threshold a = j_threshold j
     \<and> a_context_id a = j_context_id j \<and> a_presenter_pubkey a = elems (j_presenter_pubkey j)
     \<and> a_nullifier a = j_nullifier j"
  by (cases j) (auto simp: args_journal_def try_into_Some)

lemma args_journal_fields:
  "args_journal a = Some j \<Longrightarrow> a_context_id a = j_context_id j \<and> a_threshold a = j_threshold j"
  by (simp add: args_journal_Some)

lemma args_journal_None: "args_journal a = None \<longleftrightarrow> length (a_presenter_pubkey a) \<noteq> 33"
  by (simp add: args_journal_def try_into_None)

lemma shallow_digest_bytes:
  "shallow_challenge_digest H n r t c pk nf = H (challenge_bytes n r t c pk nf)"
  by (simp add: shallow_challenge_digest_def challenge_bytes_def)

lemma shallow_verify_signature_Inr [result_iff]:
  "shallow_verify_signature E digest pk der = Inr u \<longleftrightarrow> signature_valid E pk (elems digest) der"
  by (auto simp: shallow_verify_signature_def signature_valid_def result_iff split: if_splits)

lemma shallow_verify_signature_Inl:
  "shallow_verify_signature E digest pk der = Inl e \<longleftrightarrow>
     e = bad_signature \<and> \<not> signature_valid E pk (elems digest) der"
  by (auto simp: shallow_verify_signature_def signature_valid_def rbind_Inl ok_or_Inl ok_or_Inr
      split: if_splits) (metis option.exhaust)+

lemma shallow_gated_check_Inr:
  "shallow_gated_check H E p a = Inr out \<longleftrightarrow>
     a_context_id a = a_expected_context_id a \<and> a_minimum_threshold a \<le> a_threshold a
     \<and> (\<exists>j. args_journal a = Some j
          \<and> presenter_signed H E j (a_presenter_nonce a) (a_presenter_signature_der a))
     \<and> out = \<lparr>so_accounts = [am_account p], so_chained = []\<rparr>"
  by (auto simp: shallow_gated_check_def args_journal_def rbind_Inr shallow_verify_signature_Inr
      Let_def presenter_signed_def challenge_digest_bytes shallow_digest_bytes journal_challenge_def
      not_less split: option.splits)

lemma args_journal_policy [simp]:
  "args_journal (a\<lparr>a_expected_context_id := ctx\<rparr>) = args_journal a"
  "args_journal (a\<lparr>a_minimum_threshold := m\<rparr>) = args_journal a"
  by (simp_all add: args_journal_def)

definition args_signed :: "sha \<Rightarrow> ('vk, 'sg) ecdsa \<Rightarrow> 'a gate_args_scheme \<Rightarrow> bool" where
  "args_signed H E a = (case args_journal a of None \<Rightarrow> False
     | Some j \<Rightarrow> presenter_signed H E j (a_presenter_nonce a) (a_presenter_signature_der a))"

interpretation shallow: complete_gate
  "\<lambda>ctx m a. shallow_gated_check H E presenter
     (a\<lparr>a_expected_context_id := ctx, a_minimum_threshold := m\<rparr>)"
  "args_journal :: gate_args \<Rightarrow> PublicJournal option"
  "args_signed H E"
  for H :: sha and E :: "('vk, 'sg) ecdsa" and presenter :: account_with_metadata
  by unfold_locales
    (auto simp: shallow_gated_check_Inr is_ok_iff args_signed_def
      dest: args_journal_fields split: option.splits)

text \<open>The v2 guest signs a different message: \<open>H(nonce || H(journal))\<close>.\<close>

definition v2_challenge :: "sha \<Rightarrow> b32 \<Rightarrow> PublicJournal \<Rightarrow> bytes" where
  "v2_challenge H nonce j = elems nonce @ elems (H (canonical_journal_bytes (j_merkle_root j)
     (j_threshold j) (j_context_id j) (j_presenter_pubkey j) (j_nullifier j)))"

lemma length_v2_challenge [simp]: "length (v2_challenge H nonce j) = 64"
  by (simp add: v2_challenge_def)

definition v2_signed :: "sha \<Rightarrow> ('vk, 'sg) ecdsa \<Rightarrow> PublicJournal \<Rightarrow> b32 \<Rightarrow> bytes \<Rightarrow> bool" where
  "v2_signed H E j nonce der =
     signature_valid E (j_presenter_pubkey j) (elems (H (v2_challenge H nonce j))) der"

lemma v2_verify_signature_Inr:
  "v2_verify_signature H E jb pk nonce der = Inr u \<longleftrightarrow>
     signature_valid E pk (elems (H (elems nonce @ elems (H jb)))) der"
  by (auto simp: v2_verify_signature_def signature_valid_def result_iff Let_def split: if_splits)

lemma v2_gated_check_Inr:
  "v2_gated_check H E p a = Inr out \<longleftrightarrow>
     a_context_id a = a_expected_context_id a \<and> a_minimum_threshold a \<le> a_threshold a
     \<and> (\<exists>j. args_journal a = Some j \<and> v2_signed H E j (a_presenter_nonce a) (a_presenter_signature_der a)
          \<and> out = \<lparr>so_accounts = [am_account p],
                   so_chained = [\<lparr>cc_program_id = ATTESTATION_PROGRAM_ID, cc_pre_states = [],
                     cc_instruction = canonical_journal_bytes (j_merkle_root j) (j_threshold j)
                       (j_context_id j) (j_presenter_pubkey j) (j_nullifier j)\<rparr>]\<rparr>)"
  by (auto simp: v2_gated_check_def args_journal_def rbind_Inr v2_verify_signature_Inr
      Let_def v2_signed_def v2_challenge_def not_less split: option.splits)

interpretation v2: complete_gate
  "\<lambda>ctx m a. v2_gated_check H E presenter
     (a\<lparr>a_expected_context_id := ctx, a_minimum_threshold := m\<rparr>)"
  "args_journal :: gate_args \<Rightarrow> PublicJournal option"
  "\<lambda>a. case args_journal a of None \<Rightarrow> False
     | Some j \<Rightarrow> v2_signed H E j (a_presenter_nonce a) (a_presenter_signature_der a)"
  for H :: sha and E :: "('vk, 'sg) ecdsa" and presenter :: account_with_metadata
  by unfold_locales
    (auto simp: v2_gated_check_Inr is_ok_iff dest: args_journal_fields split: option.splits)

text \<open>So a presenter signature for one of the two schemes verifies the other's message only if two
  particular messages of different lengths collide.\<close>

lemma v2_digest_differs:
  "H (v2_challenge H nonce j) = H (journal_challenge nonce' j') \<Longrightarrow>
   collision H (v2_challenge H nonce j) (journal_challenge nonce' j')"
  by (rule collisionI) (auto simp: journal_challenge_def dest: arg_cong [where f = length])

lemma wrapper_gated_check_Inr:
  "wrapper_gated_check H E p j nonce der ctx m = Inr out \<longleftrightarrow>
     j_context_id j = ctx \<and> m \<le> j_threshold j \<and> presenter_signed H E j nonce der
     \<and> out = \<lparr>so_accounts = [am_account p],
              so_chained = [\<lparr>cc_program_id = arr_rep 0, cc_pre_states = [], cc_instruction = j\<rparr>]\<rparr>"
  by (auto simp: wrapper_gated_check_def result_iff WRAPPER_ATTESTATION_PROGRAM_ID_def)

interpretation wrapper: complete_gate
  "\<lambda>ctx m (j, nonce, der). wrapper_gated_check H E presenter j nonce der ctx m"
  "\<lambda>(j, nonce, der). Some j"
  "\<lambda>(j, nonce, der). presenter_signed H E j nonce der"
  for H :: sha and E :: "('vk, 'sg) ecdsa" and presenter :: account_with_metadata
  by unfold_locales (auto simp: wrapper_gated_check_Inr is_ok_iff split: prod.splits)

section \<open>The call a client builds from a journal\<close>

definition journal_args :: "PublicJournal \<Rightarrow> b32 \<Rightarrow> bytes \<Rightarrow> b32 \<Rightarrow> u128 \<Rightarrow> gate_args" where
  "journal_args j nonce der ctx m = \<lparr>a_merkle_root = j_merkle_root j, a_threshold = j_threshold j,
     a_context_id = j_context_id j, a_presenter_pubkey = elems (j_presenter_pubkey j),
     a_nullifier = j_nullifier j, a_presenter_nonce = nonce, a_presenter_signature_der = der,
     a_expected_context_id = ctx, a_minimum_threshold = m\<rparr>"

lemma journal_args_simps [simp]:
  "args_journal (journal_args j nonce der ctx m) = Some j"
  "a_context_id (journal_args j nonce der ctx m) = j_context_id j"
  "a_threshold (journal_args j nonce der ctx m) = j_threshold j"
  "a_expected_context_id (journal_args j nonce der ctx m) = ctx"
  "a_minimum_threshold (journal_args j nonce der ctx m) = m"
  "a_presenter_nonce (journal_args j nonce der ctx m) = nonce"
  "a_presenter_signature_der (journal_args j nonce der ctx m) = der"
  by (simp_all add: journal_args_def args_journal_Some)

end
