(* ===== verification/DeepGate.thy ===== *)
theory DeepGate
  imports SpelGuests
begin

text \<open>
  The deep guest
  (\<^verbatim>\<open>verifier-program-spel/methods/guest-deep/src/bin/attestation_verifier_deep.rs\<close>): the gate
  that is deployed on the privacy-preserving path. \<open>deep_gated_check\<close> is the handler with its ten
  checks in order; the decoder of \<open>witness_words\<close> (\<^verbatim>\<open>risc0_zkvm::serde::from_slice\<close>) is the
  parameter \<open>from_slice\<close>. A success declares one chained call, to the LEZ-native attestation
  program, whose run on exactly the declared instruction is \<open>lez_main\<close>. The handler returns the marker
  as given; its claim by \<^verbatim>\<open>init\<close> is code the macro generates and the chain enforces (\<open>MarkerChain\<close>).
\<close>

section \<open>The handler\<close>

record deep_args = gate_args +
  a_witness_words :: "u32 list"
  a_gate_tag :: b32

definition deep_challenge_digest :: "sha \<Rightarrow> b32 \<Rightarrow> b32 \<Rightarrow> u128 \<Rightarrow> b32 \<Rightarrow> b33 \<Rightarrow> b32 \<Rightarrow> b32" where
  "deep_challenge_digest H presenter_nonce merkle_root threshold context_id presenter_pubkey
     nullifier =
     H (bytes_of ''/lp-0005/v0.1/PresenterChallenge/'' @ elems presenter_nonce @ elems merkle_root
        @ u128_le threshold @ elems context_id @ elems presenter_pubkey @ elems nullifier)"

definition deep_verify_signature ::
  "('vk, 'sg) ecdsa \<Rightarrow> b32 \<Rightarrow> b33 \<Rightarrow> bytes \<Rightarrow> SpelError + unit" where
  "deep_verify_signature E digest presenter_pubkey signature_der =
     rbind (ok_or bad_signature (from_sec1_bytes E (elems presenter_pubkey))) (\<lambda>pubkey.
     rbind (ok_or bad_signature (from_der E signature_der)) (\<lambda>signature.
     if ecdsa_verify E pubkey (elems digest) signature then Inr () else Inl bad_signature))"

text \<open>Checks 5 to 11, which need the decoded witness.\<close>

definition deep_bind_witness ::
  "sha \<Rightarrow> account_with_metadata \<Rightarrow> account_with_metadata \<Rightarrow> deep_args \<Rightarrow> b33 \<Rightarrow> PrivateInputs
   \<Rightarrow> SpelError + (account_with_metadata, AttestInstruction) spel_output" where
  "deep_bind_witness H gate_marker presenter a pubkey_bytes witness =
    (let statement = \<lparr>s_merkle_root = a_merkle_root a, s_threshold = a_threshold a,
           s_context_id = a_context_id a, s_presenter_pubkey = pubkey_bytes\<rparr>;
         account_id = derive_account_id H (w_npk witness) (w_identifier witness);
         derived = compute_nullifier H pubkey_bytes (a_context_id a) account_id
     in if derived \<noteq> a_nullifier a
        then Inl (SpelCustom E_NULLIFIER_MISMATCH ''nullifier does not match the supplied witness'')
        else if am_account_id presenter \<noteq> account_id
        then Inl (SpelCustom E_PRESENTER_NOT_ATTESTED
          ''the signing account is not the account the witness attests to'')
        else if acc_program_owner (am_account presenter) \<noteq> AUTHENTICATED_TRANSFER_PROGRAM_ID
        then Inl (SpelCustom E_PRESENTER_NOT_NATIVE
          ''the presenter account is not owned by the pinned token program'')
        else if acc_balance (am_account presenter) < a_minimum_threshold a
        then Inl (SpelCustom E_ANCHORED_BALANCE_TOO_LOW
          ''the attested account's on-chain balance is below the gate's minimum'')
        else if compute_gate_tag H (a_nullifier a) (a_minimum_threshold a) (a_expected_context_id a)
                \<noteq> a_gate_tag a
        then Inl (SpelCustom E_GATE_TAG_MISMATCH
          ''gate_tag does not commit to the enforced threshold and context'')
        else Inr \<lparr>so_accounts = [gate_marker, presenter],
               so_chained = [\<lparr>cc_program_id = ATTESTATION_LEZ_PROGRAM_ID, cc_pre_states = [],
                  cc_instruction = \<lparr>i_witness = witness, i_statement = statement\<rparr>\<rparr>]\<rparr>)"

definition deep_gated_check ::
  "sha \<Rightarrow> ('vk, 'sg) ecdsa \<Rightarrow> (u32 list \<Rightarrow> PrivateInputs option)
   \<Rightarrow> account_with_metadata \<Rightarrow> account_with_metadata \<Rightarrow> deep_args
   \<Rightarrow> SpelError + (account_with_metadata, AttestInstruction) spel_output" where
  "deep_gated_check H E from_slice gate_marker presenter a =
    (if a_context_id a \<noteq> a_expected_context_id a
     then Inl (SpelCustom E_CONTEXT_MISMATCH ''context mismatch'')
     else if a_threshold a < a_minimum_threshold a
     then Inl (SpelCustom E_THRESHOLD_TOO_LOW ''threshold too low'')
     else (case try_into (a_presenter_pubkey a) of
         None \<Rightarrow> Inl bad_pubkey_len
       | Some pubkey_bytes \<Rightarrow>
           (let digest = deep_challenge_digest H (a_presenter_nonce a) (a_merkle_root a)
                  (a_threshold a) (a_context_id a) pubkey_bytes (a_nullifier a)
            in rbind (deep_verify_signature E digest pubkey_bytes (a_presenter_signature_der a))
                 (\<lambda>_. rbind (ok_or (SpelCustom E_BAD_WITNESS ''witness_words did not decode'')
                               (from_slice (a_witness_words a)))
                        (deep_bind_witness H gate_marker presenter a pubkey_bytes)))))"

section \<open>Characterisations\<close>

lemma deep_digest_bytes:
  "deep_challenge_digest H n r t c pk nf = H (challenge_bytes n r t c pk nf)"
  by (simp add: deep_challenge_digest_def challenge_bytes_def)

lemma deep_verify_signature_shallow: "deep_verify_signature = shallow_verify_signature"
  by (simp add: fun_eq_iff deep_verify_signature_def shallow_verify_signature_def)

text \<open>What checks 5 to 9 establish about a decoded witness.\<close>

definition witness_bound :: "sha \<Rightarrow> account_with_metadata \<Rightarrow> u128 \<Rightarrow> PublicJournal \<Rightarrow> PrivateInputs \<Rightarrow> bool"
  where
  "witness_bound H presenter floor j w \<longleftrightarrow>
     j_nullifier j = compute_nullifier H (j_presenter_pubkey j) (j_context_id j) (witness_account_id H w)
     \<and> am_account_id presenter = witness_account_id H w
     \<and> acc_program_owner (am_account presenter) = AUTHENTICATED_TRANSFER_PROGRAM_ID
     \<and> floor \<le> acc_balance (am_account presenter)"

definition declared_call :: "PublicJournal \<Rightarrow> PrivateInputs \<Rightarrow> AttestInstruction chained_call" where
  "declared_call j w = \<lparr>cc_program_id = ATTESTATION_LEZ_PROGRAM_ID, cc_pre_states = [],
     cc_instruction = \<lparr>i_witness = w, i_statement = statement_of j\<rparr>\<rparr>"

lemma deep_bind_witness_Inr:
  assumes "args_journal a = Some j"
  shows "deep_bind_witness H marker p a (j_presenter_pubkey j) w = Inr out \<longleftrightarrow>
     witness_bound H p (a_minimum_threshold a) j w
     \<and> a_gate_tag a = compute_gate_tag H (j_nullifier j) (a_minimum_threshold a) (a_expected_context_id a)
     \<and> out = \<lparr>so_accounts = [marker, p], so_chained = [declared_call j w]\<rparr>"
  using assms
  by (auto simp: deep_bind_witness_def witness_bound_def declared_call_def statement_of_def
      witness_account_id_def args_journal_Some Let_def not_less)

lemma deep_gated_check_Inr:
  "deep_gated_check H E fs marker p a = Inr out \<longleftrightarrow>
     a_context_id a = a_expected_context_id a \<and> a_minimum_threshold a \<le> a_threshold a
     \<and> (\<exists>j w. args_journal a = Some j
          \<and> presenter_signed H E j (a_presenter_nonce a) (a_presenter_signature_der a)
          \<and> fs (a_witness_words a) = Some w
          \<and> witness_bound H p (a_minimum_threshold a) j w
          \<and> a_gate_tag a =
              compute_gate_tag H (j_nullifier j) (a_minimum_threshold a) (a_expected_context_id a)
          \<and> out = \<lparr>so_accounts = [marker, p], so_chained = [declared_call j w]\<rparr>)"
  (is "?lhs \<longleftrightarrow> ?rhs")
proof (cases "args_journal a")
  case None
  then show ?thesis
    by (auto simp: deep_gated_check_def args_journal_def split: option.splits)
next
  case (Some j)
  then have key: "try_into (a_presenter_pubkey a) = Some (j_presenter_pubkey j)"
    and dig: "deep_challenge_digest H (a_presenter_nonce a) (a_merkle_root a) (a_threshold a)
      (a_context_id a) (j_presenter_pubkey j) (a_nullifier a)
      = presenter_challenge_digest H (a_presenter_nonce a) j"
    by (simp_all add: args_journal_Some deep_digest_bytes challenge_digest_bytes
        journal_challenge_def)
  show ?thesis
    unfolding deep_gated_check_def key option.case dig Let_def deep_verify_signature_shallow
    by (auto simp: rbind_Inr ok_or_Inr Some deep_bind_witness_Inr [OF Some]
        shallow_verify_signature_Inr presenter_signed_def)
qed

lemma deep_gate_facts:
  assumes "deep_gated_check H E fs marker p a = Inr out"
  obtains j where "args_journal a = Some j"
    "a_nullifier a = compute_nullifier H (j_presenter_pubkey j) (a_context_id a) (am_account_id p)"
    "a_gate_tag a = compute_gate_tag H (a_nullifier a) (a_minimum_threshold a) (a_expected_context_id a)"
proof -
  from assms obtain j w where j: "args_journal a = Some j"
    and w: "witness_bound H p (a_minimum_threshold a) j w"
    and tag: "a_gate_tag a
      = compute_gate_tag H (j_nullifier j) (a_minimum_threshold a) (a_expected_context_id a)"
    unfolding deep_gated_check_Inr by blast
  from j have "a_nullifier a = j_nullifier j" "a_context_id a = j_context_id j"
    by (simp_all add: args_journal_Some)
  with w tag show ?thesis by (intro that [OF j]) (simp_all add: witness_bound_def)
qed

definition deep_valid :: "sha \<Rightarrow> ('vk, 'sg) ecdsa \<Rightarrow> (u32 list \<Rightarrow> PrivateInputs option)
    \<Rightarrow> account_with_metadata \<Rightarrow> deep_args \<Rightarrow> bool" where
  "deep_valid H E fs p a =
     (case (args_journal a, fs (a_witness_words a)) of
        (Some j, Some w) \<Rightarrow>
          presenter_signed H E j (a_presenter_nonce a) (a_presenter_signature_der a)
          \<and> witness_bound H p 0 j w
      | _ \<Rightarrow> False)"

interpretation deep: sound_gate
  "\<lambda>ctx m a. deep_gated_check H E fs marker presenter
     (a\<lparr>a_expected_context_id := ctx, a_minimum_threshold := m\<rparr>)"
  "args_journal :: deep_args \<Rightarrow> PublicJournal option"
  "deep_valid H E fs presenter"
  for H :: sha and E :: "('vk, 'sg) ecdsa" and fs :: "u32 list \<Rightarrow> PrivateInputs option"
    and marker presenter :: account_with_metadata
proof unfold_locales
  fix ctx m a out
  assume "deep_gated_check H E fs marker presenter
    (a\<lparr>a_expected_context_id := ctx, a_minimum_threshold := m\<rparr>) = Inr out"
  then obtain j w where *: "args_journal a = Some j" "a_context_id a = ctx" "m \<le> a_threshold a"
    "presenter_signed H E j (a_presenter_nonce a) (a_presenter_signature_der a)"
    "fs (a_witness_words a) = Some w" "witness_bound H presenter m j w"
    by (auto simp: deep_gated_check_Inr)
  then have "witness_bound H presenter 0 j w" by (simp add: witness_bound_def)
  with * args_journal_fields [OF *(1)]
  show "deep_valid H E fs presenter a \<and>
    (\<exists>j. args_journal a = Some j \<and> j_context_id j = ctx \<and> m \<le> j_threshold j)"
    by (simp add: deep_valid_def)
qed

section \<open>Composition with the attestation program\<close>

text \<open>
  The privacy circuit runs the declared program on the declared instruction; the transaction
  exists only if that run succeeds.
\<close>

definition deep_transaction ::
  "sha \<Rightarrow> ('vk, 'sg) ecdsa \<Rightarrow> (u32 list \<Rightarrow> PrivateInputs option)
   \<Rightarrow> account_with_metadata \<Rightarrow> account_with_metadata \<Rightarrow> deep_args \<Rightarrow> bool" where
  "deep_transaction H E fs marker presenter a =
     (case deep_gated_check H E fs marker presenter a of
        Inl _ \<Rightarrow> False
      | Inr out \<Rightarrow> list_all (\<lambda>c. is_ok (lez_main H
          \<lparr>pi_self_program_id = cc_program_id c, pi_caller_program_id = None,
           pi_pre_states = cc_pre_states c, pi_instruction = cc_instruction c\<rparr> []))
          (so_chained out))"

lemma deep_transaction_iff:
  "deep_transaction H E fs marker p a \<longleftrightarrow>
     (\<exists>j w. args_journal a = Some j
        \<and> deep_gated_check H E fs marker p a
            = Inr \<lparr>so_accounts = [marker, p], so_chained = [declared_call j w]\<rparr>
        \<and> fs (a_witness_words a) = Some w
        \<and> attest H w (statement_of j) = Inr (j_nullifier j) \<and> j_nullifier j \<noteq> arr_rep 0)"
proof -
  have run: "is_ok (lez_main H \<lparr>pi_self_program_id = x, pi_caller_program_id = y,
        pi_pre_states = z, pi_instruction = \<lparr>i_witness = w, i_statement = statement_of j\<rparr>\<rparr> ws)
      \<longleftrightarrow> attest H w (statement_of j) = Inr (j_nullifier j) \<and> j_nullifier j \<noteq> arr_rep 0"
    if "witness_bound H p m j w" for j w m x y z ws
    using that by (auto simp: is_ok_iff lez_main_Inr attest_Inr witness_bound_def)
  show ?thesis
  proof (cases "deep_gated_check H E fs marker p a")
    case (Inr out)
    then obtain j w where "args_journal a = Some j" "fs (a_witness_words a) = Some w"
      "witness_bound H p (a_minimum_threshold a) j w"
      and out: "out = \<lparr>so_accounts = [marker, p], so_chained = [declared_call j w]\<rparr>"
      by (auto simp: deep_gated_check_Inr)
    then show ?thesis
      by (auto simp: deep_transaction_def Inr declared_call_def run)
  qed (simp add: deep_transaction_def)
qed

section \<open>The call a client builds\<close>

definition deep_journal_args :: "sha \<Rightarrow> PublicJournal \<Rightarrow> b32 \<Rightarrow> bytes \<Rightarrow> b32 \<Rightarrow> u128 \<Rightarrow> u32 list
    \<Rightarrow> deep_args" where
  "deep_journal_args H j nonce der ctx m ws = gate_args.extend (journal_args j nonce der ctx m)
     (deep_args.fields ws (compute_gate_tag H (j_nullifier j) m ctx))"

lemma deep_journal_args_simps [simp]:
  "args_journal (deep_journal_args H j nonce der ctx m ws) = Some j"
  "a_merkle_root (deep_journal_args H j nonce der ctx m ws) = j_merkle_root j"
  "a_nullifier (deep_journal_args H j nonce der ctx m ws) = j_nullifier j"
  "a_context_id (deep_journal_args H j nonce der ctx m ws) = j_context_id j"
  "a_threshold (deep_journal_args H j nonce der ctx m ws) = j_threshold j"
  "a_expected_context_id (deep_journal_args H j nonce der ctx m ws) = ctx"
  "a_minimum_threshold (deep_journal_args H j nonce der ctx m ws) = m"
  "a_presenter_nonce (deep_journal_args H j nonce der ctx m ws) = nonce"
  "a_presenter_signature_der (deep_journal_args H j nonce der ctx m ws) = der"
  "a_witness_words (deep_journal_args H j nonce der ctx m ws) = ws"
  "a_gate_tag (deep_journal_args H j nonce der ctx m ws) = compute_gate_tag H (j_nullifier j) m ctx"
  by (simp_all add: deep_journal_args_def journal_args_def args_journal_Some gate_args.defs
      deep_args.defs)

end
