(* ===== verification/SequencerClient.thy ===== *)
theory SequencerClient
  imports CommitmentSet
begin

text \<open>
  \<^verbatim>\<open>crates/sequencer-client/src/lib.rs\<close>: the JSON-RPC client. serde_json values are an abstract
  type with the accessors the code uses (\<open>json\<close>), typed deserialisation and the HTTP exchange are
  parameters (\<open>rpc\<close>, \<open>hex\<close>). The decoders of membership proofs, the fold of a proof to a root, and
  the root freshness check are the code's own.
\<close>

section \<open>Values, requests, errors\<close>

record MembershipProof =
  m_leaf_index :: u64
  m_siblings :: "b32 list"

record 'v json =
  is_null :: "'v \<Rightarrow> bool"
  as_object :: "'v \<Rightarrow> (string \<Rightarrow> 'v option) option"
  as_array :: "'v \<Rightarrow> 'v list option"
  as_u64 :: "'v \<Rightarrow> u64 option"
  as_str :: "'v \<Rightarrow> string option"
  null_value :: 'v
  u64_value :: "u64 \<Rightarrow> 'v"
  str_value :: "string \<Rightarrow> 'v"
  arr_value :: "'v list \<Rightarrow> 'v"

record 'v Request =
  rq_jsonrpc :: string
  rq_id :: u64
  rq_method :: string
  rq_params :: 'v

definition request_new :: "u64 \<Rightarrow> string \<Rightarrow> 'v \<Rightarrow> 'v Request" where
  "request_new i method params =
     \<lparr>rq_jsonrpc = ''2.0'', rq_id = i, rq_method = method, rq_params = params\<rparr>"

record JsonRpcErrorBody =
  eb_code :: "64 word"
  eb_message :: string

record 'v JsonRpcEnvelope =
  ev_jsonrpc :: string
  ev_id :: u64
  ev_result :: "'v option"
  ev_error :: "JsonRpcErrorBody option"

datatype ClientError = Http string | Decode string | Rpc "64 word" string | EmptyResponse

text \<open>The HTTP exchange: status and transport errors are \<open>Http\<close>; a body that does not parse as an
  envelope is one too (reqwest's \<^verbatim>\<open>json()\<close> reports it as its own error).\<close>

record 'v rpc =
  rpc_post :: "string \<Rightarrow> 'v Request \<Rightarrow> string + 'v JsonRpcEnvelope"
  u64_from_value :: "'v \<Rightarrow> string + u64"
  string_from_value :: "'v \<Rightarrow> string + string"

definition DEFAULT_TESTNET_URL :: string where
  "DEFAULT_TESTNET_URL = ''https://testnet.lez.logos.co''"

text \<open>The client: its endpoint and the timeout of its HTTP client, in seconds. The operations below take
  the endpoint. Building the HTTP client is \<^verbatim>\<open>reqwest\<close>'s and does not fail here.\<close>

record sequencer_client =
  client_endpoint :: string
  client_timeout :: nat

definition sequencer_new :: "string \<Rightarrow> sequencer_client" where
  "sequencer_new endpoint = \<lparr>client_endpoint = endpoint, client_timeout = 30\<rparr>"

definition public_testnet :: sequencer_client where
  "public_testnet = sequencer_new DEFAULT_TESTNET_URL"

section \<open>Calls\<close>

definition call :: "'v json \<Rightarrow> 'v rpc \<Rightarrow> string \<Rightarrow> ('v \<Rightarrow> string + 'x) \<Rightarrow> string \<Rightarrow> 'v
    \<Rightarrow> ClientError + 'x" where
  "call J C endpoint from_value method params =
     rbind (map_err Http (rpc_post C endpoint (request_new 1 method params))) (\<lambda>envelope.
       case ev_error envelope of
         Some err \<Rightarrow> Inl (Rpc (eb_code err) (eb_message err))
       | None \<Rightarrow>
           (let raw = (case ev_result envelope of None \<Rightarrow> null_value J | Some v \<Rightarrow> v)
            in map_err Decode (from_value raw)))"

text \<open>Deserialising into \<^verbatim>\<open>Option<Value>\<close> maps null to \<open>None\<close>; into \<^verbatim>\<open>Value\<close> it is the identity.\<close>

definition option_value :: "'v json \<Rightarrow> 'v \<Rightarrow> string + 'v option" where
  "option_value J v = Inr (if is_null J v then None else Some v)"

definition get_last_block_id :: "'v json \<Rightarrow> 'v rpc \<Rightarrow> string \<Rightarrow> ClientError + u64" where
  "get_last_block_id J C endpoint =
     call J C endpoint (u64_from_value C) ''getLastBlockId'' (arr_value J [])"

definition get_transaction :: "'v json \<Rightarrow> 'v rpc \<Rightarrow> string \<Rightarrow> string \<Rightarrow> ClientError + string option"
  where
  "get_transaction J C endpoint tx_hash =
     rbind (call J C endpoint Inr ''getTransaction'' (arr_value J [str_value J tx_hash]))
       (\<lambda>v. Inr (as_str J v))"

text \<open>Deserialising into \<^verbatim>\<open>AccountSnapshot\<close>, an untagged enum: the \<open>Public\<close> variant is tried first and
  takes any object whose \<open>nonce\<close> and \<open>data\<close>, where present, have the right type (both default when
  absent); \<open>Raw\<close> takes everything else.\<close>

datatype 'v AccountSnapshot = Public u64 bytes | Raw 'v

definition defaulted :: "('v \<Rightarrow> 'x option) \<Rightarrow> 'x \<Rightarrow> 'v option \<Rightarrow> 'x option" where
  "defaulted from_value d field = (case field of None \<Rightarrow> Some d | Some v \<Rightarrow> from_value v)"

definition byte_value :: "'v json \<Rightarrow> 'v \<Rightarrow> u8 option" where
  "byte_value J v = Option.bind (as_u64 J v) (\<lambda>n. if n \<le> 255 then Some (ucast n) else None)"

definition byte_vec_value :: "'v json \<Rightarrow> 'v \<Rightarrow> bytes option" where
  "byte_vec_value J v = Option.bind (as_array J v) (\<lambda>vs. those (map (byte_value J) vs))"

definition snapshot_from_value :: "'v json \<Rightarrow> 'v \<Rightarrow> 'v AccountSnapshot" where
  "snapshot_from_value J v =
    (case as_object J v of
       None \<Rightarrow> Raw v
     | Some obj \<Rightarrow>
         (case (defaulted (as_u64 J) 0 (obj ''nonce''), defaulted (byte_vec_value J) [] (obj ''data'')) of
            (Some nonce, Some data) \<Rightarrow> Public nonce data
          | _ \<Rightarrow> Raw v))"

definition get_account :: "'v json \<Rightarrow> 'v rpc \<Rightarrow> string \<Rightarrow> string
    \<Rightarrow> ClientError + 'v AccountSnapshot option" where
  "get_account J C endpoint account_id =
     rbind (call J C endpoint (option_value J) ''getAccount'' (arr_value J [str_value J account_id]))
       (\<lambda>v. case v of None \<Rightarrow> Inr None | Some v \<Rightarrow> Inr (Some (snapshot_from_value J v)))"

definition send_transaction :: "'v json \<Rightarrow> 'v rpc \<Rightarrow> string \<Rightarrow> string \<Rightarrow> ClientError + string" where
  "send_transaction J C endpoint tx_blob_base64 =
     call J C endpoint (string_from_value C) ''sendTransaction''
       (arr_value J [str_value J tx_blob_base64])"

section \<open>Decoding membership proofs\<close>

type_synonym hex_decoder = "string \<Rightarrow> string + bytes"

fun collect :: "('e + 'a) list \<Rightarrow> 'e + 'a list" where
  "collect [] = Inr []"
| "collect (r # rs) = rbind r (\<lambda>a. rbind (collect rs) (\<lambda>as. Inr (a # as)))"

definition rpc_error :: "string \<Rightarrow> ClientError" where
  "rpc_error message = Rpc (-1) message"

definition decode_byte :: "'v json \<Rightarrow> nat \<Rightarrow> 'v \<Rightarrow> ClientError + u8" where
  "decode_byte J i b =
     ok_or (rpc_error (''sibling['' @ dec i @ ''] contains a non-byte value''))
       (Option.bind (as_u64 J b) (\<lambda>n. if n \<le> 255 then Some (ucast n) else None))"

definition decode_hash :: "'v json \<Rightarrow> hex_decoder \<Rightarrow> nat \<Rightarrow> 'v \<Rightarrow> ClientError + b32" where
  "decode_hash J hex i v =
     rbind (case as_array J v of
         Some arr \<Rightarrow> collect (map (decode_byte J i) arr)
       | None \<Rightarrow>
           (case as_str J v of
              Some hex_str \<Rightarrow>
                map_err (\<lambda>e. rpc_error (''sibling['' @ dec i @ ''] hex decode: '' @ e)) (hex hex_str)
            | None \<Rightarrow> Inl (rpc_error
                (''sibling['' @ dec i @ ''] is neither a byte array nor a hex string''))))
       (\<lambda>bytes. ok_or (rpc_error (''sibling['' @ dec i @ ''] length '' @ dec (length bytes) @ '' != 32''))
          (try_into bytes))"

fun decode_hashes :: "'v json \<Rightarrow> hex_decoder \<Rightarrow> nat \<Rightarrow> 'v list \<Rightarrow> ClientError + b32 list" where
  "decode_hashes J hex i [] = Inr []"
| "decode_hashes J hex i (v # vs) =
     rbind (decode_hash J hex i v) (\<lambda>h. rbind (decode_hashes J hex (Suc i) vs) (\<lambda>hs. Inr (h # hs)))"

definition decode_hash_array :: "'v json \<Rightarrow> hex_decoder \<Rightarrow> 'v list \<Rightarrow> ClientError + b32 list" where
  "decode_hash_array J hex values = decode_hashes J hex 0 values"

definition decode_proof_tuple :: "'v json \<Rightarrow> hex_decoder \<Rightarrow> 'v \<Rightarrow> ClientError + MembershipProof" where
  "decode_proof_tuple J hex v =
    (case as_object J v of
       Some obj \<Rightarrow>
         rbind (ok_or (rpc_error ''missing leaf_index in MembershipProof object'')
             (Option.bind (obj ''leaf_index'') (as_u64 J))) (\<lambda>leaf_index.
         rbind (ok_or (rpc_error ''missing siblings in MembershipProof object'')
             (Option.bind (obj ''siblings'') (as_array J))) (\<lambda>siblings_arr.
         rbind (decode_hash_array J hex siblings_arr) (\<lambda>siblings.
         Inr \<lparr>m_leaf_index = leaf_index, m_siblings = siblings\<rparr>)))
     | None \<Rightarrow>
         (case as_array J v of
            Some arr \<Rightarrow>
              if length arr \<noteq> 2
              then Inl (rpc_error (''MembershipProof tuple has '' @ dec (length arr)
                     @ '' elements (expected 2)''))
              else
                rbind (ok_or (rpc_error ''leaf_index is not a u64'') (as_u64 J (arr ! 0))) (\<lambda>leaf_index.
                rbind (ok_or (rpc_error ''siblings is not an array'') (as_array J (arr ! 1)))
                  (\<lambda>siblings_arr.
                rbind (decode_hash_array J hex siblings_arr) (\<lambda>siblings.
                Inr \<lparr>m_leaf_index = leaf_index, m_siblings = siblings\<rparr>)))
          | None \<Rightarrow> Inl (rpc_error ''MembershipProof is neither object nor tuple'')))"

section \<open>Proofs and roots\<close>

fun fold_loop :: "sha \<Rightarrow> b32 \<Rightarrow> u64 \<Rightarrow> b32 list \<Rightarrow> b32" where
  "fold_loop H node idx [] = node"
| "fold_loop H node idx (sib # sibs) =
     fold_loop H
       (if idx AND 1 = 0 then H (elems node @ elems sib) else H (elems sib @ elems node))
       (drop_bit 1 idx) sibs"

definition fold_membership_proof :: "sha \<Rightarrow> b32 \<Rightarrow> MembershipProof \<Rightarrow> b32" where
  "fold_membership_proof H commitment p =
     fold_loop H (H (elems commitment)) (m_leaf_index p) (m_siblings p)"

definition get_proof_for_commitment :: "'v json \<Rightarrow> 'v rpc \<Rightarrow> hex_decoder \<Rightarrow> string \<Rightarrow> b32
    \<Rightarrow> ClientError + MembershipProof option" where
  "get_proof_for_commitment J C hex endpoint commitment =
    (let bytes = arr_value J (map (\<lambda>b. u64_value J (ucast b)) (elems commitment))
     in rbind (call J C endpoint (option_value J) ''getProofForCommitment'' (arr_value J [bytes]))
          (\<lambda>v. case v of None \<Rightarrow> Inr None
             | Some v \<Rightarrow> rbind (decode_proof_tuple J hex v) (\<lambda>p. Inr (Some p))))"

definition commitment_set_root :: "sha \<Rightarrow> 'v json \<Rightarrow> 'v rpc \<Rightarrow> hex_decoder \<Rightarrow> string \<Rightarrow> b32
    \<Rightarrow> ClientError + b32 option" where
  "commitment_set_root H J C hex endpoint known_commitment =
     rbind (get_proof_for_commitment J C hex endpoint known_commitment) (\<lambda>proof.
       case proof of None \<Rightarrow> Inr None
       | Some proof \<Rightarrow> Inr (Some (fold_membership_proof H known_commitment proof)))"

definition is_root_current :: "sha \<Rightarrow> 'v json \<Rightarrow> 'v rpc \<Rightarrow> hex_decoder \<Rightarrow> string \<Rightarrow> b32 \<Rightarrow> b32
    \<Rightarrow> ClientError + bool" where
  "is_root_current H J C hex endpoint merkle_root known_commitment =
     rbind (commitment_set_root H J C hex endpoint known_commitment)
       (\<lambda>root. Inr (root = Some merkle_root))"

section \<open>Calls\<close>

lemma call_Inr:
  "call J C endpoint f method params = Inr x \<longleftrightarrow>
     (\<exists>ev. rpc_post C endpoint (request_new 1 method params) = Inr ev \<and> ev_error ev = None
        \<and> f (case ev_result ev of None \<Rightarrow> null_value J | Some v \<Rightarrow> v) = Inr x)"
  by (auto simp: call_def rbind_Inr map_err_Inr Let_def split: option.splits)

lemma call_error_first:
  "rpc_post C endpoint (request_new 1 method params) = Inr ev \<Longrightarrow> ev_error ev = Some err \<Longrightarrow>
   call J C endpoint f method params = Inl (Rpc (eb_code err) (eb_message err))"
  by (simp add: call_def)

lemma call_never_EmptyResponse: "call J C endpoint f method params \<noteq> Inl EmptyResponse"
  by (auto simp: call_def rbind_Inl map_err_Inl Let_def split: option.splits)

text \<open>When an account reads as \<open>Public\<close>: in particular every object without the two fields, a
  program-derived or private account included, reads as a public account with nonce 0 and no
  data. The raw JSON is kept only for non-objects and for fields of the wrong type.\<close>

lemma snapshot_Public_iff:
  "snapshot_from_value J v = Public nonce data \<longleftrightarrow>
     (\<exists>obj. as_object J v = Some obj \<and> defaulted (as_u64 J) 0 (obj ''nonce'') = Some nonce
        \<and> defaulted (byte_vec_value J) [] (obj ''data'') = Some data)"
  by (auto simp: snapshot_from_value_def split: option.splits)

lemma snapshot_without_fields:
  assumes "as_object J v = Some obj" and "obj ''nonce'' = None" and "obj ''data'' = None"
  shows "snapshot_from_value J v = Public 0 []"
  using assms by (simp add: snapshot_Public_iff defaulted_def)

lemma get_account_without_fields:
  assumes "rpc_post C endpoint (request_new 1 ''getAccount'' (arr_value J [str_value J account_id])) = Inr ev"
    and "ev_error ev = None" and "ev_result ev = Some v" and "\<not> is_null J v"
    and "as_object J v = Some obj" and "obj ''nonce'' = None" and "obj ''data'' = None"
  shows "get_account J C endpoint account_id = Inr (Some (Public 0 []))"
  using assms(1-4) snapshot_without_fields [OF assms(5-7)]
  by (simp add: get_account_def call_def option_value_def)

section \<open>The decoder inverts the sequencer's encoding\<close>

definition json_ok :: "'v json \<Rightarrow> bool" where
  "json_ok J \<longleftrightarrow>
     (\<forall>vs. as_array J (arr_value J vs) = Some vs \<and> as_object J (arr_value J vs) = None
        \<and> \<not> is_null J (arr_value J vs))
     \<and> (\<forall>n. as_u64 J (u64_value J n) = Some n) \<and> is_null J (null_value J)"

definition encode_bytes :: "'v json \<Rightarrow> bytes \<Rightarrow> 'v" where
  "encode_bytes J bs = arr_value J (map (\<lambda>b. u64_value J (ucast b)) bs)"

definition encode_proof :: "'v json \<Rightarrow> MembershipProof \<Rightarrow> 'v" where
  "encode_proof J p = arr_value J [u64_value J (m_leaf_index p),
     arr_value J (map (\<lambda>s. encode_bytes J (elems s)) (m_siblings p))]"

lemma decode_byte_encoded:
  assumes "json_ok J"
  shows "decode_byte J i (u64_value J (ucast (b :: u8))) = Inr b"
proof -
  have "unat b < 2 ^ LENGTH(8)" by (rule unsigned_less)
  then have "unat (ucast b :: u64) \<le> 255"
    by (simp add: unsigned_ucast_eq take_bit_nat_eq_self)
  then have "(ucast b :: u64) \<le> 255" by (simp add: word_le_nat_alt)
  moreover have "(ucast (ucast b :: u64) :: u8) = b" by (rule bit_word_eqI) (simp add: bit_simps)
  ultimately show ?thesis using assms by (simp add: decode_byte_def json_ok_def)
qed

lemma collect_map_Inr: "(\<And>a. a \<in> set xs \<Longrightarrow> f a = Inr (g a)) \<Longrightarrow> collect (map f xs) = Inr (map g xs)"
  by (induction xs) auto

lemma decode_hash_encoded:
  assumes "json_ok J"
  shows "decode_hash J hex i (encode_bytes J (elems (s :: b32))) = Inr s"
proof -
  have "collect (map (decode_byte J i) (map (\<lambda>b. u64_value J (ucast b)) (elems s))) = Inr (elems s)"
    using decode_byte_encoded [OF assms] by (simp add: comp_def collect_map_Inr [where g = "\<lambda>b. b"])
  moreover have "as_array J (arr_value J vs) = Some vs" for vs
    using assms by (simp add: json_ok_def)
  ultimately show ?thesis by (simp add: decode_hash_def encode_bytes_def)
qed

lemma decode_hashes_encoded:
  "json_ok J \<Longrightarrow> decode_hashes J hex i (map (\<lambda>s. encode_bytes J (elems s)) ss) = Inr ss"
  by (induction ss arbitrary: i) (simp_all add: decode_hash_encoded)

lemma decode_encode_proof:
  assumes "json_ok J"
  shows "decode_proof_tuple J hex (encode_proof J p) = Inr p"
  using assms decode_hashes_encoded [OF assms]
  by (simp add: decode_proof_tuple_def encode_proof_def decode_hash_array_def json_ok_def)

text \<open>A successful decode has one hash per array entry.\<close>

lemma decode_hashes_length: "decode_hashes J hex i vs = Inr hs \<Longrightarrow> length hs = length vs"
  by (induction vs arbitrary: i hs) (auto simp: rbind_Inr)

section \<open>The fold and the root\<close>

lemma fold_loop_merkle: "fold_loop H node idx sibs = merkle_loop H node idx sibs"
  by (induction sibs arbitrary: node idx) (simp_all add: hash_two_def)

lemma fold_membership_is_path:
  "fold_membership_proof H c p =
     fold_merkle_path H (leaf_hash_of H c) (m_leaf_index p) (m_siblings p)"
  by (simp add: fold_membership_proof_def fold_merkle_path_def leaf_hash_of_def fold_loop_merkle)

text \<open>A sequencer that holds the ledger \<open>t\<close> answers for the commitment of leaf \<open>idx\<close> at depth \<open>d\<close>
  with its authentication path.\<close>

definition proof_request :: "'v json \<Rightarrow> b32 \<Rightarrow> 'v Request" where
  "proof_request J c =
     request_new 1 ''getProofForCommitment'' (arr_value J [encode_bytes J (elems c)])"

definition sequencer_holds :: "sha \<Rightarrow> 'v json \<Rightarrow> 'v rpc \<Rightarrow> string \<Rightarrow> shielded_account mtree
    \<Rightarrow> b32 \<Rightarrow> bool" where
  "sequencer_holds H J C endpoint t c \<longleftrightarrow>
     (\<exists>idx d ev. leaf_at (map_mtree (commit H) t) (turns idx d) = Some c
        \<and> rpc_post C endpoint (proof_request J c) = Inr ev \<and> ev_error ev = None
        \<and> ev_result ev = Some (encode_proof J \<lparr>m_leaf_index = idx,
            m_siblings = authentication_path H (map_mtree (commit H) t) (turns idx d)\<rparr>))"

lemma get_proof_reply:
  assumes "json_ok J" and "rpc_post C endpoint (proof_request J c) = Inr ev"
    and "ev_error ev = None" and "ev_result ev = Some (encode_proof J p)"
  shows "get_proof_for_commitment J C hex endpoint c = Inr (Some p)"
proof -
  have "\<not> is_null J (encode_proof J p)"
    using assms(1) by (simp add: json_ok_def encode_proof_def)
  then show ?thesis
    using assms
    by (simp add: get_proof_for_commitment_def call_def proof_request_def encode_bytes_def
        option_value_def decode_encode_proof)
qed

lemma commitment_set_root_honest:
  assumes "json_ok J" and "sequencer_holds H J C endpoint t c"
  shows "commitment_set_root H J C hex endpoint c = Inr (Some (ledger_root H t))"
proof -
  from assms(2) obtain idx d ev where
    leaf: "leaf_at (map_mtree (commit H) t) (turns idx d) = Some c"
    and reply: "rpc_post C endpoint (proof_request J c) = Inr ev" "ev_error ev = None"
      "ev_result ev = Some (encode_proof J \<lparr>m_leaf_index = idx,
            m_siblings = authentication_path H (map_mtree (commit H) t) (turns idx d)\<rparr>)"
    unfolding sequencer_holds_def by blast
  from get_proof_reply [OF assms(1) reply] fold_authentication_path [OF leaf, of H]
  show ?thesis
    by (simp add: commitment_set_root_def fold_membership_is_path ledger_root_def)
qed

lemma is_root_current_honest:
  assumes "json_ok J" and "sequencer_holds H J C endpoint t c"
  shows "is_root_current H J C hex endpoint root c = Inr (root = ledger_root H t)"
  using commitment_set_root_honest [OF assms] by (auto simp: is_root_current_def)

text \<open>An envelope with neither result nor error is read as an unknown commitment.\<close>

lemma empty_envelope_unknown:
  assumes "json_ok J" and "rpc_post C endpoint (proof_request J c) = Inr ev"
    and "ev_error ev = None" and "ev_result ev = None"
  shows "get_proof_for_commitment J C hex endpoint c = Inr None"
  using assms
  by (simp add: get_proof_for_commitment_def call_def proof_request_def encode_bytes_def
      option_value_def json_ok_def)

end
