(* ===== verification/DeliveryTransport.thy ===== *)
theory DeliveryTransport
  imports OffchainVerifier
begin

text \<open>
  \<^verbatim>\<open>crates/delivery-transport/src/lib.rs\<close> and \<^verbatim>\<open>inmem.rs\<close>: the credential envelope, its codec
  (bincode, a parameter) and the in-process bus, here one call at a time (\<open>SharedBus\<close> has it under
  concurrent callers). The bus is a map from topics to queues; \<open>recv\<close> on
  an empty queue blocks, which is a value of its own. \<open>fifo_bus\<close> is the contract of a transport
  that delivers each topic in order; the in-process bus interprets it.
\<close>

section \<open>Envelopes\<close>

record 'r CredentialEnvelope =
  e_receipt :: 'r
  e_challenge_nonce :: b32
  e_presenter_signature_der :: bytes
  e_app_meta :: bytes

datatype TransportError = Upstream string | Encode string | Decode string

record 'r bincode =
  receipt_to_vec :: "'r \<Rightarrow> string + bytes"
  envelope_to_vec :: "'r CredentialEnvelope \<Rightarrow> string + bytes"
  envelope_from_slice :: "bytes \<Rightarrow> string + ('r CredentialEnvelope \<times> nat)"

definition envelope_journal :: "'r zkvm \<Rightarrow> 'r CredentialEnvelope \<Rightarrow> TransportError + PublicJournal"
  where
  "envelope_journal Z self = map_err Decode (journal_decode Z (e_receipt self))"

text \<open>The fingerprint; \<open>None\<close> is the panic on a receipt that cannot be encoded.\<close>

definition fingerprint_bytes :: "'r bincode \<Rightarrow> 'r CredentialEnvelope \<Rightarrow> bytes option" where
  "fingerprint_bytes B self = (case receipt_to_vec B (e_receipt self) of
     Inl _ \<Rightarrow> None
   | Inr bytes \<Rightarrow> Some (bytes_of ''/lp-0005/v0.1/EnvelopeFingerprint/''
       @ elems (e_challenge_nonce self) @ e_presenter_signature_der self @ e_app_meta self @ bytes))"

definition fingerprint :: "sha \<Rightarrow> 'r bincode \<Rightarrow> 'r CredentialEnvelope \<Rightarrow> b32 option" where
  "fingerprint H B self = map_option H (fingerprint_bytes B self)"

definition encode_envelope :: "'r bincode \<Rightarrow> 'r CredentialEnvelope \<Rightarrow> TransportError + bytes" where
  "encode_envelope B envelope = map_err Encode (envelope_to_vec B envelope)"

definition decode_envelope :: "'r bincode \<Rightarrow> bytes \<Rightarrow> TransportError + 'r CredentialEnvelope" where
  "decode_envelope B bs =
     map_err Decode (rbind (envelope_from_slice B bs) (\<lambda>(v, _). Inr v))"

text \<open>bincode's documented round trip.\<close>

definition bincode_ok :: "'r bincode \<Rightarrow> bool" where
  "bincode_ok B \<longleftrightarrow> (\<forall>e bs. envelope_to_vec B e = Inr bs \<longrightarrow>
     (\<exists>n. envelope_from_slice B bs = Inr (e, n)))"

lemma decode_encode_envelope:
  "bincode_ok B \<Longrightarrow> encode_envelope B e = Inr bs \<Longrightarrow> decode_envelope B bs = Inr e"
  by (fastforce simp: bincode_ok_def encode_envelope_def decode_envelope_def map_err_Inr)

lemma fingerprint_nonce:
  assumes "fingerprint H B e = Some x" and "fingerprint H B e' = Some x"
  shows "e_challenge_nonce e = e_challenge_nonce e'
    \<or> (\<exists>m m'. fingerprint_bytes B e = Some m \<and> fingerprint_bytes B e' = Some m' \<and> collision H m m')"
proof -
  from assms obtain m m' where m: "fingerprint_bytes B e = Some m" "fingerprint_bytes B e' = Some m'"
    and "H m = H m'" by (auto simp: fingerprint_def)
  from hash_eqD [of H, OF this(3)] m show ?thesis
    by (auto simp: fingerprint_bytes_def split: sum.splits)
qed

text \<open>Signature and metadata are hashed without their lengths: moving bytes over the boundary between
  them makes another envelope with the same fingerprint.\<close>

lemma fingerprint_boundary:
  "fingerprint H B \<lparr>e_receipt = r, e_challenge_nonce = n, e_presenter_signature_der = d @ x,
       e_app_meta = m\<rparr>
   = fingerprint H B \<lparr>e_receipt = r, e_challenge_nonce = n, e_presenter_signature_der = d,
       e_app_meta = x @ m\<rparr>"
  by (simp add: fingerprint_def fingerprint_bytes_def split: sum.splits)

section \<open>The in-process bus\<close>

type_synonym 'm bus = "string \<rightharpoonup> 'm list"

datatype 'x polled = Blocked | Ready 'x

definition channel_for :: "'m bus \<Rightarrow> string \<Rightarrow> 'm bus \<times> 'm list" where
  "channel_for inner topic =
     (case inner topic of None \<Rightarrow> (inner(topic \<mapsto> []), []) | Some queue \<Rightarrow> (inner, queue))"

definition inmem_send :: "'m bus \<Rightarrow> string \<Rightarrow> 'm \<Rightarrow> 'm bus \<times> (TransportError + unit)" where
  "inmem_send inner topic envelope =
     (case channel_for inner topic of (inner, queue) \<Rightarrow>
        (inner(topic \<mapsto> queue @ [envelope]), Inr ()))"

definition inmem_recv :: "'m bus \<Rightarrow> string \<Rightarrow> 'm bus \<times> (TransportError + 'm option) polled" where
  "inmem_recv inner topic =
     (case channel_for inner topic of (inner, queue) \<Rightarrow>
        (case queue of
           [] \<Rightarrow> (inner, Blocked)
         | envelope # rest \<Rightarrow> (inner(topic \<mapsto> rest), Ready (Inr (Some envelope)))))"

section \<open>The Qt bridge stub\<close>

text \<open>\<^verbatim>\<open>qt_bridge.rs\<close>, behind a feature flag: the helper process is started, but nothing is wired up.
  The environment variable and the process launcher are arguments.\<close>

definition helper_path :: "string option \<Rightarrow> string" where
  "helper_path env = (case env of Some p \<Rightarrow> p | None \<Rightarrow> ''logos-delivery-helper'')"

definition qt_spawn :: "(string \<Rightarrow> string + 'child) \<Rightarrow> string option \<Rightarrow> TransportError + 'child" where
  "qt_spawn launch env = map_err (\<lambda>e. Upstream (''spawn helper: '' @ e)) (launch (helper_path env))"

definition qt_send :: "string \<Rightarrow> 'r CredentialEnvelope \<Rightarrow> TransportError + unit" where
  "qt_send topic envelope = Inl (Upstream ''qt-bridge not wired up yet (task #16)'')"

definition qt_recv :: "string \<Rightarrow> TransportError + 'r CredentialEnvelope option" where
  "qt_recv topic = Inl (Upstream ''qt-bridge not wired up yet (task #16)'')"

section \<open>The contract of an ordered bus\<close>

fun send_all :: "('s \<Rightarrow> string \<Rightarrow> 'm \<Rightarrow> 's \<times> ('e + unit)) \<Rightarrow> 's \<Rightarrow> (string \<times> 'm) list \<Rightarrow> 's" where
  "send_all send s [] = s"
| "send_all send s ((t, m) # ms) = send_all send (fst (send s t m)) ms"

fun recv_n :: "('s \<Rightarrow> string \<Rightarrow> 's \<times> ('e + 'm option) polled) \<Rightarrow> string \<Rightarrow> nat \<Rightarrow> 's
    \<Rightarrow> 's \<times> ('e + 'm option) polled list" where
  "recv_n recv t 0 s = (s, [])"
| "recv_n recv t (Suc n) s =
     (case recv s t of (s', m) \<Rightarrow> (case recv_n recv t n s' of (s'', ms) \<Rightarrow> (s'', m # ms)))"

definition sent_on :: "string \<Rightarrow> (string \<times> 'm) list \<Rightarrow> 'm list" where
  "sent_on t msgs = map snd (filter (\<lambda>(t', _). t' = t) msgs)"

locale fifo_bus =
  fixes send :: "'s \<Rightarrow> string \<Rightarrow> 'm \<Rightarrow> 's \<times> ('e + unit)"
    and recv :: "'s \<Rightarrow> string \<Rightarrow> 's \<times> ('e + 'm option) polled"
    and pending :: "'s \<Rightarrow> string \<Rightarrow> 'm list"
  assumes send_pending: "send s t m = (s', res) \<Longrightarrow>
      pending s' t' = (if t' = t then pending s t @ [m] else pending s t')"
    and recv_pending: "recv s t = (s', out) \<Longrightarrow>
      (case pending s t of
         [] \<Rightarrow> out = Blocked \<and> pending s' = pending s
       | m # ms \<Rightarrow> out = Ready (Inr (Some m)) \<and> pending s' = (pending s)(t := ms))"
begin

lemma pending_send_all:
  "pending (send_all send s msgs) t = pending s t @ map snd (filter (\<lambda>(t', _). t' = t) msgs)"
proof (induction msgs arbitrary: s)
  case (Cons x msgs)
  obtain t' m where x: "x = (t', m)" by (cases x)
  obtain s' res where "send s t' m = (s', res)" by (cases "send s t' m")
  with Cons.IH [of s'] send_pending [OF this, of t] show ?case by (simp add: x)
qed simp

lemma recv_n_pending:
  "n \<le> length (pending s t) \<Longrightarrow>
   snd (recv_n recv t n s) = map (\<lambda>m. Ready (Inr (Some m))) (take n (pending s t))
   \<and> pending (fst (recv_n recv t n s)) = (pending s)(t := drop n (pending s t))"
proof (induction n arbitrary: s)
  case (Suc n)
  obtain s' res where recv: "recv s t = (s', res)" by (cases "recv s t")
  from Suc.prems obtain m ms where p: "pending s t = m # ms" by (cases "pending s t") auto
  from recv_pending [OF recv] have res: "res = Ready (Inr (Some m))"
    and s': "pending s' = (pending s)(t := ms)" by (simp_all add: p)
  from Suc.IH [of s'] Suc.prems show ?case
    by (simp add: recv res p s' case_prod_beta fun_eq_iff)
qed simp

text \<open>Everything sent on a topic is received there, once, in order, whatever was sent on others.\<close>

lemma delivered_in_order:
  assumes "pending s t = []"
  shows "snd (recv_n recv t (length (sent_on t msgs)) (send_all send s msgs))
    = map (\<lambda>m. Ready (Inr (Some m))) (sent_on t msgs)"
  using recv_n_pending [of "length (sent_on t msgs)" "send_all send s msgs" t] assms
  by (simp add: pending_send_all sent_on_def)

lemma empty_blocks: "pending s t = [] \<Longrightarrow> snd (recv s t) = Blocked"
  using recv_pending [of s t] by (cases "recv s t") auto

end

definition bus_pending :: "'m bus \<Rightarrow> string \<Rightarrow> 'm list" where
  "bus_pending inner topic = (case inner topic of None \<Rightarrow> [] | Some queue \<Rightarrow> queue)"

lemma bus_pending_update [simp]:
  "bus_pending (inner(topic \<mapsto> queue)) = (bus_pending inner)(topic := queue)"
  by (simp add: bus_pending_def fun_eq_iff)

lemma channel_for_pending:
  assumes "channel_for inner topic = (inner', queue)"
  shows "queue = bus_pending inner topic \<and> bus_pending inner' = bus_pending inner"
proof (cases "inner topic")
  case None
  with assms have "inner' = inner(topic \<mapsto> [])" and "queue = []"
    by (simp_all add: channel_for_def)
  with None show ?thesis by (simp add: fun_eq_iff) (simp add: bus_pending_def)
next
  case (Some q)
  with assms show ?thesis by (simp add: channel_for_def bus_pending_def)
qed

interpretation inmem: fifo_bus inmem_send inmem_recv bus_pending
  by unfold_locales
    (auto simp: inmem_send_def inmem_recv_def dest!: channel_for_pending
      split: prod.splits list.splits)

end
