(* ===== verification/WakuRest.thy ===== *)
theory WakuRest
  imports DeliveryTransport
begin

text \<open>
  \<^verbatim>\<open>crates/delivery-transport/src/waku_rest.rs\<close>: the transport over a Waku node's REST interface,
  with its own base64 codec and percent encoding. HTTP and JSON are the parameters of a record
  \<open>waku_node\<close>: what a POST, a DELETE and a GET answer, and serde_json's accessors on a decoded body.
  Strings are lists of bytes (as characters).
\<close>

section \<open>Content topics\<close>

definition CONTENT_TOPIC :: string where
  "CONTENT_TOPIC = ''/lp-0005/1/attestation/proto''"

definition content_topic_for :: "string \<Rightarrow> string" where
  "content_topic_for room = ''/lp-0005/1/attestation-'' @ room @ ''/proto''"

lemma content_topic_for_inject [simp]:
  "content_topic_for a = content_topic_for b \<longleftrightarrow> a = b"
  by (simp add: content_topic_for_def)

section \<open>Percent encoding\<close>

definition unreserved :: "char \<Rightarrow> bool" where
  "unreserved c \<longleftrightarrow> of_char c \<in> {65..90::nat} \<or> of_char c \<in> {97..122::nat}
     \<or> of_char c \<in> {48..57::nat} \<or> c \<in> {CHR ''-'', CHR ''_'', CHR ''.'', CHR ''~''}"

definition hex_digit_upper :: "nat \<Rightarrow> char" where
  "hex_digit_upper d = (if d < 10 then char_of (48 + d) else char_of (55 + d))"

definition encode_char :: "char \<Rightarrow> string" where
  "encode_char c = (if unreserved c then [c]
     else (let b = of_char c :: nat
           in [CHR ''%'', hex_digit_upper (b div 16), hex_digit_upper (b mod 16)]))"

definition encode_topic :: "string \<Rightarrow> string" where
  "encode_topic topic = concat (map encode_char topic)"

section \<open>Base64\<close>

definition b64_table :: string where
  "b64_table = ''ABCDEFGHIJKLMNOPQRSTUVWXYZabcdefghijklmnopqrstuvwxyz0123456789+/''"

fun chunks3 :: "'a list \<Rightarrow> 'a list list" where
  "chunks3 (a # b # c # rest) = [a, b, c] # chunks3 rest"
| "chunks3 [] = []"
| "chunks3 [a] = [[a]]"
| "chunks3 [a, b] = [[a, b]]"

definition b64_symbol :: "u32 \<Rightarrow> char" where
  "b64_symbol n = b64_table ! unat (n AND 63)"

definition b64_chunk :: "bytes \<Rightarrow> string" where
  "b64_chunk c =
    (let b0 = c ! 0;
         b1 = (if length c > 1 then c ! 1 else 0);
         b2 = (if length c > 2 then c ! 2 else 0);
         n = push_bit 16 (ucast b0) OR push_bit 8 (ucast b1) OR ucast b2 :: u32
     in [b64_symbol (drop_bit 18 n), b64_symbol (drop_bit 12 n),
         if length c > 1 then b64_symbol (drop_bit 6 n) else CHR ''='',
         if length c > 2 then b64_symbol n else CHR ''=''])"

definition b64_encode :: "bytes \<Rightarrow> string" where
  "b64_encode bs = concat (map b64_chunk (chunks3 bs))"

definition b64_idx :: "u8 list" where
  "b64_idx = fold (\<lambda>(i, c) idx. idx[of_char c := of_nat i]) (enumerate 0 b64_table)
     (replicate 256 255)"

definition ascii_space :: "char \<Rightarrow> bool" where
  "ascii_space c \<longleftrightarrow> of_char c \<in> {32, 9, 10, 12, 13 :: nat}"

text \<open>The loop: \<open>acc\<close> is a \<^verbatim>\<open>u32\<close> whose high bits are shifted out, \<open>bits\<close> counts the bits not yet
  emitted. \<open>dbg\<close> is the \<^verbatim>\<open>Debug\<close> rendering of a character.\<close>

fun b64_decode_loop :: "(char \<Rightarrow> string) \<Rightarrow> u32 \<Rightarrow> nat \<Rightarrow> bytes \<Rightarrow> string \<Rightarrow> TransportError + bytes"
  where
  "b64_decode_loop dbg acc bits out [] = Inr out"
| "b64_decode_loop dbg acc bits out (c # cs) =
    (let v = b64_idx ! of_char c
     in if v = 255
        then Inl (Decode (''invalid base64 character '' @ dbg c @ '' in Waku payload''))
        else (let acc = push_bit 6 acc OR ucast v;
                  bits = bits + 6
              in if bits \<ge> 8
                 then b64_decode_loop dbg acc (bits - 8) (out @ [ucast (drop_bit (bits - 8) acc)]) cs
                 else b64_decode_loop dbg acc bits out cs))"

definition b64_decode :: "(char \<Rightarrow> string) \<Rightarrow> string \<Rightarrow> TransportError + bytes" where
  "b64_decode dbg s =
     b64_decode_loop dbg 0 0 [] (filter (\<lambda>c. c \<noteq> CHR ''='' \<and> \<not> ascii_space c) s)"

section \<open>The REST calls\<close>

record waku_message =
  wm_payload :: string
  wm_content_topic :: string
  wm_version :: nat
  wm_ephemeral :: bool

datatype http_error = Status nat "string option" | Transport string

record 'v waku_node =
  post_message :: "string \<Rightarrow> waku_message \<Rightarrow> http_error + unit"
  post_topics :: "string \<Rightarrow> string list \<Rightarrow> string + unit"
  delete_topics :: "string \<Rightarrow> string list \<Rightarrow> string + unit"
  get_messages :: "string \<Rightarrow> string + (string + 'v list)"
  get_info :: "string \<Rightarrow> string + (string + 'v)"
  json_get :: "'v \<Rightarrow> string \<Rightarrow> 'v option"
  json_item :: "'v \<Rightarrow> nat \<Rightarrow> 'v option"
  json_str :: "'v \<Rightarrow> string option"

text \<open>A transport: its endpoint, which the operations below take, and the timeout of its HTTP agent in
  seconds. \<^verbatim>\<open>new\<close> (and \<^verbatim>\<open>default\<close>) is given the value of \<^verbatim>\<open>WAKU_REST_ENDPOINT\<close>.\<close>

definition DEFAULT_ENDPOINT :: string where
  "DEFAULT_ENDPOINT = ''http://127.0.0.1:8645''"

record waku_rest_transport =
  waku_endpoint :: string
  waku_timeout :: nat

definition waku_with_endpoint :: "string \<Rightarrow> waku_rest_transport" where
  "waku_with_endpoint endpoint = \<lparr>waku_endpoint = endpoint, waku_timeout = 30\<rparr>"

definition waku_new :: "string option \<Rightarrow> waku_rest_transport" where
  "waku_new env = waku_with_endpoint
     (case env of Some endpoint \<Rightarrow> endpoint | None \<Rightarrow> DEFAULT_ENDPOINT)"

definition health :: "'v waku_node \<Rightarrow> string \<Rightarrow> TransportError + string" where
  "health N endpoint =
     rbind (map_err (\<lambda>e. Upstream (''Waku node unreachable at '' @ endpoint @ '': '' @ e))
        (get_info N (endpoint @ ''/debug/v1/info''))) (\<lambda>reply.
     rbind (map_err (\<lambda>e. Decode (''debug/v1/info was not JSON: '' @ e)) reply) (\<lambda>body.
     ok_or (Decode ''no listenAddresses in node info'')
       (Option.bind (Option.bind (json_get N body ''listenAddresses'') (\<lambda>v. json_item N v 0))
          (json_str N))))"

definition subscribe :: "'v waku_node \<Rightarrow> string \<Rightarrow> string \<Rightarrow> TransportError + unit" where
  "subscribe N endpoint topic =
     map_err (\<lambda>e. Upstream (''subscribe to '' @ topic @ '': '' @ e))
       (post_topics N (endpoint @ ''/relay/v1/auto/subscriptions'') [topic])"

definition unsubscribe :: "'v waku_node \<Rightarrow> string \<Rightarrow> string \<Rightarrow> TransportError + unit" where
  "unsubscribe N endpoint topic =
     map_err (\<lambda>e. Upstream (''unsubscribe from '' @ topic @ '': '' @ e))
       (delete_topics N (endpoint @ ''/relay/v1/auto/subscriptions'') [topic])"

definition message_body :: "bytes \<Rightarrow> string \<Rightarrow> waku_message" where
  "message_body bs topic = \<lparr>wm_payload = b64_encode bs, wm_content_topic = topic,
     wm_version = 0, wm_ephemeral = False\<rparr>"

definition waku_send :: "'v waku_node \<Rightarrow> 'r bincode \<Rightarrow> string \<Rightarrow> string \<Rightarrow> 'r CredentialEnvelope
    \<Rightarrow> TransportError + unit" where
  "waku_send N B endpoint topic envelope =
     rbind (encode_envelope B envelope) (\<lambda>bs.
       case post_message N (endpoint @ ''/relay/v1/auto/messages'') (message_body bs topic) of
         Inr _ \<Rightarrow> Inr ()
       | Inl (Status code r) \<Rightarrow>
           (let detail = (case r of None \<Rightarrow> [] | Some d \<Rightarrow> d)
            in if str_contains detail ''NoPeersToPublish''
               then Inl (Upstream (''the Waku node at '' @ endpoint
                      @ '' has no relay peers, so nothing was published. Peer it with ''
                      @ ''--staticnode=<listenAddress of another node>.''))
               else Inl (Upstream (''publish to '' @ topic @ '' failed with HTTP '' @ dec code
                      @ '': '' @ detail)))
       | Inl (Transport e) \<Rightarrow> Inl (Upstream (''publish to '' @ topic @ '': '' @ e)))"

definition waku_recv :: "'v waku_node \<Rightarrow> 'r bincode \<Rightarrow> (char \<Rightarrow> string) \<Rightarrow> string \<Rightarrow> string
    \<Rightarrow> TransportError + 'r CredentialEnvelope option" where
  "waku_recv N B dbg endpoint topic =
    (let url = endpoint @ ''/relay/v1/auto/messages/'' @ encode_topic topic
     in rbind (map_err (\<lambda>e. Upstream (''poll '' @ topic @ '': '' @ e)) (get_messages N url)) (\<lambda>reply.
        rbind (map_err (\<lambda>e. Decode (''message list was not JSON: '' @ e)) reply) (\<lambda>msgs.
        case msgs of [] \<Rightarrow> Inr None
        | first # _ \<Rightarrow>
            rbind (ok_or (Decode ''Waku message had no payload'')
                (Option.bind (json_get N first ''payload'') (json_str N))) (\<lambda>payload.
            rbind (b64_decode dbg payload) (\<lambda>bs.
            rbind (decode_envelope B bs) (\<lambda>e. Inr (Some e)))))))"

section \<open>Base64 round trip\<close>

lemma bit_63: "bit (63 :: u32) k \<longleftrightarrow> k < 6"
  using bit_mask_iff [where 'a = u32, of 6 k] by (auto simp: mask_eq_exp_minus_1)

lemma bit_63_u8: "bit (63 :: u8) k \<longleftrightarrow> k < 6"
  using bit_mask_iff [where 'a = u8, of 6 k] by (auto simp: mask_eq_exp_minus_1)

lemma below_8: "k < (8::nat) \<Longrightarrow> k = 0 \<or> k = 1 \<or> k = 2 \<or> k = 3 \<or> k = 4 \<or> k = 5 \<or> k = 6 \<or> k = 7"
  by auto

definition pack24 :: "u8 \<Rightarrow> u8 \<Rightarrow> u8 \<Rightarrow> u32" where
  "pack24 a b c = push_bit 16 (ucast a) OR push_bit 8 (ucast b) OR ucast c"

definition shift_in :: "u32 \<Rightarrow> u32 \<Rightarrow> u32" where
  "shift_in acc x = push_bit 6 acc OR (x AND 63)"

text \<open>Shifting the four sextets of \<open>pack24 a b c\<close> into any accumulator leaves the three bytes in its
  low 24 bits.\<close>

lemma sextets:
  fixes a b c :: u8 and acc :: u32
  defines "n \<equiv> pack24 a b c"
  defines "a2 \<equiv> shift_in (shift_in acc (drop_bit 18 n)) (drop_bit 12 n)"
  shows "(ucast (drop_bit 4 a2) :: u8) = a"
    and "(ucast (drop_bit 2 (shift_in a2 (drop_bit 6 n))) :: u8) = b"
    and "(ucast (shift_in (shift_in a2 (drop_bit 6 n)) n) :: u8) = c"
proof -
  have beyond: "\<not> bit x k" if "8 \<le> k" for x :: u8 and k
    using that by (auto dest: bit_imp_le_length)
  note d = a2_def n_def shift_in_def pack24_def
  show "(ucast (drop_bit 4 a2) :: u8) = a"
    unfolding d by (rule bit_word_eqI) (auto simp: bit_simps bit_63 beyond dest!: below_8,
      simp_all add: numeral_2_eq_2 numeral_3_eq_3)
  show "(ucast (drop_bit 2 (shift_in a2 (drop_bit 6 n))) :: u8) = b"
    unfolding d by (rule bit_word_eqI) (auto simp: bit_simps bit_63 beyond dest!: below_8)
  show "(ucast (shift_in (shift_in a2 (drop_bit 6 n)) n) :: u8) = c"
    unfolding d by (rule bit_word_eqI) (auto simp: bit_simps bit_63 beyond dest!: below_8)
qed

lemma fold_table_other:
  "x \<notin> f ` set T \<Longrightarrow>
   fold (\<lambda>(i, c) idx. idx[f c := g i]) (enumerate k T) idx ! x = idx ! x"
  by (induction T arbitrary: k idx) auto

lemma fold_table_at:
  "distinct (map f T) \<Longrightarrow> \<forall>c \<in> set T. f c < length idx \<Longrightarrow> i < length T \<Longrightarrow>
   fold (\<lambda>(i, c) idx. idx[f c := g i]) (enumerate k T) idx ! f (T ! i) = g (k + i)"
proof (induction T arbitrary: k idx i)
  case (Cons c T)
  show ?case
  proof (cases i)
    case 0
    with Cons.prems show ?thesis by (simp add: fold_table_other)
  next
    case (Suc i')
    with Cons.prems Cons.IH [of "idx[f c := g k]" i' "Suc k"] show ?thesis by simp
  qed
qed simp

lemma b64_table_distinct: "distinct b64_table"
  by (simp add: b64_table_def)

lemma length_b64_table [simp]: "length b64_table = 64"
  by (simp add: b64_table_def)

lemma b64_idx_table: "i < 64 \<Longrightarrow> b64_idx ! of_char (b64_table ! i) = of_nat i"
  unfolding b64_idx_def
  by (subst fold_table_at)
    (simp_all add: distinct_map b64_table_distinct inj_on_def nat_of_char_less_256)

lemma b64_table_clean: "list_all (\<lambda>c. c \<noteq> CHR ''='' \<and> \<not> ascii_space c) b64_table"
  by code_simp

lemma sextet_less: "unat (n AND 63 :: u32) < 64"
proof -
  have "n AND 63 \<le> (63 :: u32)" by (rule word_and_le1)
  then show ?thesis by (simp add: word_le_nat_alt)
qed

lemma b64_idx_symbol: "b64_idx ! of_char (b64_symbol n) = ucast (n AND 63)"
proof -
  have "b64_idx ! of_char (b64_symbol n) = of_nat (unat (n AND 63))"
    unfolding b64_symbol_def by (rule b64_idx_table [OF sextet_less])
  then show ?thesis by simp
qed

lemma sextet_ucast: "(ucast (ucast (n AND 63 :: u32) :: u8) :: u32) = n AND 63"
  by (rule bit_word_eqI)
    (auto simp only: bit_unsigned_iff bit_and_iff bit_63 possible_bit_word, simp_all)

lemma sextet_valid: "(ucast (n AND 63 :: u32) :: u8) \<noteq> 255"
proof
  assume "(ucast (n AND 63 :: u32) :: u8) = 255"
  then have "bit (ucast (n AND 63 :: u32) :: u8) 7 = bit (255 :: u8) 7" by simp
  moreover have "bit (255 :: u8) 7" by (simp add: bit_numeral_rec numeral_eq_Suc)
  ultimately show False by (simp add: bit_simps bit_63)
qed

lemma b64_symbol_clean: "b64_symbol n \<noteq> CHR ''=''" "\<not> ascii_space (b64_symbol n)"
proof -
  have "b64_symbol n \<in> set b64_table"
    unfolding b64_symbol_def using sextet_less [of n] by (intro nth_mem) simp
  with b64_table_clean show "b64_symbol n \<noteq> CHR ''=''" "\<not> ascii_space (b64_symbol n)"
    by (auto simp: list_all_iff)
qed

declare b64_decode_loop.simps(2) [simp del]

lemma loop_symbol [simp]:
  "b64_decode_loop dbg acc bits out (b64_symbol n # cs) =
    (if bits + 6 \<ge> 8
     then b64_decode_loop dbg (shift_in acc n) (bits - 2)
       (out @ [ucast (drop_bit (bits - 2) (shift_in acc n))]) cs
     else b64_decode_loop dbg (shift_in acc n) (bits + 6) out cs)"
  by (simp add: b64_decode_loop.simps(2) b64_idx_symbol sextet_valid sextet_ucast shift_in_def Let_def)

lemma decode_loop_encode:
  "b64_decode_loop dbg acc 0 out
     (filter (\<lambda>c. c \<noteq> CHR ''='' \<and> \<not> ascii_space c) (b64_encode bs)) = Inr (out @ bs)"
proof (induction bs arbitrary: acc out rule: chunks3.induct)
  case (1 a b c rest)
  then show ?case
    by (simp add: b64_encode_def b64_chunk_def Let_def b64_symbol_clean
        pack24_def [symmetric] sextets)
next
  case 2
  then show ?case by (simp add: b64_encode_def)
next
  case (3 a)
  then show ?case
    using sextets(1) [of acc a 0 0]
    by (simp add: b64_encode_def b64_chunk_def Let_def b64_symbol_clean pack24_def)
next
  case (4 a b)
  then show ?case
    using sextets(1,2) [of acc a b 0]
    by (simp add: b64_encode_def b64_chunk_def Let_def b64_symbol_clean pack24_def)
qed

lemma b64_decode_encode: "b64_decode dbg (b64_encode bs) = Inr bs"
  by (simp add: b64_decode_def decode_loop_encode)

section \<open>Percent encoding is invertible\<close>

definition hexval :: "char \<Rightarrow> nat" where
  "hexval c = (let n = of_char c in if n < 58 then n - 48 else n - 55)"

fun percent_decode :: "string \<Rightarrow> string" where
  "percent_decode [] = []"
| "percent_decode (c # cs) =
     (if c = CHR ''%'' then
        (case cs of h # l # rest \<Rightarrow> char_of (16 * hexval h + hexval l) # percent_decode rest
         | _ \<Rightarrow> [])
      else c # percent_decode cs)"

lemma hexval_digit: "d < 16 \<Longrightarrow> hexval (hex_digit_upper d) = d"
  by (simp add: hexval_def hex_digit_upper_def Let_def)

lemma percent_decode_char: "percent_decode (encode_char c @ rest) = c # percent_decode rest"
proof (cases "unreserved c")
  case True
  then have "c \<noteq> CHR ''%''" by (auto simp: unreserved_def)
  with True show ?thesis by (simp add: encode_char_def)
next
  case False
  have "(of_char c :: nat) div 16 < 16" using nat_of_char_less_256 [of c] by (simp add: less_mult_imp_div_less)
  with False show ?thesis
    by (simp add: encode_char_def Let_def hexval_digit)
qed

lemma percent_decode_encode: "percent_decode (encode_topic t) = t"
  by (induction t) (simp_all add: encode_topic_def percent_decode_char)

section \<open>Sending and polling\<close>

lemma waku_send_Inr:
  "waku_send N B endpoint topic e = Inr u \<longleftrightarrow>
     (\<exists>bs. encode_envelope B e = Inr bs
        \<and> post_message N (endpoint @ ''/relay/v1/auto/messages'') (message_body bs topic) = Inr ())"
proof (cases "encode_envelope B e")
  case (Inr bs)
  then show ?thesis
    by (cases "post_message N (endpoint @ ''/relay/v1/auto/messages'') (message_body bs topic)")
      (auto simp: waku_send_def Let_def split: http_error.splits)
qed (simp add: waku_send_def)

text \<open>A node hands out a message it was given: its JSON has the payload that was posted.\<close>

definition carries :: "'v waku_node \<Rightarrow> 'v \<Rightarrow> waku_message \<Rightarrow> bool" where
  "carries N v m \<longleftrightarrow> Option.bind (json_get N v ''payload'') (json_str N) = Some (wm_payload m)"

lemma waku_recv_posted:
  assumes "bincode_ok B" and "encode_envelope B e = Inr bs"
    and "get_messages N (endpoint @ ''/relay/v1/auto/messages/'' @ encode_topic topic)
      = Inr (Inr (v # rest))"
    and "carries N v (message_body bs topic')"
  shows "waku_recv N B dbg endpoint topic = Inr (Some e)"
  using assms(3,4)
  by (simp add: waku_recv_def Let_def carries_def message_body_def b64_decode_encode
      decode_encode_envelope [OF assms(1,2)])

lemma waku_recv_first_only:
  assumes "get_messages N (endpoint @ ''/relay/v1/auto/messages/'' @ encode_topic topic)
      = Inr (Inr (v # rest))"
    and "get_messages N' = (get_messages N)
      ((endpoint @ ''/relay/v1/auto/messages/'' @ encode_topic topic) := Inr (Inr [v]))"
    and "json_get N' = json_get N" and "json_str N' = json_str N"
  shows "waku_recv N B dbg endpoint topic = waku_recv N' B dbg endpoint topic"
  using assms by (simp add: waku_recv_def Let_def)

text \<open>No message pending is \<open>Ok(None)\<close>, not a block.\<close>

lemma waku_recv_empty:
  "get_messages N (endpoint @ ''/relay/v1/auto/messages/'' @ encode_topic topic) = Inr (Inr []) \<Longrightarrow>
   waku_recv N B dbg endpoint topic = Inr None"
  by (simp add: waku_recv_def Let_def)

end
