(* ===== verification/Cli.thy ===== *)
theory Cli
  imports Sdk SpelGuests
begin

text \<open>
  \<^verbatim>\<open>crates/cli/src/bin/attest.rs\<close>: the eight commands and their helpers. The file system is a
  state of type \<open>'d\<close> that \<open>prove\<close> and \<open>keygen\<close> write; \<open>cli_main\<close> is \<^verbatim>\<open>main\<close>, from a parsed command
  and a state to the new state and what the command prints. File access, JSON, hex and bincode are
  the fields of \<open>cli_env\<close>, drawn randomness is an argument. Progress lines and timings are left out.
  \<open>read_gate_flags\<close>, the reading of the printed gate arguments, is part of the specification.
\<close>

section \<open>Environment and helpers\<close>

text \<open>\<open>secret_json\<close> renders the two fields of a key file, \<open>json_secret_hex\<close> reads its secret back
  (\<open>None\<close>: no such string field); \<open>journal_text\<close> is \<^verbatim>\<open>to_string_pretty\<close> of the five journal fields.\<close>

record ('d, 'r) cli_env =
  fs_read :: "'d \<Rightarrow> string \<Rightarrow> string + bytes"
  fs_write :: "'d \<Rightarrow> string \<Rightarrow> bytes \<Rightarrow> 'd \<times> (string + unit)"
  secret_json :: "string \<Rightarrow> string \<Rightarrow> string + bytes"
  json_secret_hex :: "bytes \<Rightarrow> string + string option"
  journal_text :: "PublicJournal \<Rightarrow> string + string"
  hex_dec :: "string \<Rightarrow> string + bytes"
  hex_enc :: "bytes \<Rightarrow> string"
  receipt_to_slice :: "'r \<Rightarrow> string + bytes"
  receipt_from_slice :: "bytes \<Rightarrow> string + ('r \<times> nat)"

datatype CliError = Anyhow string | VerifyFailed VerifyError | ProveFailed ProveError | KeyPanic

fun trim_start_0x :: "string \<Rightarrow> string" where
  "trim_start_0x (CHR ''0'' # CHR ''x'' # s) = trim_start_0x s"
| "trim_start_0x s = s"

definition context_id_bytes :: "string \<Rightarrow> bytes" where
  "context_id_bytes s = bytes_of ''/lp-0005/v0.1/context/'' @ bytes_of s"

definition context_id_from :: "sha \<Rightarrow> string \<Rightarrow> b32" where
  "context_id_from H s = H (context_id_bytes s)"

definition parse_nonce :: "('d, 'r) cli_env \<Rightarrow> string \<Rightarrow> CliError + b32" where
  "parse_nonce V hex_in =
     rbind (map_err (\<lambda>_. Anyhow ''nonce is not valid hex'') (hex_dec V (trim hex_in)))
       (\<lambda>bs. ok_or (Anyhow ''nonce must be exactly 32 bytes'') (try_into bs))"

definition load_presenter :: "('sk, 'vk, 'sg) signer \<Rightarrow> ('d, 'r) cli_env \<Rightarrow> 'd \<Rightarrow> string
    \<Rightarrow> CliError + 'sk" where
  "load_presenter S V d path =
     rbind (map_err (\<lambda>_. Anyhow (''reading '' @ path)) (fs_read V d path)) (\<lambda>raw.
     rbind (map_err Anyhow (json_secret_hex V raw)) (\<lambda>field.
     rbind (ok_or (Anyhow ''missing secret_hex'') field) (\<lambda>hex_sk.
     rbind (map_err Anyhow (hex_dec V hex_sk)) (\<lambda>bs.
     rbind (ok_or (Anyhow ''bad sk length'') (try_into bs)) (\<lambda>bs.
     ok_or (Anyhow ''signature error'') (presenter_from_bytes S bs))))))"

text \<open>\<^verbatim>\<open>iter().map(to_string).collect().join(",")\<close>\<close>

fun join :: "string \<Rightarrow> string list \<Rightarrow> string" where
  "join sep [] = []"
| "join sep [s] = s"
| "join sep (s # t # ss) = s @ sep @ join sep (t # ss)"

definition bytes_as_csv :: "bytes \<Rightarrow> string" where
  "bytes_as_csv bs = join '','' (map (\<lambda>b. dec (unat b)) bs)"

definition load_receipt :: "('d, 'r) cli_env \<Rightarrow> 'd \<Rightarrow> string \<Rightarrow> CliError + 'r" where
  "load_receipt V d credential =
     rbind (map_err Anyhow (fs_read V d credential)) (\<lambda>bs.
     rbind (map_err Anyhow (receipt_from_slice V bs)) (\<lambda>(receipt, _). Inr receipt))"

section \<open>Commands\<close>

definition cli_request :: "sha \<Rightarrow> b33 \<Rightarrow> u128 \<Rightarrow> u128 \<Rightarrow> string \<Rightarrow> ProveRequest" where
  "cli_request H pk balance threshold context =
    (let req = \<lparr>q_npk = arr_rep 0x33, q_identifier = 42, q_program_owner = arr_rep 0x11223344,
           q_balance = balance, q_nonce = 7, q_data_hash = H (bytes_of ''demo-account-data''),
           q_merkle_path = [], q_leaf_index = 3, q_merkle_root = arr_rep 0,
           q_threshold = threshold, q_context_id = context_id_from H context,
           q_presenter_pubkey = pk\<rparr>;
         (_, leaf_hash) = precompute_leaf H req;
         (path, root) = synthetic_merkle_path H leaf_hash (q_leaf_index req) 5
     in req\<lparr>q_merkle_path := path, q_merkle_root := root\<rparr>)"

definition cmd_prove :: "sha \<Rightarrow> ('sk, 'vk, 'sg) signer \<Rightarrow> ('env, 'r) prover \<Rightarrow> 'r zkvm
    \<Rightarrow> ('d, 'r) cli_env \<Rightarrow> 'd \<Rightarrow> string \<Rightarrow> u128 \<Rightarrow> u128 \<Rightarrow> string \<Rightarrow> bool \<Rightarrow> string
    \<Rightarrow> 'd \<times> (CliError + nat \<times> string)" where
  "cmd_prove H S P Z V d presenter balance threshold context groth16 out =
    (case rbind (load_presenter S V d presenter) (\<lambda>pk.
          rbind (ok_or KeyPanic (presenter_public S pk)) (\<lambda>public.
          let req = cli_request H public balance threshold context
          in rbind (map_err ProveFailed
               (if groth16 then prove_groth16_checked H P Z req else prove_checked H P Z req))
               (\<lambda>proof. rbind (map_err Anyhow (receipt_to_slice V (pf_receipt proof)))
               (\<lambda>bytes. Inr (bytes, pf_journal proof))))) of
       Inl e \<Rightarrow> (d, Inl e)
     | Inr (bytes, journal) \<Rightarrow>
         (case fs_write V d out bytes of
            (d', w) \<Rightarrow> (d', rbind (map_err Anyhow w)
               (\<lambda>_. Inr (length bytes, hex_enc V (elems (j_nullifier journal)))))))"

definition cmd_challenge :: "('d, 'r) cli_env \<Rightarrow> b32 \<Rightarrow> string" where
  "cmd_challenge V drawn = hex_enc V (elems drawn)"

definition cmd_keygen :: "('sk, 'vk, 'sg) signer \<Rightarrow> ('d, 'r) cli_env \<Rightarrow> 'd \<Rightarrow> b32 \<Rightarrow> string
    \<Rightarrow> 'd \<times> (CliError + string)" where
  "cmd_keygen S V d drawn out =
    (case rbind (ok_or (Anyhow ''signature error'') (presenter_from_bytes S drawn)) (\<lambda>key.
          rbind (ok_or KeyPanic (presenter_public S key)) (\<lambda>public.
          rbind (map_err Anyhow (secret_json V (hex_enc V (elems drawn)) (hex_enc V (elems public))))
            (\<lambda>payload. Inr (payload, public)))) of
       Inl e \<Rightarrow> (d, Inl e)
     | Inr (payload, public) \<Rightarrow>
         (case fs_write V d out payload of
            (d', w) \<Rightarrow> (d', rbind (map_err Anyhow w) (\<lambda>_. Inr (hex_enc V (elems public))))))"

definition cmd_journal :: "'r zkvm \<Rightarrow> program_id \<Rightarrow> ('d, 'r) cli_env \<Rightarrow> 'd \<Rightarrow> string
    \<Rightarrow> CliError + string" where
  "cmd_journal Z ID V d credential =
     rbind (load_receipt V d credential) (\<lambda>receipt.
     rbind (map_err VerifyFailed (verify_receipt Z ID receipt)) (\<lambda>journal.
     map_err Anyhow (journal_text V journal)))"

definition decode_journal :: "'r zkvm \<Rightarrow> 'r \<Rightarrow> CliError + PublicJournal" where
  "decode_journal Z receipt =
     map_err (\<lambda>_. Anyhow ''could not decode journal from credential'') (journal_decode Z receipt)"

definition cmd_sign_challenge :: "sha \<Rightarrow> ('sk, 'vk, 'sg) signer \<Rightarrow> 'r zkvm \<Rightarrow> ('d, 'r) cli_env \<Rightarrow> 'd
    \<Rightarrow> string \<Rightarrow> string \<Rightarrow> string \<Rightarrow> CliError + string" where
  "cmd_sign_challenge H S Z V d credential presenter nonce =
     rbind (load_presenter S V d presenter) (\<lambda>pk.
     rbind (load_receipt V d credential) (\<lambda>receipt.
     rbind (decode_journal Z receipt) (\<lambda>journal.
     rbind (parse_nonce V nonce) (\<lambda>nonce_bytes.
     Inr (hex_enc V (presenter_sign H S pk nonce_bytes journal))))))"

definition cmd_sign_digest :: "('sk, 'vk, 'sg) signer \<Rightarrow> ('d, 'r) cli_env \<Rightarrow> string \<Rightarrow> string
    \<Rightarrow> CliError + string" where
  "cmd_sign_digest S V secret digest =
     rbind (map_err Anyhow (hex_dec V (trim_start_0x secret))) (\<lambda>sk.
     rbind (ok_or (Anyhow ''secret must be 32 bytes'') (try_into sk)) (\<lambda>sk.
     rbind (map_err Anyhow (hex_dec V (trim_start_0x digest))) (\<lambda>dg.
     rbind (ok_or (Anyhow ''digest must be 32 bytes'') (try_into dg)) (\<lambda>dg.
     rbind (ok_or (Anyhow ''signature error'') (presenter_from_bytes S sk)) (\<lambda>pk.
     Inr (hex_enc V (sign_digest S pk dg)))))))"

definition gated_check_flags :: "('d, 'r) cli_env \<Rightarrow> PublicJournal \<Rightarrow> b32 \<Rightarrow> bytes \<Rightarrow> b32 \<Rightarrow> u128
    \<Rightarrow> (string \<times> string) list" where
  "gated_check_flags V journal nonce_bytes signature expected_context threshold =
    [(''merkle-root'', hex_enc V (elems (j_merkle_root journal))),
     (''threshold'', dec (unat (j_threshold journal))),
     (''context-id'', hex_enc V (elems (j_context_id journal))),
     (''presenter-pubkey'', bytes_as_csv (elems (j_presenter_pubkey journal))),
     (''nullifier'', hex_enc V (elems (j_nullifier journal))),
     (''presenter-nonce'', hex_enc V (elems nonce_bytes)),
     (''presenter-signature-der'', bytes_as_csv signature),
     (''expected-context-id'', hex_enc V (elems expected_context)),
     (''minimum-threshold'', dec (unat threshold))]"

definition cmd_gated_check_args :: "sha \<Rightarrow> ('sk, 'vk, 'sg) signer \<Rightarrow> 'r zkvm \<Rightarrow> ('d, 'r) cli_env
    \<Rightarrow> 'd \<Rightarrow> string \<Rightarrow> string \<Rightarrow> string \<Rightarrow> u128 \<Rightarrow> string \<Rightarrow> CliError + (string \<times> string) list" where
  "cmd_gated_check_args H S Z V d credential presenter context threshold nonce =
     rbind (load_presenter S V d presenter) (\<lambda>pk.
     rbind (load_receipt V d credential) (\<lambda>receipt.
     rbind (decode_journal Z receipt) (\<lambda>journal.
     rbind (parse_nonce V nonce) (\<lambda>nonce_bytes.
     let signature = presenter_sign H S pk nonce_bytes journal;
         expected_context = context_id_from H context
     in Inr (gated_check_flags V journal nonce_bytes signature expected_context threshold)))))"

text \<open>Where \<^verbatim>\<open>verify\<close> takes its nonce and signature from; \<open>drawn\<close> is the nonce the self-contained
  mode draws.\<close>

definition resolve_challenge :: "sha \<Rightarrow> ('sk, 'vk, 'sg) signer \<Rightarrow> 'r zkvm \<Rightarrow> program_id
    \<Rightarrow> ('d, 'r) cli_env \<Rightarrow> 'd \<Rightarrow> 'r \<Rightarrow> string option \<Rightarrow> string option \<Rightarrow> string option \<Rightarrow> b32
    \<Rightarrow> CliError + (b32 \<times> bytes)" where
  "resolve_challenge H S Z ID V d receipt nonce signature presenter drawn =
    (case (nonce, signature, presenter) of
       (Some n_hex, Some s_hex, _) \<Rightarrow>
         rbind (parse_nonce V n_hex) (\<lambda>n.
         rbind (map_err (\<lambda>_. Anyhow ''--signature is not valid hex'') (hex_dec V (trim s_hex))) (\<lambda>s.
         Inr (n, s)))
     | (None, None, Some presenter_path) \<Rightarrow>
         rbind (load_presenter S V d presenter_path) (\<lambda>pk.
         rbind (map_err VerifyFailed (verify_receipt Z ID receipt)) (\<lambda>journal.
         Inr (drawn, presenter_sign H S pk drawn journal)))
     | _ \<Rightarrow> Inl (Anyhow (''supply either (--nonce + --signature) for external challenge-response, ''
              @ ''or --presenter for the self-contained demo mode'')))"

definition cmd_verify :: "sha \<Rightarrow> ('vk, 'sg) ecdsa \<Rightarrow> ('sk, 'vk, 'sg) signer \<Rightarrow> 'r zkvm \<Rightarrow> program_id
    \<Rightarrow> ('d, 'r) cli_env \<Rightarrow> 'd \<Rightarrow> string \<Rightarrow> string \<Rightarrow> u128 \<Rightarrow> string option \<Rightarrow> string option
    \<Rightarrow> string option \<Rightarrow> b32 \<Rightarrow> CliError + PublicJournal" where
  "cmd_verify H E S Z ID V d credential context threshold nonce signature presenter drawn =
     rbind (load_receipt V d credential) (\<lambda>receipt.
     rbind (resolve_challenge H S Z ID V d receipt nonce signature presenter drawn)
       (\<lambda>(nonce_bytes, sig_bytes).
     map_err VerifyFailed (verify_credential H E Z ID receipt nonce_bytes sig_bytes
       (context_id_from H context) threshold)))"

section \<open>The program\<close>

datatype Cmd =
    Keygen string
  | Journal string
  | Challenge
  | SignChallenge string string string
  | SignDigest string string
  | Prove string u128 u128 string bool string
  | GatedCheckArgs string string string u128 string
  | Verify string string u128 "string option" "string option" "string option"

datatype Output = PublicKey string | Text string | Wrote nat string | Flags "(string \<times> string) list"
  | Verified PublicJournal

abbreviation ok_map :: "('a \<Rightarrow> 'b) \<Rightarrow> 'e + 'a \<Rightarrow> 'e + 'b" where
  "ok_map f r \<equiv> rbind r (\<lambda>x. Inr (f x))"

definition cli_main :: "sha \<Rightarrow> ('vk, 'sg) ecdsa \<Rightarrow> ('sk, 'vk, 'sg) signer \<Rightarrow> ('env, 'r) prover
    \<Rightarrow> 'r zkvm \<Rightarrow> program_id \<Rightarrow> ('d, 'r) cli_env \<Rightarrow> b32 \<Rightarrow> Cmd \<Rightarrow> 'd \<Rightarrow> 'd \<times> (CliError + Output)" where
  "cli_main H E S P Z ID V drawn cmd d =
    (case cmd of
       Challenge \<Rightarrow> (d, Inr (Text (cmd_challenge V drawn)))
     | Keygen out \<Rightarrow> (case cmd_keygen S V d drawn out of (d', r) \<Rightarrow> (d', ok_map PublicKey r))
     | Prove presenter balance threshold context groth16 out \<Rightarrow>
         (case cmd_prove H S P Z V d presenter balance threshold context groth16 out of
            (d', r) \<Rightarrow> (d', ok_map (\<lambda>(n, nullifier). Wrote n nullifier) r))
     | Journal credential \<Rightarrow> (d, ok_map Text (cmd_journal Z ID V d credential))
     | SignChallenge credential presenter nonce \<Rightarrow>
         (d, ok_map Text (cmd_sign_challenge H S Z V d credential presenter nonce))
     | SignDigest secret digest \<Rightarrow> (d, ok_map Text (cmd_sign_digest S V secret digest))
     | GatedCheckArgs credential presenter context threshold nonce \<Rightarrow>
         (d, ok_map Flags (cmd_gated_check_args H S Z V d credential presenter context threshold nonce))
     | Verify credential context threshold nonce signature presenter \<Rightarrow>
         (d, ok_map Verified
            (cmd_verify H E S Z ID V d credential context threshold nonce signature presenter drawn)))"

section \<open>Properties of the commands\<close>

lemma context_id_bytes_inject [simp]: "context_id_bytes s = context_id_bytes t \<longleftrightarrow> s = t"
  by (simp add: context_id_bytes_def)

text \<open>The demo request of \<^verbatim>\<open>prove\<close> is the SDK's fixture with particular values.\<close>

definition cli_fixture :: "sha \<Rightarrow> b33 \<Rightarrow> u128 \<Rightarrow> u128 \<Rightarrow> string \<Rightarrow> DemoFixture" where
  "cli_fixture H pk balance threshold context = \<lparr>d_npk = arr_rep 0x33, d_identifier = 42,
     d_program_owner = arr_rep 0x11223344, d_balance = balance, d_nonce = 7,
     d_data_seed = bytes_of ''demo-account-data'', d_leaf_index = 3, d_tree_depth = 5,
     d_threshold = threshold, d_context_id = context_id_from H context, d_presenter_pubkey = pk\<rparr>"

lemma cli_request_fixture:
  "cli_request H pk balance threshold context
     = into_request H (cli_fixture H pk balance threshold context)"
  by (simp add: cli_request_def into_request_def cli_fixture_def precompute_leaf_def
      synthetic_merkle_path_def Let_def)

text \<open>The codecs read back what they wrote: hex through the printed text, the secret of a key file,
  the receipt of a credential; and a file read after a successful write holds what was written.\<close>

definition hex_ok :: "('d, 'r) cli_env \<Rightarrow> bool" where
  "hex_ok V \<longleftrightarrow> (\<forall>bs. hex_dec V (trim (hex_enc V bs)) = Inr bs \<and> hex_dec V (hex_enc V bs) = Inr bs)"

definition key_file_ok :: "('d, 'r) cli_env \<Rightarrow> bool" where
  "key_file_ok V \<longleftrightarrow> (\<forall>secret public. \<exists>payload. secret_json V secret public = Inr payload
     \<and> json_secret_hex V payload = Inr (Some secret))"

definition receipt_file_ok :: "('d, 'r) cli_env \<Rightarrow> bool" where
  "receipt_file_ok V \<longleftrightarrow> (\<forall>r. \<exists>payload n. receipt_to_slice V r = Inr payload
     \<and> receipt_from_slice V payload = Inr (r, n))"

text \<open>Both files can be written, reading one back gives what was written, and writing the second
  leaves the first alone.\<close>

definition two_files :: "('d, 'r) cli_env \<Rightarrow> string \<Rightarrow> string \<Rightarrow> bool" where
  "two_files V p q \<longleftrightarrow>
     (\<forall>d f bs. f \<in> {p, q} \<longrightarrow> snd (fs_write V d f bs) = Inr ()
        \<and> fs_read V (fst (fs_write V d f bs)) f = Inr bs)
     \<and> (\<forall>d bs. fs_read V (fst (fs_write V d q bs)) p = fs_read V d p)"

lemma two_files_write:
  assumes "two_files V p q" and "f = p \<or> f = q"
  obtains d' where "fs_write V d f bs = (d', Inr ())" "fs_read V d' f = Inr bs"
    "f = q \<Longrightarrow> fs_read V d' p = fs_read V d p"
proof -
  have "snd (fs_write V d f bs) = Inr ()" "fs_read V (fst (fs_write V d f bs)) f = Inr bs"
    using assms unfolding two_files_def by blast+
  moreover have "f = q \<Longrightarrow> fs_read V (fst (fs_write V d f bs)) p = fs_read V d p"
    using assms(1) unfolding two_files_def by blast
  ultimately show ?thesis by (metis that prod.collapse)
qed

lemma parse_nonce_printed: "hex_ok V \<Longrightarrow> parse_nonce V (hex_enc V (elems n)) = Inr n"
  by (simp add: parse_nonce_def hex_ok_def)

text \<open>\<open>keygen\<close> leaves a file from which \<open>load_presenter\<close> recovers the key it drew.\<close>

lemma cmd_keygen_stores:
  assumes "hex_ok V" and "key_file_ok V" and "two_files V key other"
    and "presenter_from_bytes S drawn = Some sk" and "presenter_public S sk = Some pk"
  obtains d' where "cmd_keygen S V d drawn key = (d', Inr (hex_enc V (elems pk)))"
    "load_presenter S V d' key = Inr sk"
proof -
  from assms(2) obtain payload where
    json: "secret_json V (hex_enc V (elems drawn)) (hex_enc V (elems pk)) = Inr payload"
      "json_secret_hex V payload = Inr (Some (hex_enc V (elems drawn)))"
    unfolding key_file_ok_def by blast
  obtain d' where "fs_write V d key payload = (d', Inr ())" "fs_read V d' key = Inr payload"
    using two_files_write [OF assms(3), of key] by blast
  with json assms show ?thesis
    by (intro that [of d']) (simp_all add: cmd_keygen_def load_presenter_def hex_ok_def)
qed

lemma load_presenter_cong:
  "fs_read V d' p = fs_read V d p \<Longrightarrow> load_presenter S V d' p = load_presenter S V d p"
  by (simp add: load_presenter_def)

text \<open>\<open>prove\<close> leaves a file from which the other commands load the receipt, and keeps the key file.\<close>

lemma cmd_prove_stores:
  assumes "receipt_file_ok V" and "two_files V key cred" and "load_presenter S V d key = Inr sk"
    and "presenter_public S sk = Some pk"
    and "(if groth16 then prove_groth16_checked H P Z (cli_request H pk balance threshold context)
          else prove_checked H P Z (cli_request H pk balance threshold context)) = Inr pf"
  obtains d' n where "cmd_prove H S P Z V d key balance threshold context groth16 cred
      = (d', Inr (n, hex_enc V (elems (j_nullifier (pf_journal pf)))))"
    "load_receipt V d' cred = Inr (pf_receipt pf)" "load_presenter S V d' key = Inr sk"
proof -
  from assms(1) obtain payload k where
    codec: "receipt_to_slice V (pf_receipt pf) = Inr payload"
      "receipt_from_slice V payload = Inr (pf_receipt pf, k)"
    unfolding receipt_file_ok_def by blast
  obtain d' where w: "fs_write V d cred payload = (d', Inr ())" "fs_read V d' cred = Inr payload"
    and frame: "fs_read V d' key = fs_read V d key"
    using two_files_write [OF assms(2), of cred] by blast
  have "cmd_prove H S P Z V d key balance threshold context groth16 cred
      = (d', Inr (length payload, hex_enc V (elems (j_nullifier (pf_journal pf)))))"
    unfolding cmd_prove_def Let_def using assms(3-5) codec w by simp
  moreover have "load_receipt V d' cred = Inr (pf_receipt pf)"
    using codec w by (simp add: load_receipt_def)
  ultimately show ?thesis
    using that load_presenter_cong [OF frame] assms(3) by metis
qed

lemma cmd_sign_challenge_Inr:
  assumes "hex_ok V" and "load_presenter S V d presenter = Inr sk"
    and "load_receipt V d credential = Inr r" and "journal_decode Z r = Inr j"
  shows "cmd_sign_challenge H S Z V d credential presenter (hex_enc V (elems nonce))
    = Inr (hex_enc V (presenter_sign H S sk nonce j))"
  using assms by (simp add: cmd_sign_challenge_def decode_journal_def parse_nonce_printed)

lemma cmd_verify_external:
  assumes "hex_ok V" and "load_receipt V d credential = Inr r"
  shows "cmd_verify H E S Z ID V d credential context m (Some (hex_enc V (elems nonce)))
      (Some (hex_enc V der)) presenter drawn
    = map_err VerifyFailed (verify_credential H E Z ID r nonce der (context_id_from H context) m)"
  using assms
  by (simp add: cmd_verify_def resolve_challenge_def parse_nonce_printed)
    (simp add: hex_ok_def)

text \<open>What the prover makes of the demo request: its path is consistent by construction, so only the
  balance can be refused.\<close>

lemma cli_request_simps [simp]:
  "q_threshold (cli_request H pk balance threshold context) = threshold"
  "q_balance (cli_request H pk balance threshold context) = balance"
  "q_context_id (cli_request H pk balance threshold context) = context_id_from H context"
  "q_presenter_pubkey (cli_request H pk balance threshold context) = pk"
  by (simp_all add: cli_request_fixture) (simp_all add: cli_fixture_def)

lemma cli_run_proves:
  assumes "prover_ok H P Z ID (cli_request H pk balance threshold context)
      (if groth16 then Groth16 else Composite)"
    and "threshold \<le> balance"
  shows "\<exists>r. (if groth16 then prove_groth16_checked H P Z (cli_request H pk balance threshold context)
       else prove_checked H P Z (cli_request H pk balance threshold context))
      = Inr \<lparr>pf_receipt = r, pf_journal = journal_stub H (cli_request H pk balance threshold context)\<rparr>
    \<and> verify_receipt Z ID r = Inr (journal_stub H (cli_request H pk balance threshold context))"
proof -
  have "request_true H (cli_request H pk balance threshold context)"
    using assms(2) by (simp add: cli_request_fixture into_request_true) (simp add: cli_fixture_def)
  from prove_true [OF assms(1) this] show ?thesis
    by (cases groth16)
      (auto simp: prove_checked_def prove_groth16_checked_def prove_def prove_groth16_def)
qed

lemma cli_run_refused:
  assumes "prover_ok H P Z ID (cli_request H pk balance threshold context)
      (if groth16 then Groth16 else Composite)"
    and "balance < threshold"
  shows "(if groth16 then prove_groth16_checked H P Z (cli_request H pk balance threshold context)
       else prove_checked H P Z (cli_request H pk balance threshold context))
      = Inl (StatementFalse (panic_message BalanceBelowThreshold))"
proof -
  let ?req = "cli_request H pk balance threshold context"
  have "guest_main H (request_inputs ?req) (journal_stub H ?req) = Inl BalanceBelowThreshold"
    using assms(2) into_request_root [of H "cli_fixture H pk balance threshold context"]
    by (simp add: guest_main_stub cli_request_fixture [symmetric])
  from prove_false [OF assms(1) this]
  obtain msg where "prove_with_kind H P Z ?req (if groth16 then Groth16 else Composite) = Inl msg"
    and "\<And>p'. str_contains msg (panic_message p') \<longleftrightarrow> p' = BalanceBelowThreshold" by blast
  with classify_panic [of msg BalanceBelowThreshold] show ?thesis
    by (cases groth16)
      (simp_all add: prove_checked_def prove_groth16_checked_def prove_def prove_groth16_def)
qed

text \<open>Self-contained verification of a genuine credential with its own presenter always passes the
  signature check.\<close>

lemma cmd_verify_self_contained:
  assumes "signer_ok E S" and "load_presenter S V d path = Inr sk"
    and "presenter_public S sk = Some (j_presenter_pubkey j)"
    and "load_receipt V d credential = Inr r" and "verify_receipt Z ID r = Inr j"
  shows "cmd_verify H E S Z ID V d credential context m None None (Some path) drawn =
    (if j_context_id j \<noteq> context_id_from H context then Inl (VerifyFailed VerifyError.ContextMismatch)
     else if j_threshold j < m then Inl (VerifyFailed VerifyError.ThresholdTooLow) else Inr j)"
proof -
  have "verify_presenter_signature H E j drawn (presenter_sign H S sk drawn j) = Inr ()"
    using presenter_signed_sign [OF assms(1,3)] by (simp add: verify_presenter_signature_Inr)
  then show ?thesis
    using assms by (simp add: cmd_verify_def resolve_challenge_def verify_credential_def)
qed

text \<open>Only \<open>keygen\<close> and \<open>prove\<close> touch the file system.\<close>

fun writes_files :: "Cmd \<Rightarrow> bool" where
  "writes_files (Keygen out) = True"
| "writes_files (Prove p b t c g out) = True"
| "writes_files _ = False"

lemma cli_main_reads_only:
  "\<not> writes_files cmd \<Longrightarrow> fst (cli_main H E S P Z ID V drawn cmd d) = d"
  by (cases cmd) (simp_all add: cli_main_def)

section \<open>Decimal lists\<close>

definition undigit :: "char \<Rightarrow> nat" where "undigit c = of_char c - 48"

definition read_dec :: "string \<Rightarrow> nat" where
  "read_dec s = foldl (\<lambda>n c. 10 * n + undigit c) 0 s"

lemma undigit_digit: "d < 10 \<Longrightarrow> undigit (digit_char d) = d"
  by (simp add: undigit_def digit_char_def)

lemma read_dec_dec: "read_dec (dec n) = n"
proof (induction n rule: dec.induct)
  case (1 n)
  show ?case
  proof (cases "n < 10")
    case True
    then show ?thesis by (subst dec.simps) (simp add: read_dec_def undigit_digit)
  next
    case False
    then have "read_dec (dec n) = 10 * read_dec (dec (n div 10)) + n mod 10"
      by (subst dec.simps) (simp add: read_dec_def undigit_digit)
    also have "\<dots> = n" using 1 [OF False] by simp
    finally show ?thesis .
  qed
qed

lemma dec_digits: "\<forall>c \<in> set (dec n). of_char c \<in> {48..57::nat}"
proof (induction n rule: dec.induct)
  case (1 n)
  then show ?case by (subst dec.simps) (auto simp: digit_char_def)
qed

lemma dec_no_comma: "CHR '','' \<notin> set (dec n)"
  using dec_digits [of n] by auto

fun split_commas :: "string \<Rightarrow> string list" where
  "split_commas [] = [[]]"
| "split_commas (c # cs) =
     (if c = CHR '','' then [] # split_commas cs
      else (case split_commas cs of [] \<Rightarrow> [[c]] | s # ss \<Rightarrow> (c # s) # ss))"

lemma split_commas_word: "CHR '','' \<notin> set s \<Longrightarrow> split_commas s = [s]"
  by (induction s) auto

lemma split_commas_append:
  "CHR '','' \<notin> set s \<Longrightarrow> split_commas (s @ CHR '','' # t) = s # split_commas t"
  by (induction s) auto

lemma split_commas_join:
  "ss \<noteq> [] \<Longrightarrow> \<forall>s \<in> set ss. CHR '','' \<notin> set s \<Longrightarrow> split_commas (join '','' ss) = ss"
proof (induction ss)
  case (Cons s ss)
  then show ?case by (cases ss) (simp_all add: split_commas_word split_commas_append)
qed simp

definition read_csv :: "string \<Rightarrow> bytes" where
  "read_csv s = (if s = [] then [] else map (\<lambda>w. of_nat (read_dec w)) (split_commas s))"

lemma dec_not_Nil: "dec n \<noteq> []"
  by (subst dec.simps) simp

lemma join_not_Nil: "ss \<noteq> [] \<Longrightarrow> \<forall>s \<in> set ss. s \<noteq> [] \<Longrightarrow> join sep ss \<noteq> []"
  by (induction ss rule: join.induct [of _ sep]) auto

lemma read_csv_bytes: "read_csv (bytes_as_csv bs) = bs"
proof (cases "bs = []")
  case True
  then show ?thesis by (simp add: read_csv_def bytes_as_csv_def)
next
  case False
  then have "bytes_as_csv bs \<noteq> []"
    by (simp add: bytes_as_csv_def join_not_Nil dec_not_Nil)
  moreover from False have "split_commas (bytes_as_csv bs) = map (\<lambda>b. dec (unat b)) bs"
    unfolding bytes_as_csv_def by (intro split_commas_join) (simp_all add: dec_no_comma)
  ultimately show ?thesis by (simp add: read_csv_def read_dec_dec comp_def)
qed

section \<open>The printed gate arguments\<close>

text \<open>How the flags of \<open>gated-check-args\<close> read as the arguments of the on-chain gates: an array as
  hexadecimal, a vector as comma-separated decimals, an integer in decimal.\<close>

definition read_array :: "('d, 'r) cli_env \<Rightarrow> string \<Rightarrow> (u8, 'n::len) arr option" where
  "read_array V s = (case hex_dec V s of Inl _ \<Rightarrow> None | Inr bs \<Rightarrow> try_into bs)"

definition read_gate_flags :: "('d, 'r) cli_env \<Rightarrow> (string \<times> string) list \<Rightarrow> gate_args option" where
  "read_gate_flags V flags = (let flag = map_of flags in
     Option.bind (Option.bind (flag ''merkle-root'') (read_array V)) (\<lambda>root.
     Option.bind (flag ''threshold'') (\<lambda>threshold.
     Option.bind (Option.bind (flag ''context-id'') (read_array V)) (\<lambda>context.
     Option.bind (flag ''presenter-pubkey'') (\<lambda>pubkey.
     Option.bind (Option.bind (flag ''nullifier'') (read_array V)) (\<lambda>nullifier.
     Option.bind (Option.bind (flag ''presenter-nonce'') (read_array V)) (\<lambda>nonce.
     Option.bind (flag ''presenter-signature-der'') (\<lambda>der.
     Option.bind (Option.bind (flag ''expected-context-id'') (read_array V)) (\<lambda>expected.
     Option.bind (flag ''minimum-threshold'') (\<lambda>minimum.
     Some \<lparr>a_merkle_root = root, a_threshold = of_nat (read_dec threshold), a_context_id = context,
       a_presenter_pubkey = read_csv pubkey, a_nullifier = nullifier, a_presenter_nonce = nonce,
       a_presenter_signature_der = read_csv der, a_expected_context_id = expected,
       a_minimum_threshold = of_nat (read_dec minimum)\<rparr>))))))))))"

lemma read_array_printed: "hex_ok V \<Longrightarrow> read_array V (hex_enc V (elems a)) = Some a"
  by (simp add: read_array_def hex_ok_def)

lemma read_gate_flags_printed:
  assumes "hex_ok V"
  shows "read_gate_flags V (gated_check_flags V j nonce der ctx m) = Some (journal_args j nonce der ctx m)"
  by (simp add: read_gate_flags_def gated_check_flags_def read_array_printed [OF assms] read_dec_dec
      read_csv_bytes journal_args_def)

text \<open>What a presenter does with a stored credential: the signature it prints for a challenge is
  accepted by \<open>verify\<close>, as is its own challenge, and the flags it prints by the shallow gate.\<close>

lemma cli_presents:
  fixes nonce :: b32
  assumes "hex_ok V" and "signer_ok E S" and "load_presenter S V d key = Inr sk"
    and "load_receipt V d cred = Inr r" and "verify_receipt Z ID r = Inr j"
    and "presenter_public S sk = Some (j_presenter_pubkey j)"
    and "j_context_id j = context_id_from H ctx" and "floor \<le> j_threshold j"
    and main: "main = cli_main H E S P Z ID V"
  shows "\<exists>printed flags args.
      main rb (SignChallenge cred key (hex_enc V (elems nonce))) d = (d, Inr (Text printed))
    \<and> main rc (Verify cred ctx floor (Some (hex_enc V (elems nonce))) (Some printed) None) d
        = (d, Inr (Verified j))
    \<and> main rd (Verify cred ctx floor None None (Some key)) d = (d, Inr (Verified j))
    \<and> main re (GatedCheckArgs cred key ctx floor (hex_enc V (elems nonce))) d = (d, Inr (Flags flags))
    \<and> read_gate_flags V flags = Some args
    \<and> shallow_gated_check H E p args = Inr \<lparr>so_accounts = [am_account p], so_chained = []\<rparr>"
proof -
  let ?der = "presenter_sign H S sk nonce j"
  have dec: "journal_decode Z r = Inr j" using assms(5) by (simp add: verify_receipt_Inr)
  have signed: "presenter_signed H E j nonce ?der" by (rule presenter_signed_sign [OF assms(2,6)])
  then have "verify_credential H E Z ID r nonce ?der (context_id_from H ctx) floor = Inr j"
    using assms(5,7,8) by (simp add: verify_credential_Inr)
  moreover have "cmd_verify H E S Z ID V d cred ctx floor None None (Some key) rd = Inr j"
    using cmd_verify_self_contained [OF assms(2,3,6,4,5)] assms(7,8) by simp
  moreover have "cmd_gated_check_args H S Z V d cred key ctx floor (hex_enc V (elems nonce))
    = Inr (gated_check_flags V j nonce ?der (context_id_from H ctx) floor)"
    using assms(1,3,4) dec
    by (simp add: cmd_gated_check_args_def decode_journal_def parse_nonce_printed)
  moreover have "shallow_gated_check H E p (journal_args j nonce ?der (context_id_from H ctx) floor)
    = Inr \<lparr>so_accounts = [am_account p], so_chained = []\<rparr>"
    using signed assms(7,8) by (simp add: shallow_gated_check_Inr)
  ultimately show ?thesis
    by (simp add: main cli_main_def cmd_sign_challenge_Inr [OF assms(1,3,4) dec]
        cmd_verify_external [OF assms(1,4)] read_gate_flags_printed [OF assms(1)])
qed

end
