(* ===== verification/Samples.thy ===== *)
theory Samples
  imports Sdk DeepGate SequencerClient WakuRest Cli
begin

text \<open>
  Concrete values for the parameters of the model, at which the theorems with hypotheses are
  instantiated: a signature scheme whose signature is the key followed by the message, a zkVM
  whose receipts carry the guest's inputs in the clear, and a prover that runs the guest. They are
  not models of \<^verbatim>\<open>k256\<close> or Risc0; they show that the hypotheses on those crates can hold.
\<close>

section \<open>Signatures\<close>

definition sample_ecdsa :: "(bytes, bytes) ecdsa" where
  "sample_ecdsa = \<lparr>from_sec1_bytes = Some, from_der = Some, ecdsa_verify = (\<lambda>vk m sg. sg = vk @ m)\<rparr>"

definition sample_signer :: "(b33, bytes, bytes) signer" where
  "sample_signer = \<lparr>signing_key_from_bytes = (\<lambda>bs. Some (arr_of (2 # bs))), verifying_key = elems,
     to_encoded_point = (\<lambda>vk. vk), ecdsa_sign = (\<lambda>sk m. elems sk @ m), to_der = (\<lambda>sg. sg)\<rparr>"

lemma sample_signer_ok: "signer_ok sample_ecdsa sample_signer"
  by (simp add: signer_ok_def sample_ecdsa_def sample_signer_def)

lemma sample_presenter_public: "presenter_public sample_signer sk = Some sk"
  by (simp add: presenter_public_def sample_signer_def)

section \<open>Receipts and prover\<close>

type_synonym clear_receipt = "PrivateInputs \<times> PublicJournal"

definition sample_zkvm :: "sha \<Rightarrow> clear_receipt zkvm" where
  "sample_zkvm H = \<lparr>
     receipt_verify = (\<lambda>(w, j) _. map_err panic_message (rbind (guest_main H w j) (\<lambda>_. Inr ()))),
     journal_decode = (\<lambda>(w, j). map_err panic_message (guest_main H w j))\<rparr>"

definition sample_failure :: "attest_panic \<Rightarrow> string" where
  "sample_failure p = ''Guest panicked: '' @ panic_message p"

definition sample_prover :: "sha \<Rightarrow> (clear_receipt, clear_receipt) prover" where
  "sample_prover H = \<lparr>env_build = (\<lambda>w j. Inr (w, j)),
     prove_with_opts = (\<lambda>(w, j) _. map_err sample_failure
        (rbind (guest_main H w j) (\<lambda>_. Inr (w, j))))\<rparr>"

lemma sample_risc0_sound: "risc0_sound (sample_zkvm H) ID H (\<lambda>r. r)"
  by (auto simp: risc0_sound_def sample_zkvm_def result_iff split: prod.splits)

lemma sample_messages:
  "str_contains (sample_failure p) (panic_message p') \<longleftrightarrow> p' = p"
  by (cases p; cases p'; hypsubst; code_simp)

lemma sample_prover_ok: "prover_ok H (sample_prover H) (sample_zkvm H) ID req kind"
  unfolding prover_ok_def
  by (auto simp: sample_prover_def sample_zkvm_def sample_messages split: sum.splits)

section \<open>A presenter, a ledger and a credential\<close>

definition sample_pk :: b33 where "sample_pk = arr_rep 2"
definition sample_nonce :: b32 where "sample_nonce = arr_rep 9"
definition sample_id :: program_id where "sample_id = arr_rep 1"

definition sample_account :: shielded_account where
  "sample_account = \<lparr>sa_account_id = derive_account_id sample_hash (arr_rep 3) 42,
     sa_program_owner = AUTHENTICATED_TRANSFER_PROGRAM_ID, sa_balance = 2000000, sa_nonce = 7,
     sa_data_hash = arr_rep 6\<rparr>"

definition sample_ledger :: "shielded_account mtree" where
  "sample_ledger = Node (Leaf sample_account) (Leaf (sample_account\<lparr>sa_balance := 5\<rparr>))"

definition sample_request :: "b32 \<Rightarrow> ProveRequest" where
  "sample_request ctx =
     holder_request sample_hash sample_ledger (arr_rep 3) 42 sample_account 0 1 1000000 ctx sample_pk"

definition sample_journal :: "b32 \<Rightarrow> PublicJournal" where
  "sample_journal ctx = journal_stub sample_hash (sample_request ctx)"

definition sample_receipt :: "b32 \<Rightarrow> clear_receipt" where
  "sample_receipt ctx = (request_inputs (sample_request ctx), sample_journal ctx)"

definition sample_signature :: "b32 \<Rightarrow> bytes" where
  "sample_signature ctx = presenter_sign sample_hash sample_signer sample_pk sample_nonce
     (sample_journal ctx)"

lemma sample_leaf: "leaf_at sample_ledger (turns 0 1) = Some sample_account"
  by (simp add: sample_ledger_def turns_def)

lemma sample_account_simps [simp]:
  "sa_account_id sample_account = derive_account_id sample_hash (arr_rep 3) 42"
  "sa_balance sample_account = 2000000"
  by (simp_all add: sample_account_def)

lemma sample_journal_simps [simp]:
  "j_threshold (sample_journal ctx) = 1000000" "j_context_id (sample_journal ctx) = ctx"
  "j_presenter_pubkey (sample_journal ctx) = sample_pk"
  "j_merkle_root (sample_journal ctx) = ledger_root sample_hash sample_ledger"
  by (simp_all add: sample_journal_def sample_request_def)

lemma sample_request_true: "request_true sample_hash (sample_request ctx)"
  unfolding sample_request_def by (rule holder_request_true [OF sample_leaf]) simp_all

lemma sample_guest:
  "guest_main sample_hash (request_inputs (sample_request ctx)) (sample_journal ctx)
     = Inr (sample_journal ctx)"
  using sample_request_true [of ctx]
  by (simp add: sample_journal_def guest_main_stub request_true_def not_less)

lemma sample_verify_receipt:
  "verify_receipt (sample_zkvm sample_hash) ID (sample_receipt ctx) = Inr (sample_journal ctx)"
  by (simp add: verify_receipt_def sample_zkvm_def sample_receipt_def sample_guest)

lemma sample_signed:
  "presenter_signed sample_hash sample_ecdsa (sample_journal ctx) sample_nonce (sample_signature ctx)"
  unfolding sample_signature_def
  by (rule presenter_signed_sign [OF sample_signer_ok]) (simp add: sample_presenter_public)

lemma sample_credential:
  "m \<le> 1000000 \<Longrightarrow>
   verify_credential sample_hash sample_ecdsa (sample_zkvm sample_hash) ID (sample_receipt ctx)
     sample_nonce (sample_signature ctx) ctx m = Inr (sample_journal ctx)"
  by (simp add: verify_credential_Inr sample_verify_receipt sample_signed)

section \<open>A sequencer\<close>

datatype jvalue = JNull | JNum u64 | JStr string | JArr "jvalue list"
  | JObj "(string \<times> jvalue) list"

definition sample_json :: "jvalue json" where
  "sample_json = \<lparr>is_null = (\<lambda>v. v = JNull), 
     as_object = (\<lambda>v. case v of JObj kvs \<Rightarrow> Some (map_of kvs) | _ \<Rightarrow> None),
     as_array = (\<lambda>v. case v of JArr vs \<Rightarrow> Some vs | _ \<Rightarrow> None),
     as_u64 = (\<lambda>v. case v of JNum n \<Rightarrow> Some n | _ \<Rightarrow> None),
     as_str = (\<lambda>v. case v of JStr t \<Rightarrow> Some t | _ \<Rightarrow> None),
     null_value = JNull, u64_value = JNum, str_value = JStr, arr_value = JArr\<rparr>"

definition sample_commitment :: b32 where
  "sample_commitment = commit sample_hash sample_account"

definition sample_rpc :: "jvalue rpc" where
  "sample_rpc = \<lparr>rpc_post = (\<lambda>_ rq. Inr \<lparr>ev_jsonrpc = ''2.0'', ev_id = rq_id rq,
        ev_result = Some (encode_proof sample_json \<lparr>m_leaf_index = 0, m_siblings =
          authentication_path sample_hash (map_mtree (commit sample_hash) sample_ledger) (turns 0 1)\<rparr>),
        ev_error = None\<rparr>),
     u64_from_value = (\<lambda>_. Inl ''not a number''), string_from_value = (\<lambda>_. Inl ''not a string'')\<rparr>"

lemma sample_json_ok: "json_ok sample_json"
  by (simp add: json_ok_def sample_json_def)

lemma sample_sequencer: "sequencer_holds sample_hash sample_json sample_rpc url sample_ledger
    sample_commitment"
proof -
  let ?p = "\<lparr>m_leaf_index = 0, m_siblings =
    authentication_path sample_hash (map_mtree (commit sample_hash) sample_ledger) (turns 0 1)\<rparr>"
  let ?ev = "\<lparr>ev_jsonrpc = ''2.0'', ev_id = 1, ev_result = Some (encode_proof sample_json ?p),
    ev_error = None\<rparr>"
  have "leaf_at (map_mtree (commit sample_hash) sample_ledger) (turns 0 1) = Some sample_commitment"
    by (simp only: leaf_at_map sample_leaf sample_commitment_def) simp
  moreover have "rpc_post sample_rpc url (proof_request sample_json sample_commitment) = Inr ?ev"
    by (simp add: sample_rpc_def proof_request_def request_new_def)
  moreover have "ev_error ?ev = None" "ev_result ?ev = Some (encode_proof sample_json ?p)"
    by simp_all
  ultimately show ?thesis unfolding sequencer_holds_def by blast
qed

section \<open>A call of the deep gate\<close>

definition sample_marker :: account_with_metadata where
  "sample_marker = \<lparr>am_account = \<lparr>acc_program_owner = arr_rep 0, acc_balance = 0, acc_data = [],
     acc_nonce = 0\<rparr>, am_is_authorized = False, am_account_id = arr_rep 1\<rparr>"

definition sample_presenter :: account_with_metadata where
  "sample_presenter = \<lparr>am_account = \<lparr>acc_program_owner = AUTHENTICATED_TRANSFER_PROGRAM_ID,
     acc_balance = 2000000, acc_data = [], acc_nonce = 7\<rparr>, am_is_authorized = True,
     am_account_id = sa_account_id sample_account\<rparr>"

definition sample_witness :: PrivateInputs where
  "sample_witness = honest_witness sample_hash sample_ledger (arr_rep 3) 42 sample_account 0 1"

definition sample_from_slice :: "u32 list \<Rightarrow> PrivateInputs option" where
  "sample_from_slice ws = (if ws = [1] then Some sample_witness else None)"

definition sample_deep_args :: "b32 \<Rightarrow> u128 \<Rightarrow> deep_args" where
  "sample_deep_args ctx m = deep_journal_args sample_hash (sample_journal ctx) sample_nonce
     (sample_signature ctx) ctx m [1]"

lemma sample_inputs: "request_inputs (sample_request ctx) = sample_witness"
  by (simp add: sample_request_def sample_witness_def)

lemma sample_nullifier:
  "j_nullifier (sample_journal ctx)
     = compute_nullifier sample_hash sample_pk ctx (witness_account_id sample_hash sample_witness)"
  by (simp add: sample_journal_def sample_inputs) (simp add: sample_request_def)

lemma sample_bound:
  "m \<le> 2000000 \<Longrightarrow>
   witness_bound sample_hash sample_presenter m (sample_journal ctx) sample_witness"
  by (simp add: witness_bound_def sample_nullifier)
    (simp add: sample_presenter_def sample_witness_def honest_witness_def witness_account_id_def)

lemma sample_deep_gate:
  "m \<le> 1000000 \<Longrightarrow>
   deep_gated_check sample_hash sample_ecdsa sample_from_slice sample_marker sample_presenter
     (sample_deep_args ctx m)
   = Inr \<lparr>so_accounts = [sample_marker, sample_presenter],
          so_chained = [declared_call (sample_journal ctx) sample_witness]\<rparr>"
  by (auto simp: deep_gated_check_Inr sample_deep_args_def sample_signed sample_from_slice_def
      intro!: sample_bound intro: order_trans)

lemma sample_deep_journal: "args_journal (sample_deep_args ctx m) = Some (sample_journal ctx)"
  by (simp add: sample_deep_args_def)

lemma sample_attest:
  "attest sample_hash sample_witness (statement_of (sample_journal ctx))
     = Inr (j_nullifier (sample_journal ctx))"
  using guest_main_journal [OF sample_guest [of ctx]] by (simp add: sample_inputs)

lemma sample_deep_transaction:
  "m \<le> 1000000 \<Longrightarrow>
   deep_transaction sample_hash sample_ecdsa sample_from_slice sample_marker sample_presenter
     (sample_deep_args ctx m)"
  unfolding deep_transaction_iff
  by (intro exI conjI, rule sample_deep_journal, rule sample_deep_gate, assumption)
    (simp_all add: sample_attest, simp_all add: sample_deep_args_def sample_from_slice_def
      compute_nullifier_def sample_nullifier sample_hash_nonzero)

end
