(* ===== verification/SignatureSuite.thy ===== *)
theory SignatureSuite
  imports Samples
begin

text \<open>
  The unit tests inside \<^verbatim>\<open>crates/verifier-offchain/src/lib.rs\<close> and \<^verbatim>\<open>crates/sdk/src/lib.rs\<close>, each a
  definition that is true when the test passes; what a test draws at random is an argument. The
  suites pass for every key and every nonce, not only for those drawn. A test that asserts two
  digests different passes unless the two messages collide, so the suites assume that the hash is
  injective on the finite list of messages they hash. A test that asserts a rejected signature passes
  unless that signature cross-verifies.
\<close>

section \<open>Fixtures\<close>

definition synthetic_journal :: "b33 \<Rightarrow> PublicJournal" where
  "synthetic_journal presenter_pubkey = \<lparr>j_merkle_root = arr_rep 0xaa, j_threshold = 100,
     j_context_id = arr_rep 0xbb, j_presenter_pubkey = presenter_pubkey, j_nullifier = arr_rep 0xcc\<rparr>"

definition sign_journal :: "sha \<Rightarrow> ('sk, 'vk, 'sg) signer \<Rightarrow> 'sk \<Rightarrow> b32 \<Rightarrow> PublicJournal \<Rightarrow> bytes" where
  "sign_journal H S sk nonce journal =
    (let digest = presenter_challenge_digest H nonce journal;
         sig = ecdsa_sign S sk (elems digest)
     in to_der S sig)"

section \<open>\<^verbatim>\<open>verifier-offchain\<close>: the digest tests\<close>

definition challenge_digest_is_deterministic :: "sha \<Rightarrow> bool" where
  "challenge_digest_is_deterministic H =
    (let j = synthetic_journal (arr_rep 0x02); nonce = arr_rep 0;
         d = presenter_challenge_digest H nonce j; d' = presenter_challenge_digest H nonce j
     in d = d')"

definition challenge_digest_changes_with_nonce :: "sha \<Rightarrow> bool" where
  "challenge_digest_changes_with_nonce H =
    (let j = synthetic_journal (arr_rep 0x02); n = arr_rep 0; n' = set_at 0 1 (arr_rep 0)
     in presenter_challenge_digest H n j \<noteq> presenter_challenge_digest H n' j)"

definition challenge_digest_changes_with_threshold :: "sha \<Rightarrow> bool" where
  "challenge_digest_changes_with_threshold H =
    (let j = synthetic_journal (arr_rep 0x02); nonce = arr_rep 0;
         d = presenter_challenge_digest H nonce j;
         j' = j\<lparr>j_threshold := j_threshold j + 1\<rparr>
     in d \<noteq> presenter_challenge_digest H nonce j')"

definition challenge_digest_changes_with_context_id :: "sha \<Rightarrow> bool" where
  "challenge_digest_changes_with_context_id H =
    (let j = synthetic_journal (arr_rep 0x02); nonce = arr_rep 0;
         d = presenter_challenge_digest H nonce j;
         j' = j\<lparr>j_context_id := xor_at 0 0xff (j_context_id j)\<rparr>
     in d \<noteq> presenter_challenge_digest H nonce j')"

definition challenge_digest_changes_with_nullifier :: "sha \<Rightarrow> bool" where
  "challenge_digest_changes_with_nullifier H =
    (let j = synthetic_journal (arr_rep 0x02); nonce = arr_rep 0;
         d = presenter_challenge_digest H nonce j;
         j' = j\<lparr>j_nullifier := xor_at 0 0xff (j_nullifier j)\<rparr>
     in d \<noteq> presenter_challenge_digest H nonce j')"

definition challenge_digest_includes_pubkey :: "sha \<Rightarrow> bool" where
  "challenge_digest_includes_pubkey H =
    (let j = synthetic_journal (arr_rep 0x02); nonce = arr_rep 0;
         d = presenter_challenge_digest H nonce j;
         j' = j\<lparr>j_presenter_pubkey := xor_at 10 0xff (j_presenter_pubkey j)\<rparr>
     in d \<noteq> presenter_challenge_digest H nonce j')"

definition challenge_digest_includes_merkle_root :: "sha \<Rightarrow> bool" where
  "challenge_digest_includes_merkle_root H =
    (let j = synthetic_journal (arr_rep 0x02); nonce = arr_rep 0;
         d = presenter_challenge_digest H nonce j;
         j' = j\<lparr>j_merkle_root := xor_at 0 0xff (j_merkle_root j)\<rparr>
     in d \<noteq> presenter_challenge_digest H nonce j')"

section \<open>\<^verbatim>\<open>verifier-offchain\<close>: the signature tests\<close>

text \<open>The key's encoding copied into the 33 bytes; a wrong length is a panic, hence a failure.\<close>

definition verify_signature_accepts_valid ::
  "sha \<Rightarrow> ('vk, 'sg) ecdsa \<Rightarrow> ('sk, 'vk, 'sg) signer \<Rightarrow> 'sk \<Rightarrow> b32 \<Rightarrow> bool" where
  "verify_signature_accepts_valid H E S sk nonce =
    (case try_into (to_encoded_point S (verifying_key S sk)) of None \<Rightarrow> False
     | Some pubkey \<Rightarrow>
        (let j = synthetic_journal pubkey; sig = sign_journal H S sk nonce j
         in verify_presenter_signature H E j nonce sig = Inr ()))"

definition verify_signature_rejects_wrong_nonce ::
  "sha \<Rightarrow> ('vk, 'sg) ecdsa \<Rightarrow> ('sk, 'vk, 'sg) signer \<Rightarrow> 'sk \<Rightarrow> b32 \<Rightarrow> b32 \<Rightarrow> bool" where
  "verify_signature_rejects_wrong_nonce H E S sk nonce different_nonce =
    (case try_into (to_encoded_point S (verifying_key S sk)) of None \<Rightarrow> False
     | Some pubkey \<Rightarrow>
        (let j = synthetic_journal pubkey; sig = sign_journal H S sk nonce j
         in verify_presenter_signature H E j different_nonce sig = Inl VerifyError.SignatureRejected))"

definition verify_signature_rejects_garbage_signature ::
  "sha \<Rightarrow> ('vk, 'sg) ecdsa \<Rightarrow> b32 \<Rightarrow> bool" where
  "verify_signature_rejects_garbage_signature H E nonce =
    (let j = synthetic_journal (arr_rep 0x02); garbage = [0, 1, 2, 3, 4]
     in verify_presenter_signature H E j nonce garbage = Inl VerifyError.InvalidSignature)"

definition verify_signature_rejects_bad_pubkey :: "sha \<Rightarrow> ('vk, 'sg) ecdsa \<Rightarrow> b32 \<Rightarrow> bool" where
  "verify_signature_rejects_bad_pubkey H E nonce =
    (let j = (synthetic_journal (arr_rep 0))\<lparr>j_presenter_pubkey := arr_rep 0\<rparr>;
         some_sig = [0x30, 0x06, 0x02, 0x01, 0x00, 0x02, 0x01, 0x00]
     in verify_presenter_signature H E j nonce some_sig = Inl VerifyError.InvalidPubkey)"

definition verify_signature_rejects_other_signers_key ::
  "sha \<Rightarrow> ('vk, 'sg) ecdsa \<Rightarrow> ('sk, 'vk, 'sg) signer \<Rightarrow> 'sk \<Rightarrow> 'sk \<Rightarrow> b32 \<Rightarrow> bool" where
  "verify_signature_rejects_other_signers_key H E S alice bob nonce =
    (case try_into (to_encoded_point S (verifying_key S alice)) of None \<Rightarrow> False
     | Some pubkey \<Rightarrow>
        (let j = synthetic_journal pubkey; sig_by_bob = sign_journal H S bob nonce j
         in verify_presenter_signature H E j nonce sig_by_bob = Inl VerifyError.SignatureRejected))"

text \<open>\<^verbatim>\<open>Display\<close> of the errors, and the test that it stays on one short line.\<close>

fun display_error :: "VerifyError \<Rightarrow> string" where
  "display_error (VerifyError.Receipt e) = ''risc0 receipt verification failed: '' @ e"
| "display_error (VerifyError.Journal e) = ''could not decode the journal: '' @ e"
| "display_error VerifyError.InvalidPubkey = ''invalid presenter pubkey encoding''"
| "display_error VerifyError.InvalidSignature = ''invalid signature encoding''"
| "display_error VerifyError.SignatureRejected =
     ''presenter signature did not verify under journal.presenter_pubkey''"
| "display_error VerifyError.ContextMismatch = ''application context mismatch''"
| "display_error VerifyError.ThresholdTooLow = ''threshold smaller than required minimum''"

definition short_line :: "string \<Rightarrow> bool" where
  "short_line s \<longleftrightarrow> length s < 200 \<and> char_of (10 :: nat) \<notin> set s"

definition verify_error_messages_are_short_and_single_line :: bool where
  "verify_error_messages_are_short_and_single_line \<longleftrightarrow>
     list_all (\<lambda>e. short_line (display_error e))
       [VerifyError.Receipt ''dummy'', VerifyError.Journal ''dummy'', VerifyError.InvalidPubkey, VerifyError.InvalidSignature, VerifyError.SignatureRejected,
        VerifyError.ContextMismatch, VerifyError.ThresholdTooLow]"

lemma error_messages_short: "verify_error_messages_are_short_and_single_line"
  by code_simp

section \<open>The digests under test\<close>

text \<open>The messages the digest tests hash: the base message and one variation per field.\<close>

definition digest_messages :: "bytes list" where
  "digest_messages =
    (let j = synthetic_journal (arr_rep 0x02); n = arr_rep 0
     in [journal_challenge n j, journal_challenge (set_at 0 1 n) j,
         journal_challenge n (j\<lparr>j_threshold := 101\<rparr>),
         journal_challenge n (j\<lparr>j_context_id := xor_at 0 0xff (arr_rep 0xbb)\<rparr>),
         journal_challenge n (j\<lparr>j_nullifier := xor_at 0 0xff (arr_rep 0xcc)\<rparr>),
         journal_challenge n (j\<lparr>j_presenter_pubkey := xor_at 10 0xff (arr_rep 0x02)\<rparr>),
         journal_challenge n (j\<lparr>j_merkle_root := xor_at 0 0xff (arr_rep 0xaa)\<rparr>)])"

lemma set_at_zero: "set_at 0 1 (arr_rep 0) \<noteq> (arr_rep 0 :: b32)"
  unfolding elems_inject [symmetric] by (simp add: set_at_def numeral_eq_Suc)

lemma synthetic_journal_simps [simp]:
  "j_threshold (synthetic_journal pk) = 100" "j_context_id (synthetic_journal pk) = arr_rep 0xbb"
  "j_nullifier (synthetic_journal pk) = arr_rep 0xcc" "j_presenter_pubkey (synthetic_journal pk) = pk"
  "j_merkle_root (synthetic_journal pk) = arr_rep 0xaa"
  by (simp_all add: synthetic_journal_def)

lemma journal_update_neq:
  "m \<noteq> j_threshold j \<Longrightarrow> j\<lparr>j_threshold := m\<rparr> \<noteq> (j :: PublicJournal)"
  "c \<noteq> j_context_id j \<Longrightarrow> j\<lparr>j_context_id := c\<rparr> \<noteq> j"
  "n \<noteq> j_nullifier j \<Longrightarrow> j\<lparr>j_nullifier := n\<rparr> \<noteq> j"
  "p \<noteq> j_presenter_pubkey j \<Longrightarrow> j\<lparr>j_presenter_pubkey := p\<rparr> \<noteq> j"
  "r \<noteq> j_merkle_root j \<Longrightarrow> j\<lparr>j_merkle_root := r\<rparr> \<noteq> j"
  by (auto dest: arg_cong [where f = j_threshold] arg_cong [where f = j_context_id]
      arg_cong [where f = j_nullifier] arg_cong [where f = j_presenter_pubkey]
      arg_cong [where f = j_merkle_root])

lemma digests_differ:
  assumes "inj_on H (set digest_messages)"
    and "journal_challenge n j \<in> set digest_messages" "journal_challenge n' j' \<in> set digest_messages"
    and "n \<noteq> n' \<or> j \<noteq> j'"
  shows "presenter_challenge_digest H n j \<noteq> presenter_challenge_digest H n' j'"
  using inj_onD [OF assms(1) _ assms(2,3)] assms(4) by (auto simp: challenge_digest_bytes)

lemma digest_suite:
  assumes "inj_on H (set digest_messages)"
  shows "challenge_digest_is_deterministic H \<and> challenge_digest_changes_with_nonce H
    \<and> challenge_digest_changes_with_threshold H \<and> challenge_digest_changes_with_context_id H
    \<and> challenge_digest_changes_with_nullifier H \<and> challenge_digest_includes_pubkey H
    \<and> challenge_digest_includes_merkle_root H"
  unfolding challenge_digest_is_deterministic_def challenge_digest_changes_with_nonce_def
    challenge_digest_changes_with_threshold_def challenge_digest_changes_with_context_id_def
    challenge_digest_changes_with_nullifier_def challenge_digest_includes_pubkey_def
    challenge_digest_includes_merkle_root_def Let_def
  by (intro conjI refl digests_differ [OF assms])
    (simp_all add: digest_messages_def Let_def set_at_zero [symmetric] journal_update_neq [symmetric]
      xor_at_neq)

section \<open>The signatures under test\<close>

text \<open>What the signature tests need of k256 beyond \<open>signer_ok\<close>: keys have compressed encodings, and the
  three malformed or fixed inputs decode as the tests expect. That a signature verifies under no
  other key and for no other message is not assumed (it is false of ECDSA, whose public keys can be
  recovered from a signature): a test that expects a rejection passes unless the very signature it
  makes cross-verifies, that is, verifies under the other key or for the other message it names.\<close>

definition k256_ok :: "('vk, 'sg) ecdsa \<Rightarrow> ('sk, 'vk, 'sg) signer \<Rightarrow> bool" where
  "k256_ok E S \<longleftrightarrow> signer_ok E S
     \<and> (\<forall>sk. length (to_encoded_point S (verifying_key S sk)) = 33)
     \<and> from_sec1_bytes E (replicate 33 0x02) \<noteq> None \<and> from_sec1_bytes E (replicate 33 0) = None
     \<and> from_der E [0, 1, 2, 3, 4] = None"

definition cross_verifies ::
  "('vk, 'sg) ecdsa \<Rightarrow> ('sk, 'vk, 'sg) signer \<Rightarrow> 'sk \<Rightarrow> b32 \<Rightarrow> 'sk \<Rightarrow> b32 \<Rightarrow> bool" where
  "cross_verifies E S sk d sk' d' \<longleftrightarrow> (verifying_key S sk \<noteq> verifying_key S sk' \<or> d \<noteq> d')
     \<and> ecdsa_verify E (verifying_key S sk) (elems d) (ecdsa_sign S sk' (elems d'))"

lemma k256_signer: "k256_ok E S \<Longrightarrow> signer_ok E S"
  by (simp add: k256_ok_def)

lemma k256_pubkey:
  assumes "k256_ok E S"
  obtains pk where "try_into (to_encoded_point S (verifying_key S sk)) = Some pk"
    "from_sec1_bytes E (elems pk) = Some (verifying_key S sk)" "presenter_public S sk = Some (pk :: b33)"
proof -
  have "length (to_encoded_point S (verifying_key S sk)) = 33"
    using assms by (simp add: k256_ok_def)
  then obtain pk :: b33 where pk: "try_into (to_encoded_point S (verifying_key S sk)) = Some pk"
    by (simp add: try_into_def)
  then have "elems pk = to_encoded_point S (verifying_key S sk)" by (simp add: try_into_Some)
  with pk show ?thesis
    using assms by (intro that [OF pk]) (simp_all add: k256_ok_def signer_ok_def presenter_public_def)
qed

text \<open>What a signature over one digest is worth under a key and another digest.\<close>

lemma cross_verdict:
  assumes "signer_ok E S"
  shows "ecdsa_verify E (verifying_key S sk) (elems d) (ecdsa_sign S sk' (elems d')) \<longleftrightarrow>
    verifying_key S sk = verifying_key S sk' \<and> d = d' \<or> cross_verifies E S sk d sk' d'"
proof -
  have "ecdsa_verify E (verifying_key S sk') (elems d') (ecdsa_sign S sk' (elems d'))"
    using assms by (simp add: signer_ok_def)
  then show ?thesis by (auto simp: cross_verifies_def)
qed

lemma verify_sign_journal:
  assumes "signer_ok E S" and "from_sec1_bytes E (elems (j_presenter_pubkey j)) = Some (verifying_key S sk)"
  shows "verify_presenter_signature H E j nonce (sign_journal H S sk' nonce' j') =
    (let d = presenter_challenge_digest H nonce j; d' = presenter_challenge_digest H nonce' j'
     in if verifying_key S sk = verifying_key S sk' \<and> d = d' \<or> cross_verifies E S sk d sk' d'
        then Inr () else Inl VerifyError.SignatureRejected)"
proof -
  have "from_der E (to_der S sg) = Some sg" for sg
    using assms(1) by (simp add: signer_ok_def)
  then show ?thesis
    by (simp add: verify_presenter_signature_def sign_journal_def assms(2) cross_verdict [OF assms(1)] Let_def)
qed

lemma signature_suite:
  assumes "k256_ok E S"
  shows "verify_signature_accepts_valid H E S sk nonce"
    and "verify_signature_rejects_garbage_signature H E nonce"
    and "verify_signature_rejects_bad_pubkey H E nonce"
proof -
  show "verify_signature_accepts_valid H E S sk nonce"
    by (rule k256_pubkey [OF assms, of sk])
      (simp add: verify_signature_accepts_valid_def verify_sign_journal [OF k256_signer [OF assms]] Let_def)
  show "verify_signature_rejects_garbage_signature H E nonce" "verify_signature_rejects_bad_pubkey H E nonce"
    using assms by (auto simp: verify_signature_rejects_garbage_signature_def k256_ok_def
        verify_signature_rejects_bad_pubkey_def verify_presenter_signature_def Let_def)
qed

lemma wrong_nonce_test:
  assumes "k256_ok E S" and "presenter_public S sk = Some pk" and "nonce \<noteq> nonce'"
  shows "let j = synthetic_journal pk in verify_signature_rejects_wrong_nonce H E S sk nonce nonce'
     \<or> collision H (journal_challenge nonce j) (journal_challenge nonce' j)
     \<or> cross_verifies E S sk (presenter_challenge_digest H nonce' j) sk (presenter_challenge_digest H nonce j)"
proof -
  have "try_into (to_encoded_point S (verifying_key S sk)) = Some pk"
    "from_sec1_bytes E (elems pk) = Some (verifying_key S sk)"
    by (rule k256_pubkey [OF assms(1), of sk], use assms(2) in simp)+
  with verify_sign_journal [OF k256_signer [OF assms(1)], of "synthetic_journal pk" sk H nonce' sk nonce
      "synthetic_journal pk"] assms(3)
  show ?thesis
    by (auto simp: verify_signature_rejects_wrong_nonce_def Let_def challenge_digest_bytes collision_def)
qed

lemma other_key_test:
  assumes "k256_ok E S" and "presenter_public S alice = Some pk"
    and "verifying_key S alice \<noteq> verifying_key S bob"
  shows "let d = presenter_challenge_digest H nonce (synthetic_journal pk)
     in verify_signature_rejects_other_signers_key H E S alice bob nonce \<or> cross_verifies E S alice d bob d"
proof -
  have "try_into (to_encoded_point S (verifying_key S alice)) = Some pk"
    "from_sec1_bytes E (elems pk) = Some (verifying_key S alice)"
    by (rule k256_pubkey [OF assms(1), of alice], use assms(2) in simp)+
  with verify_sign_journal [OF k256_signer [OF assms(1)], of "synthetic_journal pk" alice H nonce bob nonce
      "synthetic_journal pk"] assms(3)
  show ?thesis
    by (auto simp: verify_signature_rejects_other_signers_key_def Let_def)
qed

section \<open>The SDK's tests\<close>

definition sdk_request :: "b33 \<Rightarrow> ProveRequest" where
  "sdk_request presenter_pubkey = \<lparr>q_npk = arr_rep 0x33, q_identifier = 42,
     q_program_owner = arr_rep 0x11223344, q_balance = 1000000, q_nonce = 7,
     q_data_hash = arr_rep 0, q_merkle_path = [], q_leaf_index = 3, q_merkle_root = arr_rep 0,
     q_threshold = 100000, q_context_id = arr_rep 0xaa, q_presenter_pubkey = presenter_pubkey\<rparr>"

definition presenter_key_from_bytes_roundtrip :: "('sk, 'vk, 'sg) signer \<Rightarrow> bool" where
  "presenter_key_from_bytes_roundtrip S =
    (let bytes = arr_rep 0x42
     in case (presenter_from_bytes S bytes, presenter_from_bytes S bytes) of
          (Some k, Some k') \<Rightarrow>
            (case (presenter_public S k, presenter_public S k') of
               (Some p, Some p') \<Rightarrow> p = p' | _ \<Rightarrow> False)
        | _ \<Rightarrow> False)"

definition presenter_key_public_is_33_bytes :: "('sk, 'vk, 'sg) signer \<Rightarrow> 'sk \<Rightarrow> bool" where
  "presenter_key_public_is_33_bytes S k =
     (case presenter_public S k of None \<Rightarrow> False | Some p \<Rightarrow> length (elems p) = 33)"

definition precompute_leaf_is_deterministic :: "sha \<Rightarrow> b33 \<Rightarrow> bool" where
  "precompute_leaf_is_deterministic H pk =
    (case (precompute_leaf H (sdk_request pk), precompute_leaf H (sdk_request pk)) of
       ((commit_a, leaf_a), (commit_b, leaf_b)) \<Rightarrow> commit_a = commit_b \<and> leaf_a = leaf_b)"

definition precompute_leaf_changes_with_balance :: "sha \<Rightarrow> b33 \<Rightarrow> bool" where
  "precompute_leaf_changes_with_balance H pk =
    (let r = sdk_request pk
     in case (precompute_leaf H r, precompute_leaf H (r\<lparr>q_balance := q_balance r + 1\<rparr>)) of
          ((commit_a, _), (commit_b, _)) \<Rightarrow> commit_a \<noteq> commit_b)"

definition precompute_leaf_changes_with_npk :: "sha \<Rightarrow> b33 \<Rightarrow> bool" where
  "precompute_leaf_changes_with_npk H pk =
    (let r = sdk_request pk
     in case (precompute_leaf H r, precompute_leaf H (r\<lparr>q_npk := xor_at 0 0xff (q_npk r)\<rparr>)) of
          ((commit_a, _), (commit_b, _)) \<Rightarrow> commit_a \<noteq> commit_b)"

definition synthetic_merkle_path_yields_consistent_root :: "sha \<Rightarrow> bool" where
  "synthetic_merkle_path_yields_consistent_root H =
    (let leaf = arr_rep 0xaa
     in case (synthetic_merkle_path H leaf 0 10, synthetic_merkle_path H leaf 0 10) of
          ((path, root), (path', root')) \<Rightarrow> path = path' \<and> root = root' \<and> length path = 10)"

definition synthetic_merkle_path_changes_with_leaf_index :: "sha \<Rightarrow> bool" where
  "synthetic_merkle_path_changes_with_leaf_index H =
    (let leaf = arr_rep 0xaa
     in case (synthetic_merkle_path H leaf 0 10, synthetic_merkle_path H leaf 5 10) of
          ((_, root_at_0), (_, root_at_5)) \<Rightarrow> root_at_0 \<noteq> root_at_5)"

definition presenter_key_sign_is_signature_aware_of_journal ::
  "sha \<Rightarrow> ('sk, 'vk, 'sg) signer \<Rightarrow> 'sk \<Rightarrow> bool" where
  "presenter_key_sign_is_signature_aware_of_journal H S pk =
    (case presenter_public S pk of None \<Rightarrow> False
     | Some public \<Rightarrow>
        (let nonce = arr_rep 0;
             journal_a = \<lparr>j_merkle_root = arr_rep 0, j_threshold = 100, j_context_id = arr_rep 0,
               j_presenter_pubkey = public, j_nullifier = arr_rep 0\<rparr>;
             journal_b = journal_a\<lparr>j_threshold := 200\<rparr>
         in presenter_sign H S pk nonce journal_a \<noteq> presenter_sign H S pk nonce journal_b))"

text \<open>The messages these tests hash, but for the signature test's two challenges.\<close>

definition leaf_messages :: "sha \<Rightarrow> bytes list" where
  "leaf_messages H =
    (let npk = arr_rep 0x33; npk' = xor_at 0 0xff npk;
         message = (\<lambda>npk balance. commitment_bytes (derive_account_id H npk 42) (arr_rep 0x11223344)
           balance 7 (arr_rep 0))
     in [account_id_bytes npk 42, account_id_bytes npk' 42, message npk 1000000, message npk 1000001,
         message npk' 1000000])"

definition seed_messages :: "bytes list" where
  "seed_messages = map (\<lambda>i. replicate 32 (of_nat i)) [0..<10]"

definition merkle_messages :: "sha \<Rightarrow> bytes list" where
  "merkle_messages H =
    (let path = fst (synthetic_merkle_path H (arr_rep 0xaa) 0 10)
     in seed_messages @ loop_messages H (arr_rep 0xaa) 0 path @ loop_messages H (arr_rep 0xaa) 5 path)"

lemma precompute_leaf_fst:
  "fst (precompute_leaf H r) = H (commitment_bytes (derive_account_id H (q_npk r) (q_identifier r))
     (q_program_owner r) (q_balance r) (q_nonce r) (q_data_hash r))"
  by (simp add: precompute_leaf_def compute_commitment_def Let_def)

lemma leaf_suite:
  assumes "inj_on H (set (leaf_messages H))"
  shows "precompute_leaf_changes_with_balance H pk \<and> precompute_leaf_changes_with_npk H pk"
proof
  show "precompute_leaf_changes_with_balance H pk"
    unfolding precompute_leaf_changes_with_balance_def Let_def case_prod_beta fst_conv snd_conv
      precompute_leaf_fst
    by (rule inj_on_neq [OF assms]) (simp_all add: leaf_messages_def sdk_request_def Let_def)
  have "derive_account_id H (arr_rep 0x33) 42 \<noteq> derive_account_id H (xor_at 0 0xff (arr_rep 0x33)) 42"
    unfolding derive_account_id_def
    by (rule inj_on_neq [OF assms]) (simp_all add: leaf_messages_def Let_def xor_at_neq [symmetric])
  then show "precompute_leaf_changes_with_npk H pk"
    unfolding precompute_leaf_changes_with_npk_def Let_def case_prod_beta fst_conv snd_conv
      precompute_leaf_fst
    by (intro inj_on_neq [OF assms]) (simp_all add: leaf_messages_def sdk_request_def Let_def)
qed

text \<open>Folding one list of siblings along two indices that part above the lowest level.\<close>

lemma fold_is_digest:
  "sibs \<noteq> [] \<Longrightarrow> \<exists>m \<in> set (loop_messages H leaf i sibs). length m = 64 \<and> fold_merkle_path H leaf i sibs = H m"
  by (cases sibs rule: rev_cases) (auto simp: loop_messages_snoc hash_two_def)

lemma fold_index_matters:
  assumes "inj_on H M" and "set seeds \<subseteq> M" and "\<forall>m \<in> set seeds. length m = 32"
  shows "set (loop_messages H leaf i sibs) \<union> set (loop_messages H leaf j sibs) \<subseteq> M \<Longrightarrow>
    set sibs \<subseteq> H ` set seeds \<Longrightarrow> 0 < k \<Longrightarrow> k < length sibs \<Longrightarrow> bit i k \<noteq> bit j k \<Longrightarrow>
    fold_merkle_path H leaf i sibs \<noteq> fold_merkle_path H leaf j sibs"
proof (induction sibs rule: rev_induct)
  case (snoc s sibs)
  let ?n = "length sibs" and ?x = "fold_merkle_path H leaf i sibs" and ?y = "fold_merkle_path H leaf j sibs"
  let ?m = "if bit i ?n then elems s @ elems ?x else elems ?x @ elems s"
  let ?m' = "if bit j ?n then elems s @ elems ?y else elems ?y @ elems s"
  from snoc.prems(1) have in_M: "?m \<in> M" "?m' \<in> M"
    and sub: "set (loop_messages H leaf i sibs) \<union> set (loop_messages H leaf j sibs) \<subseteq> M"
    by (auto simp: loop_messages_snoc split: if_splits)
  have "?m \<noteq> ?m'"
  proof (cases "bit i ?n = bit j ?n")
    case True
    with snoc.prems have "k < ?n" by (cases "k = ?n") auto
    with snoc.IH [OF sub _ snoc.prems(3) _ snoc.prems(5)] snoc.prems(2) have "?x \<noteq> ?y" by simp
    with True show ?thesis by simp
  next
    case False
    from snoc.prems(3,4) have "sibs \<noteq> []" by auto
    from snoc.prems(2) obtain seed where seed: "seed \<in> set seeds" "s = H seed" by auto
    have "elems s \<noteq> elems (fold_merkle_path H leaf l sibs)"
      if in_l: "set (loop_messages H leaf l sibs) \<subseteq> M" for l
    proof -
      obtain m where m: "m \<in> set (loop_messages H leaf l sibs)" "length m = 64"
        "fold_merkle_path H leaf l sibs = H m"
        using fold_is_digest [OF \<open>sibs \<noteq> []\<close>] by blast
      have "H seed \<noteq> H m"
        by (rule inj_on_neq [OF assms(1)]) (use seed m in_l assms(2,3) in auto)
      with seed m show ?thesis by simp
    qed
    with False sub show ?thesis by (auto split: if_splits)
  qed
  from inj_on_neq [OF assms(1) in_M this] show ?case by (auto simp: hash_two_def split: if_splits)
qed simp

lemma merkle_suite:
  assumes "inj_on H (set (merkle_messages H))"
  shows "synthetic_merkle_path_changes_with_leaf_index H"
proof -
  let ?path = "fst (synthetic_merkle_path H (arr_rep 0xaa) 0 10)"
  have path: "?path = map (\<lambda>i. H (replicate 32 (of_nat i))) [0..<10]"
    by (simp add: synthetic_merkle_path_def Let_def)
  have bit5: "bit (5 :: u64) 2" "\<not> bit (0 :: u64) 2" by simp_all
  have "fold_merkle_path H (arr_rep 0xaa) 0 ?path \<noteq> fold_merkle_path H (arr_rep 0xaa) 5 ?path"
    by (rule fold_index_matters [OF assms, of seed_messages _ _ _ _ 2])
      (auto simp: merkle_messages_def Let_def seed_messages_def path)
  then show ?thesis
    by (simp add: synthetic_merkle_path_changes_with_leaf_index_def synthetic_merkle_path_def Let_def)
qed

definition aware_message :: "b33 \<Rightarrow> u128 \<Rightarrow> bytes" where
  "aware_message pk m = journal_challenge (arr_rep 0) \<lparr>j_merkle_root = arr_rep 0,
     j_threshold = m, j_context_id = arr_rep 0, j_presenter_pubkey = pk, j_nullifier = arr_rep 0\<rparr>"

definition aware_messages :: "b33 \<Rightarrow> bytes list" where
  "aware_messages pk = map (aware_message pk) [100, 200]"

lemma sign_aware:
  assumes "signer_ok E S" and "presenter_public S sk = Some pk"
    and "inj_on H (set (aware_messages pk))"
  shows "let d = (\<lambda>m. H (aware_message pk m))
     in presenter_key_sign_is_signature_aware_of_journal H S sk \<or> cross_verifies E S sk (d 100) sk (d 200)"
proof -
  let ?j = "\<lambda>m. \<lparr>j_merkle_root = arr_rep 0, j_threshold = m, j_context_id = arr_rep 0,
       j_presenter_pubkey = pk, j_nullifier = arr_rep 0\<rparr>"
  let ?d = "\<lambda>m. H (aware_message pk m)"
  have d: "presenter_challenge_digest H (arr_rep 0) (?j m) = ?d m" for m
    by (simp add: challenge_digest_bytes aware_message_def)
  have digests: "?d 100 \<noteq> ?d 200"
    by (rule inj_on_neq [OF assms(3)]) (simp_all add: aware_messages_def aware_message_def)
  have "cross_verifies E S sk (?d 100) sk (?d 200)"
    if "presenter_sign H S sk (arr_rep 0) (?j 100) = presenter_sign H S sk (arr_rep 0) (?j 200)"
  proof -
    have "from_der E (to_der S sg) = Some sg" for sg using assms(1) by (simp add: signer_ok_def)
    with that have "ecdsa_sign S sk (elems (?d 100)) = ecdsa_sign S sk (elems (?d 200))"
      unfolding presenter_sign_def sign_digest_def d by (metis option.inject)
    with cross_verdict [OF assms(1), of sk "?d 100" sk "?d 100"]
    show ?thesis using digests by (simp add: cross_verifies_def)
  qed
  then show ?thesis
    by (auto simp: presenter_key_sign_is_signature_aware_of_journal_def assms(2) Let_def)
qed

lemma presenter_suite:
  assumes "k256_ok E S" and "presenter_from_bytes S (arr_rep 0x42) = Some restored"
  shows "presenter_key_from_bytes_roundtrip S \<and> presenter_key_public_is_33_bytes S sk"
proof -
  obtain p q where "presenter_public S restored = Some p" "presenter_public S sk = Some q"
    using k256_pubkey [OF assms(1)] by metis
  then show ?thesis
    by (simp add: presenter_key_from_bytes_roundtrip_def presenter_key_public_is_33_bytes_def assms(2) Let_def)
qed

lemma deterministic_suite:
  "precompute_leaf_is_deterministic H pk" "synthetic_merkle_path_yields_consistent_root H"
  by (simp_all add: precompute_leaf_is_deterministic_def synthetic_merkle_path_yields_consistent_root_def
      synthetic_merkle_path_def Let_def split: prod.splits)

section \<open>Instances\<close>

text \<open>The hypotheses hold together: a signature scheme in which a signature is the key and the message, an
  encoded key starts with 2 and an encoded signature with 48, and a hash that tells the messages
  apart.\<close>

definition suite_ecdsa :: "(b32, b32 \<times> bytes) ecdsa" where
  "suite_ecdsa = \<lparr>
     from_sec1_bytes = (\<lambda>b. if length b = 33 \<and> hd b = 2 then Some (arr_of (tl b)) else None),
     from_der = (\<lambda>b. if b \<noteq> [] \<and> hd b = 48 then Some (arr_of (take 32 (tl b)), drop 32 (tl b)) else None),
     ecdsa_verify = (\<lambda>vk m sg. sg = (vk, m))\<rparr>"

definition suite_signer :: "(b32, b32, b32 \<times> bytes) signer" where
  "suite_signer = \<lparr>signing_key_from_bytes = try_into, verifying_key = (\<lambda>sk. sk),
     to_encoded_point = (\<lambda>vk. 2 # elems vk), ecdsa_sign = Pair, to_der = (\<lambda>(vk, m). 48 # elems vk @ m)\<rparr>"

definition suite_key :: b33 where "suite_key = arr_of (2 # replicate 32 7)"

lemma suite_k256: "k256_ok suite_ecdsa suite_signer" "\<not> cross_verifies suite_ecdsa suite_signer sk d sk' d'"
  by (auto simp: k256_ok_def signer_ok_def suite_ecdsa_def suite_signer_def cross_verifies_def
      split: prod.splits)

lemma suite_public: "presenter_public suite_signer (arr_rep 7) = Some suite_key"
  by (simp add: presenter_public_def suite_signer_def suite_key_def try_into_def)

lemma pick_hash_suite:
  "distinct (map pick_hash (journal_challenge (arr_rep 9) (synthetic_journal suite_key)
     # journal_challenge (arr_rep 8) (synthetic_journal suite_key) # digest_messages))"
  "distinct (map pick_hash (leaf_messages pick_hash))"
  "distinct (map pick_hash (merkle_messages pick_hash))"
  "distinct (map pick_hash (aware_messages suite_key))"
  by code_simp+

end
