(* ===== verification/HostSuite.thy ===== *)
theory HostSuite
  imports Samples
begin

text \<open>
  The unit tests inside \<^verbatim>\<open>delivery-transport/src/waku_rest.rs\<close>, \<^verbatim>\<open>delivery-transport/src/inmem.rs\<close>
  and \<^verbatim>\<open>sequencer-client/src/lib.rs\<close>, each a definition that is true when the test passes. JSON
  values are \<open>jvalue\<close>, the mock server of the sequencer tests is a function, and the receipt fixture,
  the rendering of characters in messages and the \<^verbatim>\<open>hex\<close> crate are arguments.
\<close>

section \<open>\<^verbatim>\<open>waku_rest.rs\<close>\<close>

definition base64_roundtrips_including_padding_cases :: "(char \<Rightarrow> string) \<Rightarrow> bool" where
  "base64_roundtrips_including_padding_cases dbg \<longleftrightarrow>
     list_all (\<lambda>case_bytes. b64_decode dbg (b64_encode case_bytes) = Inr case_bytes)
       [[], bytes_of ''a'', bytes_of ''ab'', bytes_of ''abc'', bytes_of ''abcd'', [0, 255, 128, 1, 2, 3]]"

definition base64_matches_a_known_vector :: bool where
  "base64_matches_a_known_vector \<longleftrightarrow> b64_encode (bytes_of ''hello-lp0005'') = ''aGVsbG8tbHAwMDA1''"

definition base64_rejects_garbage :: "(char \<Rightarrow> string) \<Rightarrow> bool" where
  "base64_rejects_garbage dbg \<longleftrightarrow> \<not> is_ok (b64_decode dbg ''not!valid'')"

definition content_topics_follow_lip_23 :: bool where
  "content_topics_follow_lip_23 \<longleftrightarrow>
     CONTENT_TOPIC = ''/lp-0005/1/attestation/proto''
     \<and> (let t = content_topic_for ''premium-lounge''
        in t = ''/lp-0005/1/attestation-premium-lounge/proto''
           \<and> length (filter (\<lambda>c. c = CHR ''/'') t) = 4)"

definition topic_encoding_escapes_slashes :: bool where
  "topic_encoding_escapes_slashes \<longleftrightarrow>
     encode_topic ''/lp-0005/1/attestation/proto'' = ''%2Flp-0005%2F1%2Fattestation%2Fproto''"

lemma waku_vectors:
  "base64_matches_a_known_vector" "content_topics_follow_lip_23" "topic_encoding_escapes_slashes"
  by code_simp+

lemma waku_roundtrips: "base64_roundtrips_including_padding_cases dbg"
  by (simp add: base64_roundtrips_including_padding_cases_def b64_decode_encode)

text \<open>The first three characters decode, the exclamation mark is refused.\<close>

lemma b64_idx_garbage:
  "b64_idx ! of_char (CHR ''n'') = 39" "b64_idx ! of_char (CHR ''o'') = 40"
  "b64_idx ! of_char (CHR ''t'') = 45" "b64_idx ! of_char (CHR ''!'') = 255"
  by code_simp+

lemma b64_kept: "filter (\<lambda>c. c \<noteq> CHR ''='' \<and> \<not> ascii_space c) ''not!valid'' = ''not!valid''"
  by code_simp

lemma waku_garbage: "base64_rejects_garbage dbg"
  by (simp add: base64_rejects_garbage_def b64_decode_def b64_kept b64_idx_garbage Let_def
      b64_decode_loop.simps del: filter.simps of_char_Char)

section \<open>\<^verbatim>\<open>sequencer-client\<close>\<close>

text \<open>A server that answers one method, and one that answers every request.\<close>

definition mock_server :: "(string \<Rightarrow> bool) \<Rightarrow> jvalue JsonRpcEnvelope \<Rightarrow> jvalue rpc" where
  "mock_server method template = \<lparr>
     rpc_post = (\<lambda>_ rq. if method (rq_method rq) then Inr template else Inl ''404 Not Found''),
     u64_from_value = (\<lambda>v. case v of JNum n \<Rightarrow> Inr n | _ \<Rightarrow> Inl ''expected u64''),
     string_from_value = (\<lambda>v. case v of JStr s \<Rightarrow> Inr s | _ \<Rightarrow> Inl ''expected a string'')\<rparr>"

text \<open>The template as serde reads it back into an envelope whose result is an \<^verbatim>\<open>Option<Value>\<close>: a JSON null is \<open>None\<close>.\<close>

definition result_envelope :: "jvalue \<Rightarrow> jvalue JsonRpcEnvelope" where
  "result_envelope v = \<lparr>ev_jsonrpc = ''2.0'', ev_id = 1,
     ev_result = (if v = JNull then None else Some v), ev_error = None\<rparr>"

definition get_last_block_id_decodes_u64_result :: "string \<Rightarrow> bool" where
  "get_last_block_id_decodes_u64_result uri \<longleftrightarrow>
     get_last_block_id sample_json (mock_server (\<lambda>m. m = ''getLastBlockId'') (result_envelope (JNum 42)))
       uri = Inr 42"

definition get_transaction_decodes_string_result :: "string \<Rightarrow> bool" where
  "get_transaction_decodes_string_result uri \<longleftrightarrow>
     get_transaction sample_json
       (mock_server (\<lambda>m. m = ''getTransaction'') (result_envelope (JStr ''AAEC''))) uri ''abc''
     = Inr (Some ''AAEC'')"

definition get_transaction_decodes_null_as_none :: "string \<Rightarrow> bool" where
  "get_transaction_decodes_null_as_none uri \<longleftrightarrow>
     get_transaction sample_json
       (mock_server (\<lambda>m. m = ''getTransaction'') (result_envelope JNull)) uri ''abc'' = Inr None"

definition rpc_error_surfaces_as_client_error :: "string \<Rightarrow> bool" where
  "rpc_error_surfaces_as_client_error uri =
    (let template = \<lparr>ev_jsonrpc = ''2.0'', ev_id = 1, ev_result = None,
           ev_error = Some \<lparr>eb_code = -32601, eb_message = ''unknown method''\<rparr>\<rparr>
     in case get_last_block_id sample_json (mock_server (\<lambda>_. True) template) uri of
          Inr _ \<Rightarrow> False
        | Inl err \<Rightarrow> (case err of
            Rpc code message \<Rightarrow> code = -32601 \<and> str_contains message ''unknown'' | _ \<Rightarrow> False))"

definition repeat_str :: "string \<Rightarrow> nat \<Rightarrow> string" where
  "repeat_str s n = concat (replicate n s)"

definition decode_proof_tuple_supports_array_shape :: "hex_decoder \<Rightarrow> bool" where
  "decode_proof_tuple_supports_array_shape hex =
    (let v = JArr [JNum 3, JArr [JStr (repeat_str ''aa'' 32), JStr (repeat_str ''bb'' 32)]]
     in case decode_proof_tuple sample_json hex v of Inl _ \<Rightarrow> False
        | Inr proof \<Rightarrow> m_leaf_index proof = 3 \<and> length (m_siblings proof) = 2
            \<and> m_siblings proof ! 0 = arr_rep 0xaa \<and> m_siblings proof ! 1 = arr_rep 0xbb)"

definition decode_proof_tuple_supports_object_shape :: "hex_decoder \<Rightarrow> bool" where
  "decode_proof_tuple_supports_object_shape hex =
    (let v = JObj [(''leaf_index'', JNum 7), (''siblings'', JArr [JStr (repeat_str ''00'' 32)])]
     in case decode_proof_tuple sample_json hex v of Inl _ \<Rightarrow> False
        | Inr proof \<Rightarrow> m_leaf_index proof = 7 \<and> length (m_siblings proof) = 1
            \<and> m_siblings proof ! 0 = arr_rep 0)"

text \<open>The \<^verbatim>\<open>hex\<close> crate on the three strings of the fixtures.\<close>

definition hex_repeats :: "hex_decoder \<Rightarrow> bool" where
  "hex_repeats hex \<longleftrightarrow> hex (repeat_str ''aa'' 32) = Inr (replicate 32 0xaa)
     \<and> hex (repeat_str ''bb'' 32) = Inr (replicate 32 0xbb)
     \<and> hex (repeat_str ''00'' 32) = Inr (replicate 32 0)"

lemma try_into_replicate: "try_into (replicate 32 b) = Some (arr_rep b :: (u8, 32) arr)"
  by (simp add: try_into_Some)

lemma unknown_in_message: "str_contains ''unknown method'' ''unknown''"
  by code_simp

lemma sequencer_suite:
  "get_last_block_id_decodes_u64_result uri" "get_transaction_decodes_string_result uri"
  "get_transaction_decodes_null_as_none uri" "rpc_error_surfaces_as_client_error uri"
  "hex_repeats hex \<Longrightarrow> decode_proof_tuple_supports_array_shape hex"
  "hex_repeats hex \<Longrightarrow> decode_proof_tuple_supports_object_shape hex"
  by (simp_all add: get_last_block_id_decodes_u64_result_def get_transaction_decodes_string_result_def
      get_transaction_decodes_null_as_none_def rpc_error_surfaces_as_client_error_def
      decode_proof_tuple_supports_array_shape_def decode_proof_tuple_supports_object_shape_def
      get_last_block_id_def get_transaction_def call_def mock_server_def result_envelope_def
      request_new_def sample_json_def unknown_in_message hex_repeats_def decode_proof_tuple_def
      decode_hash_array_def decode_hash_def try_into_replicate Let_def)

section \<open>\<^verbatim>\<open>inmem.rs\<close>\<close>

definition test_envelope :: "'r \<Rightarrow> 'r CredentialEnvelope" where
  "test_envelope dummy_receipt = \<lparr>e_receipt = dummy_receipt, e_challenge_nonce = arr_rep 0xaa,
     e_presenter_signature_der = [0x30, 0x06, 0x02, 0x01, 0x00, 0x02, 0x01, 0x00],
     e_app_meta = bytes_of ''test''\<rparr>"

text \<open>\<^verbatim>\<open>t.recv(topic).await.unwrap().unwrap()\<close>; blocking for ever is a failure too.\<close>

definition recv_unwrap :: "'m bus \<Rightarrow> string \<Rightarrow> ('m bus \<times> 'm) option" where
  "recv_unwrap t topic = (case inmem_recv t topic of
     (t', Ready (Inr (Some m))) \<Rightarrow> Some (t', m) | _ \<Rightarrow> None)"

definition send_unwrap :: "'m bus \<Rightarrow> string \<Rightarrow> 'm \<Rightarrow> 'm bus option" where
  "send_unwrap t topic m = (case inmem_send t topic m of (t', Inr _) \<Rightarrow> Some t' | _ \<Rightarrow> None)"

definition inmem_roundtrip_single_message :: "'r \<Rightarrow> bool" where
  "inmem_roundtrip_single_message r =
    (let env = test_envelope r
     in case Option.bind (send_unwrap Map.empty ''topic-a'' env) (\<lambda>t. recv_unwrap t ''topic-a'') of
          None \<Rightarrow> False
        | Some (_, got) \<Rightarrow> e_challenge_nonce got = e_challenge_nonce env \<and> e_app_meta got = e_app_meta env)"

definition inmem_topics_are_isolated :: "'r \<Rightarrow> bool" where
  "inmem_topics_are_isolated r =
    (let env_a = (test_envelope r)\<lparr>e_app_meta := bytes_of ''alpha''\<rparr>;
         env_b = (test_envelope r)\<lparr>e_app_meta := bytes_of ''beta''\<rparr>
     in case Option.bind (send_unwrap Map.empty ''topic-a'' env_a) (\<lambda>t.
             Option.bind (send_unwrap t ''topic-b'' env_b) (\<lambda>t.
             Option.bind (recv_unwrap t ''topic-a'') (\<lambda>(t, from_a).
             Option.bind (recv_unwrap t ''topic-b'') (\<lambda>(t, from_b). Some (from_a, from_b))))) of
          None \<Rightarrow> False
        | Some (from_a, from_b) \<Rightarrow>
            e_app_meta from_a = bytes_of ''alpha'' \<and> e_app_meta from_b = bytes_of ''beta'')"

definition inmem_fifo_within_topic :: "'r \<Rightarrow> bool" where
  "inmem_fifo_within_topic r =
    (let env = (\<lambda>meta. (test_envelope r)\<lparr>e_app_meta := bytes_of meta\<rparr>)
     in case Option.bind (send_unwrap Map.empty ''t'' (env ''1'')) (\<lambda>t.
             Option.bind (send_unwrap t ''t'' (env ''2'')) (\<lambda>t.
             Option.bind (send_unwrap t ''t'' (env ''3'')) (\<lambda>t.
             Option.bind (recv_unwrap t ''t'') (\<lambda>(t, a).
             Option.bind (recv_unwrap t ''t'') (\<lambda>(t, b).
             Option.bind (recv_unwrap t ''t'') (\<lambda>(t, c). Some (a, b, c))))))) of
          None \<Rightarrow> False
        | Some (a, b, c) \<Rightarrow> e_app_meta a = bytes_of ''1'' \<and> e_app_meta b = bytes_of ''2''
            \<and> e_app_meta c = bytes_of ''3'')"

text \<open>The tests that fingerprint two envelopes and compare; a panic is a failure.\<close>

definition compare_fingerprints :: "sha \<Rightarrow> 'r bincode \<Rightarrow> (b32 \<Rightarrow> b32 \<Rightarrow> bool)
    \<Rightarrow> 'r CredentialEnvelope \<Rightarrow> 'r CredentialEnvelope \<Rightarrow> bool" where
  "compare_fingerprints H B assertion e e' = (case (fingerprint H B e, fingerprint H B e') of
     (Some f, Some f') \<Rightarrow> assertion f f' | _ \<Rightarrow> False)"

definition fingerprint_is_deterministic :: "sha \<Rightarrow> 'r bincode \<Rightarrow> 'r \<Rightarrow> bool" where
  "fingerprint_is_deterministic H B r =
    (let e = test_envelope r in compare_fingerprints H B (=) e e)"

definition nonce_flipped :: "'r CredentialEnvelope \<Rightarrow> 'r CredentialEnvelope" where
  "nonce_flipped e = e\<lparr>e_challenge_nonce := xor_at 0 0xff (e_challenge_nonce e)\<rparr>"

definition fingerprint_changes_with_nonce :: "sha \<Rightarrow> 'r bincode \<Rightarrow> 'r \<Rightarrow> bool" where
  "fingerprint_changes_with_nonce H B r =
    (let e = test_envelope r in compare_fingerprints H B (\<noteq>) e (nonce_flipped e))"

definition fingerprint_changes_with_app_meta :: "sha \<Rightarrow> 'r bincode \<Rightarrow> 'r \<Rightarrow> bool" where
  "fingerprint_changes_with_app_meta H B r =
    (let e = test_envelope r
     in compare_fingerprints H B (\<noteq>) e (e\<lparr>e_app_meta := e_app_meta e @ [0xee]\<rparr>))"

fun display_transport_error :: "TransportError \<Rightarrow> string" where
  "display_transport_error (Upstream e) = ''upstream Logos Delivery error: '' @ e"
| "display_transport_error (Encode e) = ''envelope encoding error: '' @ e"
| "display_transport_error (TransportError.Decode e) = ''envelope decoding error: '' @ e"

definition transport_error_display_short :: bool where
  "transport_error_display_short \<longleftrightarrow>
     list_all (\<lambda>e. length (display_transport_error e) < 200
         \<and> char_of (10 :: nat) \<notin> set (display_transport_error e))
       [Upstream ''x'', Encode ''y'', TransportError.Decode ''z'']"

definition fingerprint_messages :: "'r bincode \<Rightarrow> 'r \<Rightarrow> bytes option list" where
  "fingerprint_messages B r =
    (let e = test_envelope r
     in [fingerprint_bytes B e, fingerprint_bytes B (nonce_flipped e),
         fingerprint_bytes B (e\<lparr>e_app_meta := e_app_meta e @ [0xee]\<rparr>)])"

lemma inmem_suite:
  "inmem_roundtrip_single_message r" "inmem_topics_are_isolated r" "inmem_fifo_within_topic r"
  by (simp_all add: inmem_roundtrip_single_message_def inmem_topics_are_isolated_def
      inmem_fifo_within_topic_def recv_unwrap_def send_unwrap_def inmem_send_def inmem_recv_def
      channel_for_def test_envelope_def Let_def)

lemma transport_errors_short: "transport_error_display_short"
  by code_simp

lemma fingerprint_messages_differ:
  assumes "receipt_to_vec B r = Inr bs"
  shows "fingerprint_bytes B (test_envelope r) \<noteq> fingerprint_bytes B (nonce_flipped (test_envelope r))"
    "fingerprint_bytes B (test_envelope r)
     \<noteq> fingerprint_bytes B ((test_envelope r)\<lparr>e_app_meta := e_app_meta (test_envelope r) @ [0xee]\<rparr>)"
proof -
  have "elems (xor_at 0 0xff (arr_rep 0xaa) :: b32) \<noteq> elems (arr_rep 0xaa :: b32)"
    using xor_at_neq [of 0 "0xff" "arr_rep 0xaa :: b32"] by (simp only: elems_inject_iff) simp
  then show "fingerprint_bytes B (test_envelope r) \<noteq> fingerprint_bytes B (nonce_flipped (test_envelope r))"
    using assms by (auto simp: fingerprint_bytes_def nonce_flipped_def test_envelope_def)
qed (use assms in \<open>auto simp: fingerprint_bytes_def test_envelope_def dest: arg_cong [where f = length]\<close>)

lemma fingerprint_suite:
  assumes "inj_on (map_option H) (set (fingerprint_messages B r))" and "receipt_to_vec B r = Inr bs"
  shows "fingerprint_is_deterministic H B r" "fingerprint_changes_with_nonce H B r"
    "fingerprint_changes_with_app_meta H B r"
proof -
  have some: "\<exists>m. fingerprint_bytes B e = Some m" if "e_receipt e = r" for e
    using assms(2) that by (simp add: fingerprint_bytes_def)
  have receipts: "e_receipt (test_envelope r) = r" "e_receipt (nonce_flipped (test_envelope r)) = r"
    by (simp_all add: test_envelope_def nonce_flipped_def)
  have differ: "compare_fingerprints H B (\<noteq>) e e'"
    if "fingerprint_bytes B e \<in> set (fingerprint_messages B r)"
      "fingerprint_bytes B e' \<in> set (fingerprint_messages B r)"
      "fingerprint_bytes B e \<noteq> fingerprint_bytes B e'" "e_receipt e = r" "e_receipt e' = r" for e e'
    using inj_on_neq [OF assms(1) that(1-3)] some [OF that(4)] some [OF that(5)]
    by (auto simp: compare_fingerprints_def fingerprint_def)
  show "fingerprint_is_deterministic H B r"
    using some [OF receipts(1)]
    by (auto simp: fingerprint_is_deterministic_def compare_fingerprints_def fingerprint_def Let_def)
  show "fingerprint_changes_with_nonce H B r" "fingerprint_changes_with_app_meta H B r"
    unfolding fingerprint_changes_with_nonce_def fingerprint_changes_with_app_meta_def Let_def
    by (rule differ; simp add: fingerprint_messages_def receipts fingerprint_messages_differ [OF assms(2)] Let_def)+
qed

section \<open>Instances\<close>

text \<open>The hypotheses hold together: a decoder that knows the fixtures, and a codec and a hash that keep the
  three fingerprint messages apart.\<close>

definition suite_bincode :: "bytes bincode" where
  "suite_bincode = \<lparr>receipt_to_vec = Inr, envelope_to_vec = (\<lambda>_. Inl ''unused''),
     envelope_from_slice = (\<lambda>_. Inl ''unused'')\<rparr>"

definition suite_hex :: hex_decoder where
  "suite_hex s = Inr (replicate 32 (if hd s = CHR ''a'' then 0xaa else if hd s = CHR ''b'' then 0xbb else 0))"

lemma suite_hex_repeats: "hex_repeats suite_hex"
  by (simp add: hex_repeats_def suite_hex_def repeat_str_def numeral_eq_Suc)

lemma suite_fingerprints: "distinct (map (map_option pick_hash) (fingerprint_messages suite_bincode [1]))"
  by code_simp

end
