(* ===== verification/OneShotRegistry.thy ===== *)
theory OneShotRegistry
  imports GateInterface
begin

text \<open>
  The contract of an integration that consumes nullifiers: a state with a set of used nullifiers
  and one operation that either succeeds, on a nullifier not used before, which it records, or
  fails and leaves the state alone. \<open>one_shot\<close> states those laws, \<open>run_steps\<close> serves a sequence
  of requests, \<open>reachable\<close> is the step relation's closure and \<open>invariant_system\<close> the contract of what
  every step keeps; \<open>one_shot_invariant\<close> gives it from the successful steps alone. The chat, governance and tier
  integrations interpret the locale, each on its own state.
\<close>

section \<open>Serving a sequence of requests\<close>

fun run_steps :: "('s \<Rightarrow> 'r \<Rightarrow> 's \<times> ('e + 'ok)) \<Rightarrow> 's \<Rightarrow> 'r list \<Rightarrow> 's \<times> ('r \<times> ('e + 'ok)) list"
  where
  "run_steps step s [] = (s, [])"
| "run_steps step s (r # rs) =
     (case step s r of (s', res) \<Rightarrow>
        (case run_steps step s' rs of (s'', log) \<Rightarrow> (s'', (r, res) # log)))"

fun successes :: "('r \<times> ('e + 'ok)) list \<Rightarrow> ('r \<times> 'ok) list" where
  "successes [] = []"
| "successes ((r, Inr ok) # log) = (r, ok) # successes log"
| "successes ((r, Inl e) # log) = successes log"

inductive reachable :: "('s \<Rightarrow> 'r \<Rightarrow> 's \<times> ('e + 'ok)) \<Rightarrow> 's \<Rightarrow> 's \<Rightarrow> bool"
  for step :: "'s \<Rightarrow> 'r \<Rightarrow> 's \<times> ('e + 'ok)" and init :: 's where
  reach_init: "reachable step init init"
| reach_step: "reachable step init s \<Longrightarrow> step s r = (s', res) \<Longrightarrow> reachable step init s'"

lemma reach_one: "step s r = (s', res) \<Longrightarrow> reachable step s s'"
  by (rule reach_step [OF reach_init])

lemma reachable_trans: "reachable step s s' \<Longrightarrow> reachable step s' s'' \<Longrightarrow> reachable step s s''"
  by (rotate_tac, induction rule: reachable.induct) (auto intro: reach_step)

lemma run_steps_length: "run_steps step s rs = (s', log) \<Longrightarrow> map fst log = rs"
  by (induction rs arbitrary: s s' log) (auto split: prod.splits)

lemma run_steps_reachable:
  "reachable step init s \<Longrightarrow> run_steps step s rs = (s', log) \<Longrightarrow> reachable step init s'"
proof (induction rs arbitrary: s log)
  case (Cons r rs)
  then obtain s1 res log1 where "step s r = (s1, res)" "run_steps step s1 rs = (s', log1)"
    by (auto split: prod.splits)
  with Cons show ?case by (auto intro: reach_step)
qed simp

lemma successes_set: "(r, ok) \<in> set (successes log) \<longleftrightarrow> (r, Inr ok) \<in> set log"
  by (induction log rule: successes.induct) auto

text \<open>\<^verbatim>\<open>BTreeSet::insert\<close>: whether the element was new, and the set after.\<close>

definition btree_insert :: "'a \<Rightarrow> 'a set \<Rightarrow> bool \<times> 'a set" where
  "btree_insert x S = (x \<notin> S, insert x S)"

section \<open>Invariants of a step function\<close>

locale invariant_system =
  fixes step :: "'s \<Rightarrow> 'r \<Rightarrow> 's \<times> ('e + 'ok)"
    and inv :: "'s \<Rightarrow> bool"
  assumes inv_step: "inv s \<Longrightarrow> step s r = (s', res) \<Longrightarrow> inv s'"
begin

lemma inv_reachable: "reachable step s s' \<Longrightarrow> inv s \<Longrightarrow> inv s'"
  by (induction rule: reachable.induct) (auto dest: inv_step)

lemma inv_run: "run_steps step s rs = (s', log) \<Longrightarrow> inv s \<Longrightarrow> inv s'"
  using run_steps_reachable [OF reach_init] inv_reachable by metis

end

section \<open>The contract\<close>

locale one_shot =
  fixes step :: "'s \<Rightarrow> 'r \<Rightarrow> 's \<times> ('e + 'ok)"
    and used :: "'s \<Rightarrow> b32 set"
    and consumed :: "'r \<Rightarrow> 'ok \<Rightarrow> b32"
  assumes step_ok: "step s r = (s', Inr ok) \<Longrightarrow>
      consumed r ok \<notin> used s \<and> used s' = insert (consumed r ok) (used s)"
    and step_err: "step s r = (s', Inl e) \<Longrightarrow> s' = s"
begin

lemma used_mono: "step s r = (s', res) \<Longrightarrow> used s \<subseteq> used s'"
  by (cases res) (auto dest: step_ok step_err)

end

text \<open>What is spent stays spent: an invariant of every one-shot registry.\<close>

sublocale one_shot \<subseteq> spent: invariant_system step "\<lambda>s. X \<subseteq> used s" for X
  by unfold_locales (auto dest: used_mono)

context one_shot
begin

text \<open>Whatever was consumed stays refused.\<close>

lemma spent_refused: "consumed r ok \<in> used s \<Longrightarrow> step s r \<noteq> (s', Inr ok)"
  by (auto dest: step_ok)

lemma spent_refused_forever:
  assumes "step s r = (s1, Inr ok)" and "reachable step s1 s2"
    and "consumed r' ok' = consumed r ok"
  shows "step s2 r' \<noteq> (s3, Inr ok')"
proof (rule spent_refused)
  have "{consumed r ok} \<subseteq> used s1" using step_ok [OF assms(1)] by simp
  with spent.inv_reachable [OF assms(2)] have "{consumed r ok} \<subseteq> used s2" .
  with assms(3) show "consumed r' ok' \<in> used s2" by simp
qed

lemma run_used:
  assumes "run_steps step s rs = (s', log)"
  shows "distinct (map (\<lambda>(r, ok). consumed r ok) (successes log))
    \<and> set (map (\<lambda>(r, ok). consumed r ok) (successes log)) \<inter> used s = {}
    \<and> used s' = used s \<union> set (map (\<lambda>(r, ok). consumed r ok) (successes log))"
  using assms
proof (induction rs arbitrary: s log)
  case (Cons r rs)
  then obtain s1 res log1 where step: "step s r = (s1, res)"
    and rest: "run_steps step s1 rs = (s', log1)" and log: "log = (r, res) # log1"
    by (auto split: prod.splits)
  note IH = Cons.IH [OF rest]
  show ?case
  proof (cases res)
    case (Inl e)
    with step have "s1 = s" by (auto dest: step_err)
    with IH Inl log show ?thesis by simp
  next
    case (Inr ok)
    with step have "consumed r ok \<notin> used s \<and> used s1 = insert (consumed r ok) (used s)"
      by (auto dest: step_ok)
    with IH Inr log show ?thesis by (auto simp: case_prod_beta)
  qed
qed simp

lemma run_card:
  assumes "run_steps step s rs = (s', log)" and "finite (used s)"
  shows "card (used s') = card (used s) + length (successes log)"
proof -
  let ?ns = "map (\<lambda>(r, ok). consumed r ok) (successes log)"
  have "used s' = used s \<union> set ?ns" and "set ?ns \<inter> used s = {}" and "distinct ?ns"
    using run_used [OF assms(1)] by auto
  then have "card (used s') = card (used s) + card (set ?ns)"
    using assms(2) by (simp add: card_Un_disjoint Int_commute del: set_map)
  then show ?thesis using distinct_card [OF \<open>distinct ?ns\<close>] by (simp del: set_map)
qed

end

text \<open>A failing request leaves the state alone, so an invariant of a one-shot registry has only to be
  shown for the requests it serves.\<close>

locale one_shot_invariant = one_shot step used consumed
  for step :: "'s \<Rightarrow> 'r \<Rightarrow> 's \<times> ('e + 'ok)" and used :: "'s \<Rightarrow> b32 set"
    and consumed :: "'r \<Rightarrow> 'ok \<Rightarrow> b32" +
  fixes inv :: "'s \<Rightarrow> bool"
  assumes inv_ok: "inv s \<Longrightarrow> step s r = (s', Inr ok) \<Longrightarrow> inv s'"

sublocale one_shot_invariant \<subseteq> invariant_system step inv
proof unfold_locales
  fix s r s' res
  assume "inv s" and "step s r = (s', res)"
  then show "inv s'" by (cases res) (auto dest: inv_ok step_err)
qed

end
