(* ===== verification/ChatGate.thy ===== *)
theory ChatGate
  imports OffchainVerifier OneShotRegistry
begin

text \<open>
  \<^verbatim>\<open>integrations/chat-gate/src/lib.rs\<close>: a roster that admits a presenter key when its credential
  verifies for the group's context and stake and its nullifier was not used in this group. The
  roster interprets \<open>one_shot\<close>; its invariant says that every member is backed by a verified
  credential.
\<close>

section \<open>State and operation\<close>

datatype AdmissionError = Verify VerifyError | NullifierReused | WrongGroup

definition group_context_bytes :: "string \<Rightarrow> bytes" where
  "group_context_bytes group_id = bytes_of ''/lp-0005/integ/chat-gate-v1/'' @ bytes_of group_id"

definition group_context_id :: "sha \<Rightarrow> string \<Rightarrow> b32" where
  "group_context_id H group_id = H (group_context_bytes group_id)"

record GroupRoster =
  r_group_id :: string
  r_members :: "b33 set"
  r_used_nullifiers :: "b32 set"
  r_minimum_stake :: u128

definition roster_new :: "string \<Rightarrow> u128 \<Rightarrow> GroupRoster" where
  "roster_new group_id minimum_stake = \<lparr>r_group_id = group_id, r_members = {},
     r_used_nullifiers = {}, r_minimum_stake = minimum_stake\<rparr>"

definition admit :: "sha \<Rightarrow> ('vk, 'sg) ecdsa \<Rightarrow> 'r zkvm \<Rightarrow> program_id \<Rightarrow> GroupRoster
    \<Rightarrow> 'r \<Rightarrow> b32 \<Rightarrow> bytes \<Rightarrow> GroupRoster \<times> (AdmissionError + PublicJournal)" where
  "admit H E Z ATTESTATION_ID self receipt presenter_nonce presenter_signature_der =
    (let expected_ctx = group_context_id H (r_group_id self)
     in case verify_credential H E Z ATTESTATION_ID receipt presenter_nonce presenter_signature_der
           expected_ctx (r_minimum_stake self) of
          Inl e \<Rightarrow> (self, Inl (Verify e))
        | Inr journal \<Rightarrow>
            (let (fresh, nullifiers) = btree_insert (j_nullifier journal) (r_used_nullifiers self);
                 self = self\<lparr>r_used_nullifiers := nullifiers\<rparr>
             in if \<not> fresh then (self, Inl NullifierReused)
                else (self\<lparr>r_members := insert (j_presenter_pubkey journal) (r_members self)\<rparr>,
                      Inr journal)))"

section \<open>Characterisation\<close>

lemma group_context_bytes_inject [simp]:
  "group_context_bytes g = group_context_bytes g' \<longleftrightarrow> g = g'"
  by (simp add: group_context_bytes_def)

definition credential_for_group ::
  "sha \<Rightarrow> ('vk, 'sg) ecdsa \<Rightarrow> 'r zkvm \<Rightarrow> program_id \<Rightarrow> GroupRoster \<Rightarrow> 'r \<Rightarrow> b32 \<Rightarrow> bytes
   \<Rightarrow> PublicJournal \<Rightarrow> bool" where
  "credential_for_group H E Z ID s r nonce der j \<longleftrightarrow>
     verify_receipt Z ID r = Inr j \<and> j_context_id j = group_context_id H (r_group_id s)
     \<and> r_minimum_stake s \<le> j_threshold j \<and> presenter_signed H E j nonce der"

lemma credential_for_group_iff:
  "credential_for_group H E Z ID s r nonce der j \<longleftrightarrow>
     verify_credential H E Z ID r nonce der (group_context_id H (r_group_id s)) (r_minimum_stake s)
       = Inr j"
  by (auto simp: credential_for_group_def verify_credential_Inr)

lemma admit_Inr:
  "admit H E Z ID s r nonce der = (s', Inr j) \<longleftrightarrow>
     credential_for_group H E Z ID s r nonce der j \<and> j_nullifier j \<notin> r_used_nullifiers s
     \<and> s' = s\<lparr>r_used_nullifiers := insert (j_nullifier j) (r_used_nullifiers s),
              r_members := insert (j_presenter_pubkey j) (r_members s)\<rparr>"
  by (auto simp: admit_def btree_insert_def Let_def credential_for_group_iff split: sum.splits)

lemma admit_Inl:
  "admit H E Z ID s r nonce der = (s', Inl e) \<longleftrightarrow> s' = s \<and>
     (case verify_credential H E Z ID r nonce der (group_context_id H (r_group_id s))
         (r_minimum_stake s) of
        Inl v \<Rightarrow> e = Verify v
      | Inr j \<Rightarrow> e = NullifierReused \<and> j_nullifier j \<in> r_used_nullifiers s)"
  by (auto simp: admit_def btree_insert_def Let_def insert_absorb split: sum.splits)

abbreviation admit_step :: "sha \<Rightarrow> ('vk, 'sg) ecdsa \<Rightarrow> 'r zkvm \<Rightarrow> program_id \<Rightarrow> GroupRoster
    \<Rightarrow> 'r \<times> b32 \<times> bytes \<Rightarrow> GroupRoster \<times> (AdmissionError + PublicJournal)" where
  "admit_step H E Z ID s \<equiv> \<lambda>(r, nonce, der). admit H E Z ID s r nonce der"

interpretation chat: one_shot "admit_step H E Z ID" r_used_nullifiers "\<lambda>_. j_nullifier"
  for H :: sha and E :: "('vk, 'sg) ecdsa" and Z :: "'r zkvm" and ID :: program_id
  by unfold_locales (auto simp: admit_Inr admit_Inl split: prod.splits)

section \<open>The roster invariant\<close>

definition member_backed :: "sha \<Rightarrow> ('vk, 'sg) ecdsa \<Rightarrow> 'r zkvm \<Rightarrow> program_id \<Rightarrow> GroupRoster
    \<Rightarrow> b33 \<Rightarrow> bool" where
  "member_backed H E Z ID s pk \<longleftrightarrow>
     (\<exists>r nonce der j. credential_for_group H E Z ID s r nonce der j
        \<and> j_presenter_pubkey j = pk \<and> j_nullifier j \<in> r_used_nullifiers s)"

definition roster_inv :: "sha \<Rightarrow> ('vk, 'sg) ecdsa \<Rightarrow> 'r zkvm \<Rightarrow> program_id \<Rightarrow> string \<Rightarrow> u128
    \<Rightarrow> GroupRoster \<Rightarrow> bool" where
  "roster_inv H E Z ID g m s \<longleftrightarrow> r_group_id s = g \<and> r_minimum_stake s = m
     \<and> (\<forall>pk \<in> r_members s. member_backed H E Z ID s pk)
     \<and> finite (r_used_nullifiers s) \<and> finite (r_members s)
     \<and> card (r_members s) \<le> card (r_used_nullifiers s)"

lemma credential_for_group_update [simp]:
  "credential_for_group H E Z ID (s\<lparr>r_used_nullifiers := u, r_members := ms\<rparr>) =
   credential_for_group H E Z ID s"
  by (simp add: credential_for_group_def fun_eq_iff)

lemma roster_inv_new: "roster_inv H E Z ID g m (roster_new g m)"
  by (simp add: roster_inv_def roster_new_def)

lemma roster_inv_admitted:
  assumes "roster_inv H E Z ID g m s" and "admit H E Z ID s r nonce der = (s', Inr j)"
  shows "roster_inv H E Z ID g m s'"
proof -
  from assms(2) have ok: "credential_for_group H E Z ID s r nonce der j"
    "j_nullifier j \<notin> r_used_nullifiers s"
    and s': "s' = s\<lparr>r_used_nullifiers := insert (j_nullifier j) (r_used_nullifiers s),
              r_members := insert (j_presenter_pubkey j) (r_members s)\<rparr>"
    by (simp_all add: admit_Inr)
  have backed: "member_backed H E Z ID s' pk" if "pk \<in> r_members s'" for pk
    using that assms(1) ok(1) by (auto simp: s' roster_inv_def member_backed_def) blast+
  have "card (r_members s') \<le> card (r_used_nullifiers s')"
    using assms(1) ok(2) by (simp add: s' roster_inv_def card_insert_if)
  with assms(1) backed show ?thesis
    by (simp add: roster_inv_def) (simp add: s')
qed

interpretation roster: one_shot_invariant "admit_step H E Z ID" r_used_nullifiers
  "\<lambda>_. j_nullifier" "roster_inv H E Z ID g m"
  for H :: sha and E :: "('vk, 'sg) ecdsa" and Z :: "'r zkvm" and ID :: program_id and g m
  by unfold_locales (auto dest: roster_inv_admitted)

lemma roster_inv_reachable:
  "reachable (admit_step H E Z ID) (roster_new g m) s \<Longrightarrow> roster_inv H E Z ID g m s"
  by (erule roster.inv_reachable) (rule roster_inv_new)

text \<open>One credential in two groups: the two context strings collide.\<close>

lemma admitted_twice_contexts:
  assumes "admit H E Z ID s r nonce der = (s1, Inr j)"
    and "admit H E Z ID t r nonce' der' = (t1, Inr j')"
  shows "group_context_id H (r_group_id s) = group_context_id H (r_group_id t)"
  using assms by (auto simp: admit_Inr credential_for_group_def)

section \<open>Runs of the roster\<close>

interpretation policy: one_shot_invariant "admit_step H E Z ID" r_used_nullifiers
  "\<lambda>_. j_nullifier" "\<lambda>s. r_group_id s = g \<and> r_minimum_stake s = m"
  for H :: sha and E :: "('vk, 'sg) ecdsa" and Z :: "'r zkvm" and ID :: program_id and g m
  by unfold_locales (auto simp: admit_Inr)

lemma roster_policy_fixed:
  "reachable (admit_step H E Z ID) s s' \<Longrightarrow>
   r_group_id s' = r_group_id s \<and> r_minimum_stake s' = r_minimum_stake s"
  by (rule policy.inv_reachable) simp_all

lemma run_members:
  "run_steps (admit_step H E Z ID) s reqs = (s', log) \<Longrightarrow>
   r_members s' = r_members s \<union> (\<lambda>(_, j). j_presenter_pubkey j) ` set (successes log)"
proof (induction reqs arbitrary: s log)
  case (Cons req reqs)
  obtain r nonce der where req: "req = (r, nonce, der)" by (cases req)
  from Cons.prems obtain s1 res log1 where step: "admit H E Z ID s r nonce der = (s1, res)"
    and rest: "run_steps (admit_step H E Z ID) s1 reqs = (s', log1)" and log: "log = (req, res) # log1"
    by (auto simp: req split: prod.splits)
  from Cons.IH [OF rest] step show ?case
    by (cases res) (auto simp: log admit_Inr admit_Inl)
qed simp

text \<open>The guest derives the nullifier from the account, so a second credential of the same account
  under the same key in the same context has the same nullifier.\<close>

lemma same_account_same_nullifier:
  assumes "risc0_sound Z ID H ext" and "verify_receipt Z ID r = Inr j" and "verify_receipt Z ID r' = Inr j'"
    and "j_context_id j = j_context_id j'" and "j_presenter_pubkey j = j_presenter_pubkey j'"
    and "witness_account_id H (fst (ext r)) = witness_account_id H (fst (ext r'))"
  shows "j_nullifier j = j_nullifier j'"
  using accepted_receipt_attests [OF assms(1,2)] accepted_receipt_attests [OF assms(1,3)] assms(4-6)
  by (simp add: attest_Inr)

end
