(* ===== verification/GovernanceGate.thy ===== *)
theory GovernanceGate
  imports VerifierKernel OneShotRegistry
begin

text \<open>
  \<^verbatim>\<open>integrations/governance-gate/src/lib.rs\<close>: votes counted on a proposal, one per nullifier. The
  counters are \<^verbatim>\<open>u64\<close> and \<^verbatim>\<open>+= 1\<close> is modelled as the wrapping addition of a release build; the
  tally lemmas give the bound under which no wrap happens.
\<close>

section \<open>State and operation\<close>

definition GOVERNANCE_CONTEXT_ID :: b32 where
  "GOVERNANCE_CONTEXT_ID = arr_of (bytes_of ''/lp-0005/integ/governance-v1/'' @ [0, 0, 0])"

lemma elems_GOVERNANCE_CONTEXT_ID:
  "elems GOVERNANCE_CONTEXT_ID = bytes_of ''/lp-0005/integ/governance-v1/'' @ [0, 0, 0]"
  by (simp add: GOVERNANCE_CONTEXT_ID_def)

datatype VoteError = Gate GateError | NullifierReused | NotEligible

record ProposalState =
  p_yes_votes :: u64
  p_no_votes :: u64
  p_used_nullifiers :: "b32 set"

definition proposal_default :: ProposalState where
  "proposal_default = \<lparr>p_yes_votes = 0, p_no_votes = 0, p_used_nullifiers = {}\<rparr>"

definition cast_vote :: "sha \<Rightarrow> ('vk, 'sg) ecdsa \<Rightarrow> ProposalState \<Rightarrow> PublicJournal \<Rightarrow> b32 \<Rightarrow> bytes
    \<Rightarrow> u128 \<Rightarrow> bool \<Rightarrow> ProposalState \<times> (VoteError + unit)" where
  "cast_vote H E state attestation presenter_nonce presenter_signature_der minimum_stake vote_yes =
    (case map_err Gate (check_gate H E \<lparr>g_attested = attestation,
            g_expected_context_id = GOVERNANCE_CONTEXT_ID, g_minimum_threshold = minimum_stake,
            g_challenge_nonce = presenter_nonce,
            g_presenter_signature_der = presenter_signature_der\<rparr>) of
       Inl e \<Rightarrow> (state, Inl e)
     | Inr _ \<Rightarrow>
         (let (fresh, nullifiers) = btree_insert (j_nullifier attestation) (p_used_nullifiers state);
              state = state\<lparr>p_used_nullifiers := nullifiers\<rparr>
          in if \<not> fresh then (state, Inl NullifierReused)
             else if vote_yes then (state\<lparr>p_yes_votes := p_yes_votes state + 1\<rparr>, Inr ())
             else (state\<lparr>p_no_votes := p_no_votes state + 1\<rparr>, Inr ())))"

section \<open>Characterisation\<close>

definition vote_allowed :: "sha \<Rightarrow> ('vk, 'sg) ecdsa \<Rightarrow> PublicJournal \<Rightarrow> b32 \<Rightarrow> bytes \<Rightarrow> u128 \<Rightarrow> bool"
  where
  "vote_allowed H E j nonce der m \<longleftrightarrow> j_context_id j = GOVERNANCE_CONTEXT_ID
     \<and> m \<le> j_threshold j \<and> presenter_signed H E j nonce der"

lemma vote_allowed_iff:
  "vote_allowed H E j nonce der m \<longleftrightarrow>
     check_gate H E \<lparr>g_attested = j, g_expected_context_id = GOVERNANCE_CONTEXT_ID,
       g_minimum_threshold = m, g_challenge_nonce = nonce, g_presenter_signature_der = der\<rparr> = Inr ()"
  by (auto simp: vote_allowed_def check_gate_Inr)

lemma cast_vote_Inr:
  "cast_vote H E s j nonce der m yes = (s', Inr u) \<longleftrightarrow>
     vote_allowed H E j nonce der m \<and> j_nullifier j \<notin> p_used_nullifiers s
     \<and> s' = \<lparr>p_yes_votes = p_yes_votes s + (if yes then 1 else 0),
             p_no_votes = p_no_votes s + (if yes then 0 else 1),
             p_used_nullifiers = insert (j_nullifier j) (p_used_nullifiers s)\<rparr>"
  by (cases s) (auto simp: cast_vote_def vote_allowed_iff btree_insert_def Let_def map_err_Inl
      map_err_Inr split: sum.splits)

lemma cast_vote_Inl:
  "cast_vote H E s j nonce der m yes = (s', Inl e) \<longleftrightarrow> s' = s \<and>
     (case check_gate H E \<lparr>g_attested = j, g_expected_context_id = GOVERNANCE_CONTEXT_ID,
          g_minimum_threshold = m, g_challenge_nonce = nonce, g_presenter_signature_der = der\<rparr> of
        Inl g \<Rightarrow> e = Gate g
      | Inr _ \<Rightarrow> e = NullifierReused \<and> j_nullifier j \<in> p_used_nullifiers s)"
  by (auto simp: cast_vote_def btree_insert_def Let_def insert_absorb split: sum.splits)

type_synonym ballot = "PublicJournal \<times> b32 \<times> bytes \<times> u128 \<times> bool"

abbreviation vote_step :: "sha \<Rightarrow> ('vk, 'sg) ecdsa \<Rightarrow> ProposalState \<Rightarrow> ballot
    \<Rightarrow> ProposalState \<times> (VoteError + unit)" where
  "vote_step H E s \<equiv> \<lambda>(j, nonce, der, m, yes). cast_vote H E s j nonce der m yes"

interpretation votes: one_shot "vote_step H E" p_used_nullifiers "\<lambda>b _. j_nullifier (fst b)"
  for H :: sha and E :: "('vk, 'sg) ecdsa"
  by unfold_locales (auto simp: cast_vote_Inr cast_vote_Inl split: prod.splits)

section \<open>The tally\<close>

definition yes_ballots :: "(ballot \<times> (VoteError + unit)) list \<Rightarrow> nat" where
  "yes_ballots log = length (filter (\<lambda>((j, n, d, m, yes), _). yes) (successes log))"

definition no_ballots :: "(ballot \<times> (VoteError + unit)) list \<Rightarrow> nat" where
  "no_ballots log = length (filter (\<lambda>((j, n, d, m, yes), _). \<not> yes) (successes log))"

lemma run_votes_counts:
  "run_steps (vote_step H E) s bs = (s', log) \<Longrightarrow>
     p_yes_votes s' = p_yes_votes s + of_nat (yes_ballots log)
     \<and> p_no_votes s' = p_no_votes s + of_nat (no_ballots log)"
proof (induction bs arbitrary: s log)
  case (Cons b bs)
  then obtain s1 res log1 where step: "vote_step H E s b = (s1, res)"
    and rest: "run_steps (vote_step H E) s1 bs = (s', log1)" and log: "log = (b, res) # log1"
    by (auto split: prod.splits)
  obtain j n d m yes where b: "b = (j, n, d, m, yes)" by (cases b)
  note IH = Cons.IH [OF rest]
  show ?case
  proof (cases res)
    case (Inl e)
    with step have "s1 = s" by (simp add: b cast_vote_Inl)
    with IH Inl log show ?thesis by (simp add: yes_ballots_def no_ballots_def)
  next
    case (Inr u)
    with step have "s1 = \<lparr>p_yes_votes = p_yes_votes s + (if yes then 1 else 0),
             p_no_votes = p_no_votes s + (if yes then 0 else 1),
             p_used_nullifiers = insert (j_nullifier j) (p_used_nullifiers s)\<rparr>"
      by (simp add: b cast_vote_Inr)
    with IH Inr log show ?thesis by (simp add: yes_ballots_def no_ballots_def b ac_simps)
  qed
qed (simp add: yes_ballots_def no_ballots_def)

lemma ballots_partition: "yes_ballots log + no_ballots log = length (successes log)"
  by (induction log rule: successes.induct) (auto simp: yes_ballots_def no_ballots_def)

lemma length_successes: "length (successes log) \<le> length log"
  by (induction log rule: successes.induct) simp_all

end
