(* ===== verification/PremiumFeatures.thy ===== *)
theory PremiumFeatures
  imports OffchainVerifier OneShotRegistry
begin

text \<open>
  \<^verbatim>\<open>integrations/premium-features/src/lib.rs\<close>: feature tiers, each with a minimum balance and a
  context of its own, activated once per nullifier. \<^verbatim>\<open>BTreeMap\<close> is a map.
\<close>

section \<open>Tiers and the service\<close>

datatype ActivateError = Verify VerifyError | NullifierReused

datatype Tier = Free | Pro | Enterprise

fun minimum_balance :: "Tier \<Rightarrow> u128" where
  "minimum_balance Free = 0"
| "minimum_balance Pro = 10000"
| "minimum_balance Enterprise = 1000000"

fun tier_name :: "Tier \<Rightarrow> string" where
  "tier_name Free = ''free''"
| "tier_name Pro = ''pro''"
| "tier_name Enterprise = ''enterprise''"

definition tier_context_bytes :: "Tier \<Rightarrow> bytes" where
  "tier_context_bytes t =
     bytes_of ''/lp-0005/integ/premium-features-v1/tier/'' @ bytes_of (tier_name t)"

definition tier_context_id :: "sha \<Rightarrow> Tier \<Rightarrow> b32" where
  "tier_context_id H t = H (tier_context_bytes t)"

record FeatureService =
  active_sessions :: "b32 \<rightharpoonup> Tier"

definition feature_service_default :: FeatureService where
  "feature_service_default = \<lparr>active_sessions = Map.empty\<rparr>"

definition activate :: "sha \<Rightarrow> ('vk, 'sg) ecdsa \<Rightarrow> 'r zkvm \<Rightarrow> program_id \<Rightarrow> FeatureService \<Rightarrow> Tier
    \<Rightarrow> 'r \<Rightarrow> b32 \<Rightarrow> bytes \<Rightarrow> FeatureService \<times> (ActivateError + PublicJournal)" where
  "activate H E Z ATTESTATION_ID self tier receipt presenter_nonce presenter_signature_der =
    (let ctx = tier_context_id H tier
     in case verify_credential H E Z ATTESTATION_ID receipt presenter_nonce presenter_signature_der
           ctx (minimum_balance tier) of
          Inl e \<Rightarrow> (self, Inl (Verify e))
        | Inr journal \<Rightarrow>
            if active_sessions self (j_nullifier journal) \<noteq> None then (self, Inl NullifierReused)
            else (self\<lparr>active_sessions := (active_sessions self)(j_nullifier journal \<mapsto> tier)\<rparr>,
                  Inr journal))"

definition tier_for :: "FeatureService \<Rightarrow> b32 \<Rightarrow> Tier option" where
  "tier_for self nullifier = active_sessions self nullifier"

section \<open>Characterisation\<close>

lemma tier_context_bytes_inject [simp]: "tier_context_bytes t = tier_context_bytes t' \<longleftrightarrow> t = t'"
  by (cases t; cases t') (simp_all add: tier_context_bytes_def)

definition credential_for_tier :: "sha \<Rightarrow> ('vk, 'sg) ecdsa \<Rightarrow> 'r zkvm \<Rightarrow> program_id \<Rightarrow> Tier
    \<Rightarrow> 'r \<Rightarrow> b32 \<Rightarrow> bytes \<Rightarrow> PublicJournal \<Rightarrow> bool" where
  "credential_for_tier H E Z ID t r nonce der j \<longleftrightarrow>
     verify_receipt Z ID r = Inr j \<and> j_context_id j = tier_context_id H t
     \<and> minimum_balance t \<le> j_threshold j \<and> presenter_signed H E j nonce der"

lemma credential_for_tier_iff:
  "credential_for_tier H E Z ID t r nonce der j \<longleftrightarrow>
     verify_credential H E Z ID r nonce der (tier_context_id H t) (minimum_balance t) = Inr j"
  by (auto simp: credential_for_tier_def verify_credential_Inr)

lemma activate_Inr:
  "activate H E Z ID s t r nonce der = (s', Inr j) \<longleftrightarrow>
     credential_for_tier H E Z ID t r nonce der j \<and> j_nullifier j \<notin> dom (active_sessions s)
     \<and> s' = s\<lparr>active_sessions := (active_sessions s)(j_nullifier j \<mapsto> t)\<rparr>"
  by (auto simp: activate_def Let_def credential_for_tier_iff domIff split: sum.splits)

lemma activate_Inl:
  "activate H E Z ID s t r nonce der = (s', Inl e) \<longleftrightarrow> s' = s \<and>
     (case verify_credential H E Z ID r nonce der (tier_context_id H t) (minimum_balance t) of
        Inl v \<Rightarrow> e = Verify v
      | Inr j \<Rightarrow> e = NullifierReused \<and> j_nullifier j \<in> dom (active_sessions s))"
  by (auto simp: activate_def Let_def domIff split: sum.splits)

abbreviation activate_step :: "sha \<Rightarrow> ('vk, 'sg) ecdsa \<Rightarrow> 'r zkvm \<Rightarrow> program_id \<Rightarrow> FeatureService
    \<Rightarrow> Tier \<times> 'r \<times> b32 \<times> bytes \<Rightarrow> FeatureService \<times> (ActivateError + PublicJournal)" where
  "activate_step H E Z ID s \<equiv> \<lambda>(t, r, nonce, der). activate H E Z ID s t r nonce der"

interpretation tiers: one_shot "activate_step H E Z ID" "\<lambda>s. dom (active_sessions s)"
  "\<lambda>_. j_nullifier"
  for H :: sha and E :: "('vk, 'sg) ecdsa" and Z :: "'r zkvm" and ID :: program_id
  by unfold_locales (auto simp: activate_Inr activate_Inl split: prod.splits)

section \<open>The session invariant\<close>

definition session_backed :: "sha \<Rightarrow> ('vk, 'sg) ecdsa \<Rightarrow> 'r zkvm \<Rightarrow> program_id \<Rightarrow> b32 \<Rightarrow> Tier \<Rightarrow> bool"
  where
  "session_backed H E Z ID n t \<longleftrightarrow>
     (\<exists>r nonce der j. credential_for_tier H E Z ID t r nonce der j \<and> j_nullifier j = n)"

interpretation backed: one_shot_invariant "activate_step H E Z ID" "\<lambda>s. dom (active_sessions s)"
  "\<lambda>_. j_nullifier" "\<lambda>s. \<forall>n t. tier_for s n = Some t \<longrightarrow> session_backed H E Z ID n t"
  for H :: sha and E :: "('vk, 'sg) ecdsa" and Z :: "'r zkvm" and ID :: program_id
proof unfold_locales
  fix s req s' j
  assume inv: "\<forall>n t. tier_for s n = Some t \<longrightarrow> session_backed H E Z ID n t"
    and step: "activate_step H E Z ID s req = (s', Inr j)"
  obtain t r nonce der where req: "req = (t, r, nonce, der)" by (cases req)
  from step have "credential_for_tier H E Z ID t r nonce der j"
    and "s' = s\<lparr>active_sessions := (active_sessions s)(j_nullifier j \<mapsto> t)\<rparr>"
    by (simp_all add: req activate_Inr)
  with inv show "\<forall>n t. tier_for s' n = Some t \<longrightarrow> session_backed H E Z ID n t"
    by (auto simp: tier_for_def session_backed_def)
qed

lemma sessions_backed:
  assumes "reachable (activate_step H E Z ID) feature_service_default s"
    and "tier_for s n = Some t"
  shows "session_backed H E Z ID n t"
  using backed.inv_reachable [OF assms(1)] assms(2)
  by (simp add: tier_for_def feature_service_default_def)

text \<open>An active session keeps its tier.\<close>

interpretation kept: one_shot_invariant "activate_step H E Z ID" "\<lambda>s. dom (active_sessions s)"
  "\<lambda>_. j_nullifier" "\<lambda>s. tier_for s n = Some t"
  for H :: sha and E :: "('vk, 'sg) ecdsa" and Z :: "'r zkvm" and ID :: program_id and n t
  by unfold_locales (auto simp: activate_Inr tier_for_def)

lemma tier_for_stable:
  "reachable (activate_step H E Z ID) s s' \<Longrightarrow> tier_for s n = Some t \<Longrightarrow> tier_for s' n = Some t"
  by (rule kept.inv_reachable)

end
