(* ===== verification/GateSuite.thy ===== *)
theory GateSuite
  imports SignatureSuite ChatGate GovernanceGate PremiumFeatures
begin

text \<open>
  The integration tests that need neither a network nor real proving:
  \<^verbatim>\<open>verifier-program/tests/gate.rs\<close>, \<^verbatim>\<open>attestation-core/tests/gate_tag.rs\<close>,
  \<^verbatim>\<open>merkle_regression.rs\<close> and \<^verbatim>\<open>nullifier_regression.rs\<close> beside it,
  \<^verbatim>\<open>sdk/tests/prove_failures.rs\<close>, \<^verbatim>\<open>chat-gate/tests/admission.rs\<close>,
  \<^verbatim>\<open>governance-gate/tests/vote.rs\<close> and \<^verbatim>\<open>premium-features/tests/tiers.rs\<close>. As in \<open>SignatureSuite\<close>
  each test is a definition that is true when the test passes, keys are arguments, and a digest
  that a test expects to differ differs unless two of the listed messages collide.
\<close>

section \<open>\<^verbatim>\<open>verifier-program/tests/gate.rs\<close>\<close>

definition gate_journal :: "b33 \<Rightarrow> b32 \<Rightarrow> u128 \<Rightarrow> PublicJournal" where
  "gate_journal presenter_pubkey context_id threshold = \<lparr>j_merkle_root = arr_rep 0x11,
     j_threshold = threshold, j_context_id = context_id, j_presenter_pubkey = presenter_pubkey,
     j_nullifier = arr_rep 0x22\<rparr>"

definition sign_kernel :: "sha \<Rightarrow> ('sk, 'vk, 'sg) signer \<Rightarrow> 'sk \<Rightarrow> PublicJournal \<Rightarrow> b32 \<Rightarrow> bytes" where
  "sign_kernel H S sk journal nonce =
    (let digest = kernel_challenge_digest H nonce journal;
         sig = ecdsa_sign S sk (elems digest)
     in to_der S sig)"

definition accepts_well_formed_gate ::
  "sha \<Rightarrow> ('vk, 'sg) ecdsa \<Rightarrow> ('sk, 'vk, 'sg) signer \<Rightarrow> 'sk \<Rightarrow> bool" where
  "accepts_well_formed_gate H E S sk =
    (case presenter_public S sk of None \<Rightarrow> False
     | Some pk \<Rightarrow>
        (let ctx = arr_rep 0x33; journal = gate_journal pk ctx 100; nonce = arr_rep 0x44;
             sig = sign_kernel H S sk journal nonce
         in check_gate H E \<lparr>g_attested = journal, g_expected_context_id = ctx,
              g_minimum_threshold = 100, g_challenge_nonce = nonce,
              g_presenter_signature_der = sig\<rparr> = Inr ()))"

definition rejects_context_mismatch ::
  "sha \<Rightarrow> ('vk, 'sg) ecdsa \<Rightarrow> ('sk, 'vk, 'sg) signer \<Rightarrow> 'sk \<Rightarrow> bool" where
  "rejects_context_mismatch H E S sk =
    (case presenter_public S sk of None \<Rightarrow> False
     | Some pk \<Rightarrow>
        (let journal = gate_journal pk (arr_rep 0x33) 100; nonce = arr_rep 0x44;
             sig = sign_kernel H S sk journal nonce
         in check_gate H E \<lparr>g_attested = journal, g_expected_context_id = arr_rep 0xff,
              g_minimum_threshold = 100, g_challenge_nonce = nonce,
              g_presenter_signature_der = sig\<rparr> = Inl GateError.ContextMismatch))"

definition rejects_threshold_too_low ::
  "sha \<Rightarrow> ('vk, 'sg) ecdsa \<Rightarrow> ('sk, 'vk, 'sg) signer \<Rightarrow> 'sk \<Rightarrow> bool" where
  "rejects_threshold_too_low H E S sk =
    (case presenter_public S sk of None \<Rightarrow> False
     | Some pk \<Rightarrow>
        (let ctx = arr_rep 0x33; journal = gate_journal pk ctx 50; nonce = arr_rep 0x44;
             sig = sign_kernel H S sk journal nonce
         in check_gate H E \<lparr>g_attested = journal, g_expected_context_id = ctx,
              g_minimum_threshold = 100, g_challenge_nonce = nonce,
              g_presenter_signature_der = sig\<rparr> = Inl GateError.ThresholdTooLow))"

definition rejects_signature_from_wrong_presenter ::
  "sha \<Rightarrow> ('vk, 'sg) ecdsa \<Rightarrow> ('sk, 'vk, 'sg) signer \<Rightarrow> 'sk \<Rightarrow> 'sk \<Rightarrow> bool" where
  "rejects_signature_from_wrong_presenter H E S alice bob =
    (case presenter_public S alice of None \<Rightarrow> False
     | Some alice_pk \<Rightarrow>
        (let ctx = arr_rep 0x33; journal = gate_journal alice_pk ctx 100; nonce = arr_rep 0x44;
             bob_sig = sign_kernel H S bob journal nonce
         in check_gate H E \<lparr>g_attested = journal, g_expected_context_id = ctx,
              g_minimum_threshold = 100, g_challenge_nonce = nonce,
              g_presenter_signature_der = bob_sig\<rparr> = Inl GateError.SignatureRejected))"

definition rejects_signature_for_different_nonce ::
  "sha \<Rightarrow> ('vk, 'sg) ecdsa \<Rightarrow> ('sk, 'vk, 'sg) signer \<Rightarrow> 'sk \<Rightarrow> bool" where
  "rejects_signature_for_different_nonce H E S sk =
    (case presenter_public S sk of None \<Rightarrow> False
     | Some pk \<Rightarrow>
        (let ctx = arr_rep 0x33; journal = gate_journal pk ctx 100; signing_nonce = arr_rep 0x44;
             presenter_sig = sign_kernel H S sk journal signing_nonce
         in check_gate H E \<lparr>g_attested = journal, g_expected_context_id = ctx,
              g_minimum_threshold = 100, g_challenge_nonce = arr_rep 0x99,
              g_presenter_signature_der = presenter_sig\<rparr> = Inl GateError.SignatureRejected))"

section \<open>\<^verbatim>\<open>governance-gate/tests/vote.rs\<close>\<close>

definition vote_journal :: "b33 \<Rightarrow> u128 \<Rightarrow> u8 \<Rightarrow> PublicJournal" where
  "vote_journal presenter_pubkey threshold nullifier_byte = \<lparr>j_merkle_root = arr_rep 0x11,
     j_threshold = threshold, j_context_id = GOVERNANCE_CONTEXT_ID,
     j_presenter_pubkey = presenter_pubkey, j_nullifier = arr_rep nullifier_byte\<rparr>"

definition yes_vote_accepted_with_valid_attestation ::
  "sha \<Rightarrow> ('vk, 'sg) ecdsa \<Rightarrow> ('sk, 'vk, 'sg) signer \<Rightarrow> 'sk \<Rightarrow> bool" where
  "yes_vote_accepted_with_valid_attestation H E S sk =
    (case presenter_public S sk of None \<Rightarrow> False
     | Some pk \<Rightarrow>
        (let journal = vote_journal pk 1000 0xaa; nonce = arr_rep 0x44;
             sig = sign_kernel H S sk journal nonce
         in case cast_vote H E proposal_default journal nonce sig 500 True of
              (_, Inl _) \<Rightarrow> False
            | (state, Inr _) \<Rightarrow> p_yes_votes state = 1 \<and> p_no_votes state = 0
                \<and> card (p_used_nullifiers state) = 1))"

definition nullifier_replay_rejected ::
  "sha \<Rightarrow> ('vk, 'sg) ecdsa \<Rightarrow> ('sk, 'vk, 'sg) signer \<Rightarrow> 'sk \<Rightarrow> bool" where
  "nullifier_replay_rejected H E S sk =
    (case presenter_public S sk of None \<Rightarrow> False
     | Some pk \<Rightarrow>
        (let journal = vote_journal pk 1000 0xbb; nonce = arr_rep 0x44;
             sig = sign_kernel H S sk journal nonce
         in case cast_vote H E proposal_default journal nonce sig 500 True of
              (_, Inl _) \<Rightarrow> False
            | (state, Inr _) \<Rightarrow>
                (let nonce2 = arr_rep 0x77; sig2 = sign_kernel H S sk journal nonce2;
                     (state, result) = cast_vote H E state journal nonce2 sig2 500 True
                 in result = Inl VoteError.NullifierReused \<and> p_yes_votes state = 1)))"

definition insufficient_attested_threshold_rejected ::
  "sha \<Rightarrow> ('vk, 'sg) ecdsa \<Rightarrow> ('sk, 'vk, 'sg) signer \<Rightarrow> 'sk \<Rightarrow> bool" where
  "insufficient_attested_threshold_rejected H E S sk =
    (case presenter_public S sk of None \<Rightarrow> False
     | Some pk \<Rightarrow>
        (let journal = vote_journal pk 100 0xcc; nonce = arr_rep 0x44;
             sig = sign_kernel H S sk journal nonce
         in case snd (cast_vote H E proposal_default journal nonce sig 1000 True) of
              Inl (VoteError.Gate _) \<Rightarrow> True | _ \<Rightarrow> False))"

section \<open>\<^verbatim>\<open>premium-features/tests/tiers.rs\<close>\<close>

definition tier_context_ids_are_distinct :: "sha \<Rightarrow> bool" where
  "tier_context_ids_are_distinct H =
    (let f = tier_context_id H Free; p = tier_context_id H Pro; e = tier_context_id H Enterprise
     in f \<noteq> p \<and> p \<noteq> e \<and> f \<noteq> e)"

definition tier_minimum_balances_are_monotonic :: bool where
  "tier_minimum_balances_are_monotonic \<longleftrightarrow> minimum_balance Free < minimum_balance Pro
     \<and> minimum_balance Pro < minimum_balance Enterprise"

definition tier_journal :: "sha \<Rightarrow> b33 \<Rightarrow> u128 \<Rightarrow> PublicJournal" where
  "tier_journal H pubkey threshold = \<lparr>j_merkle_root = arr_rep 0, j_threshold = threshold,
     j_context_id = tier_context_id H Pro, j_presenter_pubkey = pubkey, j_nullifier = arr_rep 0\<rparr>"

definition challenge_digest_distinguishes_journal_threshold ::
  "sha \<Rightarrow> ('sk, 'vk, 'sg) signer \<Rightarrow> 'sk \<Rightarrow> bool" where
  "challenge_digest_distinguishes_journal_threshold H S sk =
    (case presenter_public S sk of None \<Rightarrow> False
     | Some pubkey \<Rightarrow>
        (let nonce = arr_rep 0x42; j1 = tier_journal H pubkey 100;
             d1 = kernel_challenge_digest H nonce j1;
             d2 = kernel_challenge_digest H nonce (j1\<lparr>j_threshold := 1000\<rparr>)
         in d1 \<noteq> d2))"

section \<open>\<^verbatim>\<open>attestation-core/tests/gate_tag.rs\<close>\<close>

definition TAG_NULLIFIER :: b32 where "TAG_NULLIFIER = arr_rep 0x11"
definition TAG_CONTEXT :: b32 where "TAG_CONTEXT = arr_rep 0x22"

definition a_zero_floor_marker_cannot_stand_in_for_a_real_one :: "sha \<Rightarrow> bool" where
  "a_zero_floor_marker_cannot_stand_in_for_a_real_one H =
    (let attacker = compute_gate_tag H TAG_NULLIFIER 0 TAG_CONTEXT;
         honest = compute_gate_tag H TAG_NULLIFIER 1000 TAG_CONTEXT
     in attacker \<noteq> honest)"

definition adjacent_thresholds_are_distinct :: "sha \<Rightarrow> bool" where
  "adjacent_thresholds_are_distinct H \<longleftrightarrow>
     compute_gate_tag H TAG_NULLIFIER 999 TAG_CONTEXT \<noteq> compute_gate_tag H TAG_NULLIFIER 1000 TAG_CONTEXT"

definition context_separates_gates :: "sha \<Rightarrow> bool" where
  "context_separates_gates H =
    (let gate_a = compute_gate_tag H TAG_NULLIFIER 1000 (arr_rep 0xaa);
         gate_b = compute_gate_tag H TAG_NULLIFIER 1000 (arr_rep 0xbb)
     in gate_a \<noteq> gate_b)"

definition distinct_attestations_yield_distinct_markers :: "sha \<Rightarrow> bool" where
  "distinct_attestations_yield_distinct_markers H \<longleftrightarrow>
     compute_gate_tag H (arr_rep 1) 1000 TAG_CONTEXT \<noteq> compute_gate_tag H (arr_rep 2) 1000 TAG_CONTEXT"

definition the_tag_is_deterministic :: "sha \<Rightarrow> bool" where
  "the_tag_is_deterministic H \<longleftrightarrow>
     compute_gate_tag H TAG_NULLIFIER 1000 TAG_CONTEXT = compute_gate_tag H TAG_NULLIFIER 1000 TAG_CONTEXT"

definition the_tag_never_collides_with_a_nullifier :: "sha \<Rightarrow> bool" where
  "the_tag_never_collides_with_a_nullifier H =
    (let pubkey = arr_rep 2; account_id = arr_rep 0x33;
         nullifier = compute_nullifier H pubkey TAG_CONTEXT account_id;
         tag = compute_gate_tag H nullifier 1000 TAG_CONTEXT
     in GATE_TAG_PREFIX \<noteq> NULLIFIER_PREFIX \<and> tag \<noteq> nullifier)"

definition the_encoding_is_pinned :: "sha \<Rightarrow> bool" where
  "the_encoding_is_pinned H =
    (let expected = H (elems GATE_TAG_PREFIX @ elems TAG_NULLIFIER @ u128_le 1000 @ elems TAG_CONTEXT)
     in compute_gate_tag H TAG_NULLIFIER 1000 TAG_CONTEXT = expected)"

section \<open>\<^verbatim>\<open>merkle_regression.rs\<close> and \<^verbatim>\<open>nullifier_regression.rs\<close>\<close>

definition depth_2_left_left_leaf :: "sha \<Rightarrow> bool" where
  "depth_2_left_left_leaf H =
    (let l0 = H (bytes_of ''leaf-0''); l1 = H (bytes_of ''leaf-1'');
         l2 = H (bytes_of ''leaf-2''); l3 = H (bytes_of ''leaf-3'');
         l01 = H (elems l0 @ elems l1); l23 = H (elems l2 @ elems l3);
         root = H (elems l01 @ elems l23); got = fold_merkle_path H l0 0 [l1, l23]
     in got = root)"

definition depth_2_right_left_leaf :: "sha \<Rightarrow> bool" where
  "depth_2_right_left_leaf H =
    (let l0 = H (bytes_of ''leaf-0''); l1 = H (bytes_of ''leaf-1'');
         l2 = H (bytes_of ''leaf-2''); l3 = H (bytes_of ''leaf-3'');
         l01 = H (elems l0 @ elems l1); l23 = H (elems l2 @ elems l3);
         root = H (elems l01 @ elems l23); got = fold_merkle_path H l2 2 [l3, l01]
     in got = root)"

definition nullifier_matches_hand_computed_vector :: "sha \<Rightarrow> bool" where
  "nullifier_matches_hand_computed_vector H =
    (let presenter_pubkey = arr_rep 0xaa; context_id = arr_rep 0xbb; account_id = arr_rep 0xcc;
         prefix = bytes_of ''/lp-0005/v0.1/Nullifier/'' @ replicate 8 0;
         expected = H (prefix @ elems (presenter_pubkey :: b33) @ elems (context_id :: b32)
           @ elems (account_id :: b32))
     in compute_nullifier H presenter_pubkey context_id account_id = expected)"

definition nullifier_distinguishes_context :: "sha \<Rightarrow> bool" where
  "nullifier_distinguishes_context H =
    (let pk = arr_rep 0xaa; aid = arr_rep 0xcc
     in compute_nullifier H pk (arr_rep 1) aid \<noteq> compute_nullifier H pk (arr_rep 2) aid)"

definition nullifier_distinguishes_presenter :: "sha \<Rightarrow> bool" where
  "nullifier_distinguishes_presenter H =
    (let ctx = arr_rep 1; aid = arr_rep 0xcc
     in compute_nullifier H (arr_rep 0xaa) ctx aid \<noteq> compute_nullifier H (arr_rep 0xbb) ctx aid)"

section \<open>\<^verbatim>\<open>sdk/tests/prove_failures.rs\<close>\<close>

text \<open>\<^verbatim>\<open>Display\<close> of \<^verbatim>\<open>ProveError\<close>: the cause, and on a second line what to do about it.\<close>

definition newline :: string where "newline = [CHR 0x0A]"

fun display_prove_error :: "ProveError \<Rightarrow> string" where
  "display_prove_error (StatementFalse reason) =
     ''the attestation is not true for these inputs: '' @ reason @ newline
     @ ''This is not a bug: the circuit refuses to prove a false statement.''"
| "display_prove_error (ProverUnavailable s) =
     ''the Risc0 prover is unavailable: '' @ s @ newline
     @ ''Install it with:  curl -L https://risczero.com/install | bash && rzup install r0vm 3.0.5''"
| "display_prove_error (Groth16Unavailable s) =
     ''Groth16 wrapping failed: '' @ s @ newline
     @ ''It needs Docker running for the BN254 prover sidecar. Either start Docker, ''
     @ ''or use the default composite receipt, which needs no sidecar but is ~300 KB ''
     @ ''instead of ~1.5 KB.''"
| "display_prove_error (SessionLimit s) =
     ''proving exceeded the zkVM session limit: '' @ s @ newline
     @ ''The most common cause is an over-deep Merkle path; check merkle_path.len().''"
| "display_prove_error (Other s) = ''proof generation failed: '' @ s"

definition consistent :: "sha \<Rightarrow> u128 \<Rightarrow> u128 \<Rightarrow> ProveRequest" where
  "consistent H balance threshold =
    (let req = \<lparr>q_npk = arr_rep 7, q_identifier = 1, q_program_owner = arr_rep 11,
           q_balance = balance, q_nonce = 3, q_data_hash = H [], q_merkle_path = [], q_leaf_index = 0,
           q_merkle_root = arr_rep 0, q_threshold = threshold, q_context_id = arr_rep 42,
           q_presenter_pubkey = arr_rep 2\<rparr>;
         (_, leaf) = precompute_leaf H req;
         (path, root) = synthetic_merkle_path H leaf (q_leaf_index req) 3
     in req\<lparr>q_merkle_path := path, q_merkle_root := root\<rparr>)"

definition a_balance_below_the_threshold_is_reported_as_a_false_statement ::
  "sha \<Rightarrow> ('env, 'r) prover \<Rightarrow> 'r zkvm \<Rightarrow> bool" where
  "a_balance_below_the_threshold_is_reported_as_a_false_statement H P Z =
    (case prove_checked H P Z (consistent H 50000 100000) of
       Inl (StatementFalse reason) \<Rightarrow>
         (let shown = display_prove_error (StatementFalse reason)
          in str_contains reason ''balance is below the attested threshold''
             \<and> str_contains shown ''not a bug''
             \<and> str_contains shown ''refuses to prove a false statement'')
     | _ \<Rightarrow> False)"

definition a_merkle_path_that_does_not_anchor_is_reported_as_a_false_statement ::
  "sha \<Rightarrow> ('env, 'r) prover \<Rightarrow> 'r zkvm \<Rightarrow> bool" where
  "a_merkle_path_that_does_not_anchor_is_reported_as_a_false_statement H P Z =
    (case prove_checked H P Z ((consistent H 1000000 100000)\<lparr>q_merkle_root := arr_rep 0xaa\<rparr>) of
       Inl (StatementFalse reason) \<Rightarrow> str_contains reason ''merkle path does not anchor''
     | _ \<Rightarrow> False)"

definition every_error_variant_renders_actionable_text :: bool where
  "every_error_variant_renders_actionable_text \<longleftrightarrow>
     list_all (\<lambda>c. let s = display_prove_error c in 20 < length s \<and> \<not> str_contains s ''Err('')
       [StatementFalse ''balance is below the attested threshold'', ProverUnavailable ''r0vm not found'',
        Groth16Unavailable ''docker daemon not running'', SessionLimit ''exceeded 32M cycles'',
        Other ''something else'']
     \<and> str_contains (display_prove_error (ProverUnavailable ''x'')) ''rzup install''
     \<and> str_contains (display_prove_error (Groth16Unavailable ''x'')) ''Docker''"

definition a_satisfiable_request_still_proves ::
  "sha \<Rightarrow> ('env, 'r) prover \<Rightarrow> 'r zkvm \<Rightarrow> bool" where
  "a_satisfiable_request_still_proves H P Z =
    (case prove_checked H P Z (consistent H 1000000 100000) of
       Inl _ \<Rightarrow> False | Inr proof \<Rightarrow> j_threshold (pf_journal proof) = 100000)"

section \<open>\<^verbatim>\<open>chat-gate/tests/admission.rs\<close>\<close>

definition chat_request :: "sha \<Rightarrow> b33 \<Rightarrow> string \<Rightarrow> u128 \<Rightarrow> u128 \<Rightarrow> ProveRequest" where
  "chat_request H presenter_pubkey group_id balance threshold =
    (let req = \<lparr>q_npk = arr_rep 0x33, q_identifier = 1, q_program_owner = arr_rep 0x11223344,
           q_balance = balance, q_nonce = 7, q_data_hash = H (bytes_of ''chat-gate-fixture''),
           q_merkle_path = [], q_leaf_index = 3, q_merkle_root = arr_rep 0, q_threshold = threshold,
           q_context_id = group_context_id H group_id, q_presenter_pubkey = presenter_pubkey\<rparr>;
         (_, leaf_hash) = precompute_leaf H req;
         (path, root) = synthetic_merkle_path H leaf_hash (q_leaf_index req) TREE_DEPTH
     in req\<lparr>q_merkle_path := path, q_merkle_root := root\<rparr>)"

definition admits_eligible_member :: "sha \<Rightarrow> ('vk, 'sg) ecdsa \<Rightarrow> ('sk, 'vk, 'sg) signer
    \<Rightarrow> ('env, 'r) prover \<Rightarrow> 'r zkvm \<Rightarrow> program_id \<Rightarrow> 'sk \<Rightarrow> bool" where
  "admits_eligible_member H E S P Z ID sk =
    (case presenter_public S sk of None \<Rightarrow> False
     | Some pk \<Rightarrow>
        (case prove H P Z (chat_request H pk ''salon-vip'' 1000000 100000) of
           Inl _ \<Rightarrow> False
         | Inr proof \<Rightarrow>
             (let nonce = arr_rep 0x9c; sig = presenter_sign H S sk nonce (pf_journal proof)
              in case admit H E Z ID (roster_new ''salon-vip'' 100000) (pf_receipt proof) nonce sig of
                   (_, Inl _) \<Rightarrow> False
                 | (roster, Inr journal) \<Rightarrow> j_presenter_pubkey journal \<in> r_members roster)))"

definition rejects_proof_for_different_group :: "sha \<Rightarrow> ('vk, 'sg) ecdsa \<Rightarrow> ('sk, 'vk, 'sg) signer
    \<Rightarrow> ('env, 'r) prover \<Rightarrow> 'r zkvm \<Rightarrow> program_id \<Rightarrow> 'sk \<Rightarrow> bool" where
  "rejects_proof_for_different_group H E S P Z ID sk =
    (case presenter_public S sk of None \<Rightarrow> False
     | Some pk \<Rightarrow>
        (case prove H P Z (chat_request H pk ''salon-vip'' 1000000 100000) of
           Inl _ \<Rightarrow> False
         | Inr proof \<Rightarrow>
             (let nonce = arr_rep 0x9c; sig = presenter_sign H S sk nonce (pf_journal proof)
              in case snd (admit H E Z ID (roster_new ''other-room'' 100000) (pf_receipt proof) nonce sig) of
                   Inl (AdmissionError.Verify _) \<Rightarrow> True | _ \<Rightarrow> False)))"

section \<open>The suites pass\<close>

text \<open>The requests of the tests are instances of the SDK's demo fixture.\<close>

lemma consistent_fixture:
  "consistent H b m = into_request H \<lparr>d_npk = arr_rep 7, d_identifier = 1, d_program_owner = arr_rep 11,
     d_balance = b, d_nonce = 3, d_data_seed = [], d_leaf_index = 0, d_tree_depth = 3, d_threshold = m,
     d_context_id = arr_rep 42, d_presenter_pubkey = arr_rep 2\<rparr>"
  by (simp add: consistent_def into_request_def Let_def)

lemma chat_request_fixture:
  "chat_request H pk g b m = into_request H \<lparr>d_npk = arr_rep 0x33, d_identifier = 1,
     d_program_owner = arr_rep 0x11223344, d_balance = b, d_nonce = 7,
     d_data_seed = bytes_of ''chat-gate-fixture'', d_leaf_index = 3, d_tree_depth = TREE_DEPTH,
     d_threshold = m, d_context_id = group_context_id H g, d_presenter_pubkey = pk\<rparr>"
  by (simp add: chat_request_def into_request_def Let_def)

lemma sign_kernel_verdict:
  assumes "k256_ok E S" and "presenter_public S sk = Some (j_presenter_pubkey j)"
  shows "verify_presenter H E j nonce (sign_kernel H S sk' j nonce') =
    (let d = kernel_challenge_digest H nonce j; d' = kernel_challenge_digest H nonce' j
     in if verifying_key S sk = verifying_key S sk' \<and> d = d' \<or> cross_verifies E S sk d sk' d'
        then Inr () else Inl GateError.SignatureRejected)"
proof -
  obtain pk where "presenter_public S sk = Some (pk :: b33)"
    "from_sec1_bytes E (elems pk) = Some (verifying_key S sk)"
    using k256_pubkey [OF assms(1)] by blast
  moreover have "from_der E (to_der S sg) = Some sg" for sg
    using k256_signer [OF assms(1)] by (simp add: signer_ok_def)
  ultimately show ?thesis
    using assms(2)
    by (simp add: verify_presenter_def sign_kernel_def cross_verdict [OF k256_signer [OF assms(1)]] Let_def)
qed

definition gate_messages :: "sha \<Rightarrow> b33 \<Rightarrow> bytes list" where
  "gate_messages H pk =
    (let j = gate_journal pk (arr_rep 0x33) 100; n = compute_nullifier H (arr_rep 2) TAG_CONTEXT (arr_rep 0x33)
     in [journal_challenge (arr_rep 0x44) j, journal_challenge (arr_rep 0x99) j,
         journal_challenge (arr_rep 0x42) (tier_journal H pk 100),
         journal_challenge (arr_rep 0x42) (tier_journal H pk 1000),
         tier_context_bytes Free, tier_context_bytes Pro, tier_context_bytes Enterprise,
         group_context_bytes ''salon-vip'', group_context_bytes ''other-room'',
         gate_tag_bytes TAG_NULLIFIER 0 TAG_CONTEXT, gate_tag_bytes TAG_NULLIFIER 999 TAG_CONTEXT,
         gate_tag_bytes TAG_NULLIFIER 1000 TAG_CONTEXT, gate_tag_bytes TAG_NULLIFIER 1000 (arr_rep 0xaa),
         gate_tag_bytes TAG_NULLIFIER 1000 (arr_rep 0xbb), gate_tag_bytes (arr_rep 1) 1000 TAG_CONTEXT,
         gate_tag_bytes (arr_rep 2) 1000 TAG_CONTEXT, gate_tag_bytes n 1000 TAG_CONTEXT,
         nullifier_bytes (arr_rep 2) TAG_CONTEXT (arr_rep 0x33),
         nullifier_bytes (arr_rep 0xaa) (arr_rep 1) (arr_rep 0xcc),
         nullifier_bytes (arr_rep 0xaa) (arr_rep 2) (arr_rep 0xcc),
         nullifier_bytes (arr_rep 0xbb) (arr_rep 1) (arr_rep 0xcc)])"

lemma vote_suite:
  assumes "k256_ok E S"
  shows "yes_vote_accepted_with_valid_attestation H E S sk \<and> nullifier_replay_rejected H E S sk
    \<and> insufficient_attested_threshold_rejected H E S sk"
proof -
  obtain pk where pk: "presenter_public S sk = Some pk" by (rule k256_pubkey [OF assms])
  have "verify_presenter H E (vote_journal pk m n) nonce (sign_kernel H S sk (vote_journal pk m n) nonce)
      = Inr ()" for m n nonce
    using sign_kernel_verdict [OF assms, of sk "vote_journal pk m n"] pk by (simp add: vote_journal_def Let_def)
  then show ?thesis
    by (simp add: yes_vote_accepted_with_valid_attestation_def nullifier_replay_rejected_def
        insufficient_attested_threshold_rejected_def pk cast_vote_def check_gate_def btree_insert_def
        proposal_default_def Let_def) (simp add: vote_journal_def)
qed

lemma kernel_suite:
  assumes "k256_ok E S" and "presenter_public S sk = Some pk"
  shows "accepts_well_formed_gate H E S sk" "rejects_context_mismatch H E S sk"
    "rejects_threshold_too_low H E S sk"
    "verifying_key S sk \<noteq> verifying_key S other \<Longrightarrow>
       (let d = kernel_challenge_digest H (arr_rep 0x44) (gate_journal pk (arr_rep 0x33) 100)
        in rejects_signature_from_wrong_presenter H E S sk other \<or> cross_verifies E S sk d other d)"
    "inj_on H (set (gate_messages H pk)) \<Longrightarrow>
       (let d = (\<lambda>n. kernel_challenge_digest H (arr_rep n) (gate_journal pk (arr_rep 0x33) 100))
        in rejects_signature_for_different_nonce H E S sk \<or> cross_verifies E S sk (d 0x99) sk (d 0x44))"
proof -
  have fields: "j_presenter_pubkey (gate_journal pk c m) = pk" "j_context_id (gate_journal pk c m) = c"
    "j_threshold (gate_journal pk c m) = m" for c m by (simp_all add: gate_journal_def)
  note verdict = sign_kernel_verdict [OF assms(1), of sk "gate_journal pk c m" for c m,
      unfolded fields assms(2), OF refl]
  note defs = accepts_well_formed_gate_def rejects_context_mismatch_def rejects_threshold_too_low_def
    rejects_signature_from_wrong_presenter_def rejects_signature_for_different_nonce_def assms(2)
    check_gate_def fields verdict
  show "accepts_well_formed_gate H E S sk" "rejects_context_mismatch H E S sk"
    "rejects_threshold_too_low H E S sk"
    by (simp_all add: defs Let_def)
  show "let d = kernel_challenge_digest H (arr_rep 0x44) (gate_journal pk (arr_rep 0x33) 100)
        in rejects_signature_from_wrong_presenter H E S sk other \<or> cross_verifies E S sk d other d"
    if "verifying_key S sk \<noteq> verifying_key S other"
    using that by (simp add: defs Let_def)
  show "let d = (\<lambda>n. kernel_challenge_digest H (arr_rep n) (gate_journal pk (arr_rep 0x33) 100))
        in rejects_signature_for_different_nonce H E S sk \<or> cross_verifies E S sk (d 0x99) sk (d 0x44)"
    if inj: "inj_on H (set (gate_messages H pk))"
  proof -
    have "kernel_challenge_digest H (arr_rep 0x99) (gate_journal pk (arr_rep 0x33) 100)
      \<noteq> kernel_challenge_digest H (arr_rep 0x44) (gate_journal pk (arr_rep 0x33) 100)"
      unfolding kernel_digest_bytes
      by (rule inj_on_neq [OF inj]) (simp_all add: gate_messages_def Let_def)
    then show ?thesis by (simp add: defs Let_def)
  qed
qed

lemma tier_suite:
  assumes "presenter_public S sk = Some pk" and "inj_on H (set (gate_messages H pk))"
  shows "tier_context_ids_are_distinct H \<and> tier_minimum_balances_are_monotonic
    \<and> challenge_digest_distinguishes_journal_threshold H S sk"
proof -
  have "tier_context_id H t \<noteq> tier_context_id H t'" if "t \<noteq> t'" for t t'
    unfolding tier_context_id_def using that
    by (intro inj_on_neq [OF assms(2)]) (cases t; cases t'; simp add: gate_messages_def Let_def)+
  moreover have "kernel_challenge_digest H (arr_rep 0x42) (tier_journal H pk 100)
    \<noteq> kernel_challenge_digest H (arr_rep 0x42) (tier_journal H pk 1000)"
    unfolding kernel_digest_bytes
    by (rule inj_on_neq [OF assms(2)]) (simp_all add: gate_messages_def Let_def, simp add: tier_journal_def)
  moreover have "(tier_journal H pk 100)\<lparr>j_threshold := 1000\<rparr> = tier_journal H pk 1000"
    by (simp add: tier_journal_def)
  ultimately show ?thesis
    by (simp add: tier_context_ids_are_distinct_def tier_minimum_balances_are_monotonic_def
        challenge_digest_distinguishes_journal_threshold_def assms(1) Let_def)
qed

lemma tag_suite:
  assumes "inj_on H (set (gate_messages H pk))"
  shows "a_zero_floor_marker_cannot_stand_in_for_a_real_one H \<and> adjacent_thresholds_are_distinct H
    \<and> context_separates_gates H \<and> distinct_attestations_yield_distinct_markers H
    \<and> the_tag_is_deterministic H \<and> the_tag_never_collides_with_a_nullifier H \<and> the_encoding_is_pinned H"
proof -
  have tags: "compute_gate_tag H n m c \<noteq> compute_gate_tag H n' m' c'"
    if "gate_tag_bytes n m c \<in> set (gate_messages H pk)" "gate_tag_bytes n' m' c' \<in> set (gate_messages H pk)"
      "(n, m, c) \<noteq> (n', m', c')" for n n' m m' c c'
    unfolding compute_gate_tag_def by (rule inj_on_neq [OF assms that(1,2)]) (use that(3) in simp)
  have "compute_gate_tag H (compute_nullifier H (arr_rep 2) TAG_CONTEXT (arr_rep 0x33)) 1000 TAG_CONTEXT
    \<noteq> H (nullifier_bytes (arr_rep 2) TAG_CONTEXT (arr_rep 0x33))"
    unfolding compute_gate_tag_def
    by (rule inj_on_neq [OF assms]) (simp_all add: gate_messages_def Let_def preimages_disjoint [symmetric])
  then have "the_tag_never_collides_with_a_nullifier H"
    using prefixes_distinct(6)
    by (simp add: the_tag_never_collides_with_a_nullifier_def Let_def compute_nullifier_def [symmetric])
  moreover have "the_encoding_is_pinned H"
    by (simp add: the_encoding_is_pinned_def compute_gate_tag_def gate_tag_bytes_def Let_def)
  moreover have "a_zero_floor_marker_cannot_stand_in_for_a_real_one H" "adjacent_thresholds_are_distinct H"
    "context_separates_gates H" "distinct_attestations_yield_distinct_markers H"
    unfolding a_zero_floor_marker_cannot_stand_in_for_a_real_one_def adjacent_thresholds_are_distinct_def
      context_separates_gates_def distinct_attestations_yield_distinct_markers_def Let_def
    by (rule tags; simp add: gate_messages_def Let_def)+
  ultimately show ?thesis by (simp add: the_tag_is_deterministic_def)
qed

lemma core_suite:
  assumes "inj_on H (set (gate_messages H pk))"
  shows "depth_2_left_left_leaf H \<and> depth_2_right_left_leaf H \<and> nullifier_matches_hand_computed_vector H
    \<and> nullifier_distinguishes_context H \<and> nullifier_distinguishes_presenter H"
proof (intro conjI)
  show "depth_2_left_left_leaf H" "depth_2_right_left_leaf H"
    by (simp_all add: depth_2_left_left_leaf_def depth_2_right_left_leaf_def fold_merkle_path_def
        hash_two_def Let_def)
  have "elems NULLIFIER_PREFIX = bytes_of ''/lp-0005/v0.1/Nullifier/'' @ replicate 8 0"
    by (simp add: NULLIFIER_PREFIX_def bytes_of_def numeral_eq_Suc)
  then show "nullifier_matches_hand_computed_vector H"
    by (simp add: nullifier_matches_hand_computed_vector_def compute_nullifier_def nullifier_bytes_def Let_def)
  show "nullifier_distinguishes_context H" "nullifier_distinguishes_presenter H"
    unfolding nullifier_distinguishes_context_def nullifier_distinguishes_presenter_def Let_def
      compute_nullifier_def
    by (rule inj_on_neq [OF assms]; simp add: gate_messages_def Let_def)+
qed

lemma error_texts: "every_error_variant_renders_actionable_text"
  by code_simp

lemma panic_texts:
  "str_contains (panic_message BalanceBelowThreshold) ''balance is below the attested threshold''"
  "str_contains (display_prove_error (StatementFalse (panic_message BalanceBelowThreshold))) ''not a bug''"
  "str_contains (display_prove_error (StatementFalse (panic_message BalanceBelowThreshold)))
     ''refuses to prove a false statement''"
  "str_contains (panic_message MerklePathDoesNotAnchor) ''merkle path does not anchor''"
  by code_simp+

lemma failure_suite:
  assumes "\<And>req. prover_ok H P Z ID req Composite" and "q_merkle_root (consistent H 1000000 100000) \<noteq> arr_rep 0xaa"
  shows "a_balance_below_the_threshold_is_reported_as_a_false_statement H P Z
    \<and> a_merkle_path_that_does_not_anchor_is_reported_as_a_false_statement H P Z
    \<and> a_satisfiable_request_still_proves H P Z"
proof (intro conjI)
  have checked: "prove_checked H P Z req = Inl (StatementFalse (panic_message p))"
    if "guest_main H (request_inputs req) (journal_stub H req) = Inl p" for req p
    using prove_false [OF assms(1) that] classify_panic
    by (metis map_err_simps(1) prove_checked_def prove_def)
  have "guest_main H (request_inputs (consistent H 50000 100000)) (journal_stub H (consistent H 50000 100000))
      = Inl BalanceBelowThreshold"
    by (simp add: guest_main_stub consistent_fixture into_request_root)
  from checked [OF this]
  have "prove_checked H P Z (consistent H 50000 100000) = Inl (StatementFalse (panic_message BalanceBelowThreshold))" .
  then show "a_balance_below_the_threshold_is_reported_as_a_false_statement H P Z"
    using panic_texts(1-3)
    unfolding a_balance_below_the_threshold_is_reported_as_a_false_statement_def
    by (simp only: sum.case ProveError.case Let_def)
  let ?req = "(consistent H 1000000 100000)\<lparr>q_merkle_root := arr_rep 0xaa\<rparr>"
  have "request_inputs ?req = request_inputs (consistent H 1000000 100000)"
    by (simp add: request_inputs_def)
  then have "witness_root H (request_inputs ?req) \<noteq> q_merkle_root ?req"
    using assms(2) by (simp add: consistent_fixture into_request_root)
  then have "prove_checked H P Z ?req = Inl (StatementFalse (panic_message MerklePathDoesNotAnchor))"
    by (intro checked) (simp add: guest_main_stub)
  then show "a_merkle_path_that_does_not_anchor_is_reported_as_a_false_statement H P Z"
    using panic_texts(4)
    unfolding a_merkle_path_that_does_not_anchor_is_reported_as_a_false_statement_def
    by (simp only: sum.case ProveError.case)
  have "request_true H (consistent H 1000000 100000)"
    by (simp add: consistent_fixture into_request_true)
  from prove_true [OF assms(1) this] show "a_satisfiable_request_still_proves H P Z"
    by (auto simp: a_satisfiable_request_still_proves_def prove_checked_def prove_def consistent_fixture)
qed

lemma admission_suite:
  assumes "prover_ok H P Z ID (chat_request H pk ''salon-vip'' 1000000 100000) Composite"
    and "signer_ok E S" and "presenter_public S sk = Some pk"
    and "inj_on H (set (gate_messages H pk))"
  shows "admits_eligible_member H E S P Z ID sk \<and> rejects_proof_for_different_group H E S P Z ID sk"
proof -
  let ?req = "chat_request H pk ''salon-vip'' 1000000 100000"
  let ?j = "journal_stub H ?req" and ?nonce = "arr_rep 0x9c :: b32"
  have true: "request_true H ?req" by (simp add: chat_request_fixture into_request_true)
  have j: "j_presenter_pubkey ?j = pk" "j_threshold ?j = 100000"
    "j_context_id ?j = group_context_id H ''salon-vip''" by (simp_all add: chat_request_fixture)
  from prove_true [OF assms(1) true] obtain r where
    proved: "prove H P Z ?req = Inr \<lparr>pf_receipt = r, pf_journal = ?j\<rparr>" and receipt: "verify_receipt Z ID r = Inr ?j"
    by (auto simp: prove_def)
  have signed: "presenter_signed H E ?j ?nonce (presenter_sign H S sk ?nonce ?j)"
    using presenter_signed_sign [OF assms(2), of sk ?j] assms(3) j by simp
  have other: "group_context_id H ''salon-vip'' \<noteq> group_context_id H ''other-room''"
    unfolding group_context_id_def
    by (rule inj_on_neq [OF assms(4)]) (simp_all add: gate_messages_def Let_def)
  have "verify_credential H E Z ID r ?nonce (presenter_sign H S sk ?nonce ?j)
      (group_context_id H ''salon-vip'') 100000 = Inr ?j"
    using receipt signed j by (simp add: verify_credential_Inr)
  moreover have "\<not> is_ok (verify_credential H E Z ID r ?nonce (presenter_sign H S sk ?nonce ?j)
      (group_context_id H ''other-room'') 100000)"
    using receipt j other by (auto simp: is_ok_iff verify_credential_Inr)
  ultimately show ?thesis
    by (auto simp: admits_eligible_member_def rejects_proof_for_different_group_def assms(3) proved j
        admit_def roster_new_def btree_insert_def Let_def is_ok_iff split: sum.splits)
qed

text \<open>A hash that tells these messages apart, and does not send the test's tree to the constant root that
  one test uses as a wrong one.\<close>

definition suite_hash :: sha where
  "suite_hash m = arr_of (of_nat (length m) # map (\<lambda>i. if i < length m then m ! i else 0)
     ([0..<8] @ [32, 33, 34, 35, 36, 40, 64, 65, 66, 80, 81] @ [96..<104]))"

lemma suite_hash_messages:
  "distinct (map suite_hash (gate_messages suite_hash suite_key))"
  "q_merkle_root (consistent suite_hash 1000000 100000) \<noteq> arr_rep 0xaa"
  by code_simp+

end
