(* ===== verification/MarkerChain.thy ===== *)
theory MarkerChain
  imports Sdk DeepGate OneShotRegistry
begin

text \<open>
  The deep gate as the chain sees it. First the harness of
  \<^verbatim>\<open>crates/cu-bench/tests/deep_gate_rejects.rs\<close>: the address of a marker, the consistent call every
  rejection test starts from (\<open>scenario_honest\<close>), and the run of the guest on such a call. Then the
  chain around the gate: the marker account is declared \<^verbatim>\<open>#[account(init, pda = arg("gate_tag"))]\<close>
  and the presenter \<^verbatim>\<open>#[account(signer)]\<close>, and what the chain does for those two attributes, which is
  documented in the guest's header but is code of another repository, is the hypothesis
  \<open>init_claims\<close> on a chain given as a parameter.
\<close>

section \<open>The address of a marker\<close>

definition pda_bytes :: "program_id \<Rightarrow> b32 \<Rightarrow> bytes" where
  "pda_bytes program seed = bytes_of ''/LEE/v0.2/AccountId/PDA/'' @ replicate 8 0
     @ words_le (elems program) @ elems seed"

definition marker_pda :: "sha \<Rightarrow> program_id \<Rightarrow> b32 \<Rightarrow> b32" where
  "marker_pda H program seed = H (pda_bytes program seed)"

lemma pda_bytes_inject [simp]:
  "pda_bytes p s = pda_bytes q r \<longleftrightarrow> p = q \<and> s = r"
  by (simp add: pda_bytes_def words_le_inject)

section \<open>The rejection harness\<close>

record 'sk Scenario =
  sc_witness :: PrivateInputs
  sc_merkle_root :: b32
  sc_threshold :: u128
  sc_minimum_threshold :: u128
  sc_context_id :: b32
  sc_expected_context_id :: b32
  sc_pubkey :: b33
  sc_signing_key :: 'sk
  sc_presenter_account_id :: b32
  sc_presenter_balance :: u128
  sc_presenter_owner :: program_id
  sc_seed_floor :: u128

definition scenario_witness :: "sha \<Rightarrow> PrivateInputs" where
  "scenario_witness H = \<lparr>w_npk = arr_rep 7, w_identifier = 1,
     w_program_owner = AUTHENTICATED_TRANSFER_PROGRAM_ID, w_balance = 4000, w_nonce = 3,
     w_data_hash = H [], w_merkle_path = [arr_rep 1, arr_rep 2, arr_rep 3], w_leaf_index = 5\<rparr>"

text \<open>The two \<^verbatim>\<open>expect\<close>s on the fixed key are the \<open>None\<close>s.\<close>

definition scenario_honest :: "sha \<Rightarrow> ('sk, 'vk, 'sg) signer \<Rightarrow> 'sk Scenario option" where
  "scenario_honest H S =
    (case signing_key_from_bytes S (replicate 32 7) of None \<Rightarrow> None
     | Some signing_key \<Rightarrow>
      (case try_into (to_encoded_point S (verifying_key S signing_key)) of None \<Rightarrow> None
       | Some pubkey \<Rightarrow>
         (let witness = scenario_witness H;
              account_id = derive_account_id H (w_npk witness) (w_identifier witness);
              commitment = compute_commitment H account_id (w_program_owner witness)
                (w_balance witness) (w_nonce witness) (w_data_hash witness);
              merkle_root = fold_merkle_path H (H (elems commitment)) (w_leaf_index witness)
                (w_merkle_path witness)
          in Some \<lparr>sc_witness = witness, sc_merkle_root = merkle_root, sc_threshold = 4000,
               sc_minimum_threshold = 4000, sc_context_id = arr_rep 42,
               sc_expected_context_id = arr_rep 42, sc_pubkey = pubkey,
               sc_signing_key = signing_key, sc_presenter_account_id = account_id,
               sc_presenter_balance = 4000,
               sc_presenter_owner = AUTHENTICATED_TRANSFER_PROGRAM_ID, sc_seed_floor = 4000\<rparr>)))"

definition harness_challenge_digest :: "sha \<Rightarrow> b32 \<Rightarrow> b32 \<Rightarrow> u128 \<Rightarrow> b32 \<Rightarrow> b33 \<Rightarrow> b32 \<Rightarrow> b32" where
  "harness_challenge_digest H nonce merkle_root threshold context_id pubkey nullifier =
     H (bytes_of ''/lp-0005/v0.1/PresenterChallenge/'' @ elems nonce @ elems merkle_root
        @ u128_le threshold @ elems context_id @ elems pubkey @ elems nullifier)"

definition default_account :: account where
  "default_account = \<lparr>acc_program_owner = arr_rep 0, acc_balance = 0, acc_data = [], acc_nonce = 0\<rparr>"

text \<open>The instruction the harness builds from a scenario, and the two pre-states.\<close>

definition scenario_args :: "sha \<Rightarrow> ('sk, 'vk, 'sg) signer \<Rightarrow> 'sk Scenario \<Rightarrow> u32 list \<Rightarrow> deep_args" where
  "scenario_args H S sc witness_words =
    (let attested_id = derive_account_id H (w_npk (sc_witness sc)) (w_identifier (sc_witness sc));
         nullifier = compute_nullifier H (sc_pubkey sc) (sc_context_id sc) attested_id;
         gate_tag = compute_gate_tag H nullifier (sc_seed_floor sc) (sc_expected_context_id sc);
         nonce = arr_rep 9;
         digest = harness_challenge_digest H nonce (sc_merkle_root sc) (sc_threshold sc)
           (sc_context_id sc) (sc_pubkey sc) nullifier;
         sig = ecdsa_sign S (sc_signing_key sc) (elems digest)
     in \<lparr>a_merkle_root = sc_merkle_root sc, a_threshold = sc_threshold sc,
         a_context_id = sc_context_id sc, a_presenter_pubkey = elems (sc_pubkey sc),
         a_nullifier = nullifier, a_presenter_nonce = nonce, a_presenter_signature_der = to_der S sig,
         a_expected_context_id = sc_expected_context_id sc,
         a_minimum_threshold = sc_minimum_threshold sc, a_witness_words = witness_words,
         a_gate_tag = gate_tag\<rparr>)"

definition scenario_marker :: "sha \<Rightarrow> program_id \<Rightarrow> b32 \<Rightarrow> account_with_metadata" where
  "scenario_marker H pid gate_tag = \<lparr>am_account = default_account, am_is_authorized = False,
     am_account_id = marker_pda H pid gate_tag\<rparr>"

definition scenario_presenter :: "'sk Scenario \<Rightarrow> account_with_metadata" where
  "scenario_presenter sc = \<lparr>am_account = \<lparr>acc_program_owner = sc_presenter_owner sc,
       acc_balance = sc_presenter_balance sc, acc_data = [], acc_nonce = 3\<rparr>,
     am_is_authorized = True, am_account_id = sc_presenter_account_id sc\<rparr>"

text \<open>The run of the guest on the call, \<open>to_vec\<close> being \<^verbatim>\<open>risc0_zkvm::serde::to_vec\<close>; an error is the
  serialiser's or the guest's.\<close>

definition scenario_run ::
  "sha \<Rightarrow> ('vk, 'sg) ecdsa \<Rightarrow> ('sk, 'vk, 'sg) signer \<Rightarrow> (PrivateInputs \<Rightarrow> string + u32 list)
   \<Rightarrow> (u32 list \<Rightarrow> PrivateInputs option) \<Rightarrow> program_id \<Rightarrow> 'sk Scenario
   \<Rightarrow> (string + SpelError) + (account_with_metadata, AttestInstruction) spel_output" where
  "scenario_run H E S to_vec from_slice pid sc =
     rbind (map_err Inl (to_vec (sc_witness sc))) (\<lambda>witness_words.
       let a = scenario_args H S sc witness_words
       in map_err Inr (deep_gated_check H E from_slice (scenario_marker H pid (a_gate_tag a))
            (scenario_presenter sc) a))"

text \<open>Every scenario is a correctly signed call over its own witness, so its verdict is decided by
  the policy checks alone, in their order.\<close>

lemma harness_digest: "harness_challenge_digest = deep_challenge_digest"
  by (simp add: fun_eq_iff harness_challenge_digest_def deep_challenge_digest_def)

lemma deep_verify_signature_sign:
  assumes "signer_ok E S" and "presenter_public S sk = Some pk"
  shows "deep_verify_signature E d pk (to_der S (ecdsa_sign S sk (elems d))) = Inr ()"
  using signature_valid_sign_digest [OF assms, of d]
  by (auto simp: deep_verify_signature_def signature_valid_def sign_digest_def)

text \<open>The nullifier and the marker tag of a scenario.\<close>

definition scenario_nullifier :: "sha \<Rightarrow> 'sk Scenario \<Rightarrow> b32" where
  "scenario_nullifier H sc = compute_nullifier H (sc_pubkey sc) (sc_context_id sc)
     (derive_account_id H (w_npk (sc_witness sc)) (w_identifier (sc_witness sc)))"

definition scenario_tag :: "sha \<Rightarrow> 'sk Scenario \<Rightarrow> b32" where
  "scenario_tag H sc =
     compute_gate_tag H (scenario_nullifier H sc) (sc_seed_floor sc) (sc_expected_context_id sc)"

text \<open>The error code of a run, when the guest is the one that refused.\<close>

definition verdict :: "(string + SpelError) + 'o \<Rightarrow> (string + u32) + unit" where
  "verdict r = map_err (map_sum id (\<lambda>e. case e of SpelCustom code _ \<Rightarrow> code)) (rbind r (\<lambda>_. Inr ()))"

text \<open>\<open>from_slice\<close> reads back a witness that \<open>to_vec\<close> wrote: what risc0's serde does for the types
  used here.\<close>

definition serde_roundtrip ::
  "(PrivateInputs \<Rightarrow> string + u32 list) \<Rightarrow> (u32 list \<Rightarrow> PrivateInputs option) \<Rightarrow> PrivateInputs \<Rightarrow> bool"
  where
  "serde_roundtrip to_vec from_slice w \<longleftrightarrow> (\<exists>ws. to_vec w = Inr ws \<and> from_slice ws = Some w)"

lemma scenario_verdict:
  assumes "signer_ok E S" and "presenter_public S (sc_signing_key sc) = Some (sc_pubkey sc)"
    and "serde_roundtrip to_vec fs (sc_witness sc)"
  shows "verdict (scenario_run H E S to_vec fs pid sc) =
    (if sc_context_id sc \<noteq> sc_expected_context_id sc then Inl (Inr 3004)
     else if sc_threshold sc < sc_minimum_threshold sc then Inl (Inr 3001)
     else if sc_presenter_account_id sc \<noteq> witness_account_id H (sc_witness sc) then Inl (Inr 3010)
     else if sc_presenter_owner sc \<noteq> AUTHENTICATED_TRANSFER_PROGRAM_ID then Inl (Inr 3011)
     else if sc_presenter_balance sc < sc_minimum_threshold sc then Inl (Inr 3009)
     else if compute_gate_tag H (scenario_nullifier H sc) (sc_minimum_threshold sc)
          (sc_expected_context_id sc) \<noteq> scenario_tag H sc then Inl (Inr 3012)
     else Inr ())"
proof -
  from assms(3) obtain ws where "to_vec (sc_witness sc) = Inr ws" "fs ws = Some (sc_witness sc)"
    unfolding serde_roundtrip_def by blast
  with assms(1,2) show ?thesis
    by (simp add: verdict_def scenario_run_def scenario_args_def deep_gated_check_def
        deep_bind_witness_def harness_digest deep_verify_signature_sign scenario_presenter_def
        witness_account_id_def scenario_nullifier_def scenario_tag_def Let_def gate_codes)
qed

text \<open>What the rejection tests change in the honest scenario: the attacker with nothing, whose witness
  is anchored again after the change.\<close>

definition zero_floor_attacker :: "sha \<Rightarrow> 'sk Scenario \<Rightarrow> 'sk Scenario" where
  "zero_floor_attacker H s =
    (let witness = (sc_witness s)\<lparr>w_balance := 0\<rparr>;
         account_id = derive_account_id H (w_npk witness) (w_identifier witness);
         commitment = compute_commitment H account_id (w_program_owner witness)
           (w_balance witness) (w_nonce witness) (w_data_hash witness)
     in s\<lparr>sc_witness := witness, sc_threshold := 0, sc_minimum_threshold := 0, sc_seed_floor := 0,
          sc_presenter_balance := 0,
          sc_merkle_root := fold_merkle_path H (H (elems commitment)) (w_leaf_index witness)
            (w_merkle_path witness)\<rparr>)"

lemma scenario_honest_Some:
  assumes "scenario_honest H S = Some sc"
  shows "presenter_public S (sc_signing_key sc) = Some (sc_pubkey sc)"
    and "sc_context_id sc = arr_rep 42" and "sc_expected_context_id sc = arr_rep 42"
    and "sc_threshold sc = 4000" and "sc_minimum_threshold sc = 4000" and "sc_seed_floor sc = 4000"
    and "sc_presenter_account_id sc = witness_account_id H (sc_witness sc)"
    and "sc_presenter_balance sc = 4000"
    and "sc_presenter_owner sc = AUTHENTICATED_TRANSFER_PROGRAM_ID"
  using assms
  by (auto simp: scenario_honest_def presenter_public_def witness_account_id_def Let_def
      split: option.splits)

section \<open>The chain around the gate\<close>

text \<open>
  A chain with states \<open>'s\<close> and transactions \<open>'x\<close>: the program an address belongs to (\<open>arr_rep 0\<close>, the
  default owner, when nobody claimed it), whether an account state is anchored in the chain's root
  history, the call of the deep gate a transaction makes, and the transition.
\<close>

record ('s, 'x) lez_chain =
  ch_owner :: "'s \<Rightarrow> b32 \<Rightarrow> program_id"
  ch_anchored :: "'s \<Rightarrow> account_with_metadata \<Rightarrow> bool"
  ch_gate_call :: "'x \<Rightarrow> (account_with_metadata \<times> deep_args) option"
  ch_step :: "'s \<Rightarrow> 'x \<Rightarrow> 's \<times> (string + unit)"

abbreviation ch_reachable :: "('s, 'x) lez_chain \<Rightarrow> 's \<Rightarrow> 's \<Rightarrow> bool" where
  "ch_reachable ch \<equiv> reachable (ch_step ch)"

text \<open>When the chain lets a call of the gate program \<open>G\<close> through: the marker address is free
  (\<^verbatim>\<open>init\<close>), the presenter authorised the transaction (\<^verbatim>\<open>signer\<close>), its state is anchored, and gate
  and attestation program both succeed.\<close>

definition gate_admits ::
  "sha \<Rightarrow> ('vk, 'sg) ecdsa \<Rightarrow> (u32 list \<Rightarrow> PrivateInputs option) \<Rightarrow> program_id
   \<Rightarrow> ('s, 'x) lez_chain \<Rightarrow> 's \<Rightarrow> account_with_metadata \<Rightarrow> deep_args \<Rightarrow> bool" where
  "gate_admits H E fs G ch s p a \<longleftrightarrow>
     ch_owner ch s (marker_pda H G (a_gate_tag a)) = arr_rep 0
     \<and> am_is_authorized p \<and> ch_anchored ch s p
     \<and> deep_transaction H E fs (scenario_marker H G (a_gate_tag a)) p a"

text \<open>
  The documented rules: a failed transaction changes nothing; a call of the gate succeeds exactly
  when it is admitted, and stamps its marker, and no other account, with the gate's id; no other
  transaction gives an account to the gate or takes one from it.
\<close>

definition init_claims ::
  "sha \<Rightarrow> ('vk, 'sg) ecdsa \<Rightarrow> (u32 list \<Rightarrow> PrivateInputs option) \<Rightarrow> program_id
   \<Rightarrow> ('s, 'x) lez_chain \<Rightarrow> bool" where
  "init_claims H E fs G ch \<longleftrightarrow> G \<noteq> arr_rep 0
     \<and> (\<forall>s x s' e. ch_step ch s x = (s', Inl e) \<longrightarrow> s' = s)
     \<and> (\<forall>s x p a. ch_gate_call ch x = Some (p, a) \<longrightarrow>
          (case ch_step ch s x of
             (s', Inl _) \<Rightarrow> \<not> gate_admits H E fs G ch s p a
           | (s', Inr _) \<Rightarrow> gate_admits H E fs G ch s p a
               \<and> (\<forall>b. ch_owner ch s' b = G \<longleftrightarrow>
                        b = marker_pda H G (a_gate_tag a) \<or> ch_owner ch s b = G)))
     \<and> (\<forall>s x s' b. ch_gate_call ch x = None \<longrightarrow> ch_step ch s x = (s', Inr ()) \<longrightarrow>
          (ch_owner ch s' b = G \<longleftrightarrow> ch_owner ch s b = G))"

lemma init_claims_call:
  assumes "init_claims H E fs G ch" and "ch_gate_call ch x = Some (p, a)"
  shows "case ch_step ch s x of
      (s', Inl _) \<Rightarrow> \<not> gate_admits H E fs G ch s p a
    | (s', Inr _) \<Rightarrow> gate_admits H E fs G ch s p a
        \<and> (\<forall>b. ch_owner ch s' b = G \<longleftrightarrow>
          b = marker_pda H G (a_gate_tag a) \<or> ch_owner ch s b = G)"
  using assms by (simp add: init_claims_def)

text \<open>One transition: the marker addresses of the gate only grow, and only by an admitted call.\<close>

lemma init_claims_step:
  assumes "init_claims H E fs G ch" and "ch_step ch s x = (s', res)"
  shows "(\<forall>b. ch_owner ch s' b = G \<longleftrightarrow> ch_owner ch s b = G)
    \<or> (\<exists>p a. ch_gate_call ch x = Some (p, a) \<and> gate_admits H E fs G ch s p a
         \<and> (\<forall>b. ch_owner ch s' b = G \<longleftrightarrow>
                  b = marker_pda H G (a_gate_tag a) \<or> ch_owner ch s b = G))"
proof (cases res)
  case (Inl e)
  with assms show ?thesis by (auto simp: init_claims_def)
next
  case (Inr u)
  show ?thesis
  proof (cases "ch_gate_call ch x")
    case None
    with Inr assms show ?thesis by (simp add: init_claims_def)
  next
    case (Some pa)
    obtain p a where pa: "pa = (p, a)" by (cases pa)
    from init_claims_call [OF assms(1), of x p a s] assms(2) Inr Some pa
    have "gate_admits H E fs G ch s p a
        \<and> (\<forall>b. ch_owner ch s' b = G \<longleftrightarrow> b = marker_pda H G (a_gate_tag a) \<or> ch_owner ch s b = G)"
      by simp
    with Some pa show ?thesis by blast
  qed
qed

lemma marker_system:
  assumes "init_claims H E fs G ch"
  shows "invariant_system (ch_step ch) (\<lambda>s. ch_owner ch s b = G)"
proof unfold_locales
  fix s x s' res
  assume "ch_owner ch s b = G" and "ch_step ch s x = (s', res)"
  with init_claims_step [OF assms this(2)] show "ch_owner ch s' b = G" by blast
qed

text \<open>A marker stays: no transaction frees it.\<close>

lemma marker_stays:
  assumes "init_claims H E fs G ch" and "ch_reachable ch s s'" and "ch_owner ch s b = G"
  shows "ch_owner ch s' b = G"
  by (rule invariant_system.inv_reachable [OF marker_system [OF assms(1)] assms(2,3)])

text \<open>Every marker on a chain that started without markers was earned by an admitted call.\<close>

lemma marker_earned:
  assumes "ch_reachable ch init s" and "init_claims H E fs G ch"
    and "\<And>b. ch_owner ch init b \<noteq> G" and "ch_owner ch s b = G"
  shows "\<exists>s0 p a. ch_reachable ch init s0 \<and> gate_admits H E fs G ch s0 p a
    \<and> b = marker_pda H G (a_gate_tag a)"
  using assms
proof (induction arbitrary: b rule: reachable.induct)
  case reach_init
  then show ?case by blast
next
  case (reach_step s x s' res)
  from init_claims_step [OF reach_step.prems(1) reach_step.hyps(2)] show ?case
  proof
    assume "\<forall>b. ch_owner ch s' b = G \<longleftrightarrow> ch_owner ch s b = G"
    with reach_step.IH reach_step.prems show ?thesis by blast
  next
    assume "\<exists>p a. ch_gate_call ch x = Some (p, a) \<and> gate_admits H E fs G ch s p a
      \<and> (\<forall>b. ch_owner ch s' b = G \<longleftrightarrow> b = marker_pda H G (a_gate_tag a) \<or> ch_owner ch s b = G)"
    with reach_step.IH reach_step.prems reach_step.hyps(1) show ?thesis by metis
  qed
qed

text \<open>An address that is taken admits no further call with its tag.\<close>

lemma gate_call_refused:
  assumes "init_claims H E fs G ch" and "ch_owner ch s (marker_pda H G (a_gate_tag a)) = G"
    and "ch_gate_call ch x = Some (p, a)"
  shows "\<exists>e. ch_step ch s x = (s, Inl e)"
proof -
  have no: "\<not> gate_admits H E fs G ch s p a"
    using assms(1,2) by (auto simp: gate_admits_def init_claims_def)
  obtain s' res where step: "ch_step ch s x = (s', res)" by (rule prod.exhaust)
  with init_claims_call [OF assms(1,3), of s] no obtain e where "res = Inl e" by (cases res) auto
  moreover from this step assms(1) have "s' = s" unfolding init_claims_def by blast
  ultimately show ?thesis using step by blast
qed

lemma gate_call_admitted:
  assumes "init_claims H E fs G ch" and "gate_admits H E fs G ch s p a"
    and "ch_gate_call ch x = Some (p, a)"
  obtains s' where "ch_step ch s x = (s', Inr ())"
    and "ch_owner ch s' (marker_pda H G (a_gate_tag a)) = G"
proof -
  obtain s' res where step: "ch_step ch s x = (s', res)" by (rule prod.exhaust)
  with init_claims_call [OF assms(1,3), of s] assms(2) show ?thesis
    by (cases res) (auto intro: that)
qed

text \<open>The gate does not look into the marker account; its constraints are the chain's.\<close>

lemma deep_transaction_marker:
  "deep_transaction H E fs m p a \<longleftrightarrow> deep_transaction H E fs m' p a"
  by (simp add: deep_transaction_iff deep_gated_check_Inr)

section \<open>The call an honest holder sends\<close>

lemma honest_deep_transaction:
  assumes "signer_ok E S" and "presenter_public S sk = Some (q_presenter_pubkey req)"
    and "request_true H req" and "fs ws = Some (request_inputs req)" and "floor \<le> q_threshold req"
    and "am_account_id p = witness_account_id H (request_inputs req)"
    and "acc_program_owner (am_account p) = AUTHENTICATED_TRANSFER_PROGRAM_ID"
    and "floor \<le> acc_balance (am_account p)"
    and "j_nullifier (journal_stub H req) \<noteq> arr_rep 0"
  shows "deep_transaction H E fs m p (deep_journal_args H (journal_stub H req) nonce
    (presenter_sign H S sk nonce (journal_stub H req)) (q_context_id req) floor ws)"
proof -
  let ?j = "journal_stub H req" and ?w = "request_inputs req"
  have "attest H ?w (statement_of ?j) = Inr (j_nullifier ?j)"
    using guest_main_stub [of H req] assms(3)
    by (intro guest_main_journal [where j = ?j]) (auto simp: request_true_def not_less)
  moreover have "presenter_signed H E ?j nonce (presenter_sign H S sk nonce ?j)"
    using assms(1,2) by (intro presenter_signed_sign) simp_all
  moreover have "witness_bound H p floor ?j ?w"
    using assms(6-8) by (simp add: witness_bound_def)
  ultimately show ?thesis
    unfolding deep_transaction_iff using assms(4,5,9)
    by (intro exI [of _ ?j] exI [of _ ?w]) (auto simp: deep_gated_check_Inr)
qed

end
