(* ===== verification/ChainProperties.thy ===== *)
theory ChainProperties
  imports Samples MarkerChain
begin

text \<open>
  Properties of the deep gate on a chain: what a marker found at an address certifies, that an
  honest holder obtains it exactly once, and the verdicts of the repository's own rejection suite.
\<close>

section \<open>A chain that follows the rules\<close>

text \<open>For the closed instances: states are the owners of the addresses, only \<open>sample_presenter\<close> is
  anchored, and a transaction is either a call of the gate or does nothing.\<close>

definition sample_gate_id :: program_id where "sample_gate_id = arr_rep 5"

definition sample_admits :: "(b32 \<Rightarrow> program_id) \<Rightarrow> account_with_metadata \<Rightarrow> deep_args \<Rightarrow> bool" where
  "sample_admits s p a \<longleftrightarrow>
     s (marker_pda sample_hash sample_gate_id (a_gate_tag a)) = arr_rep 0 \<and> am_is_authorized p
     \<and> p = sample_presenter \<and> deep_transaction sample_hash sample_ecdsa sample_from_slice
          (scenario_marker sample_hash sample_gate_id (a_gate_tag a)) p a"

definition sample_chain :: "(b32 \<Rightarrow> program_id, (account_with_metadata \<times> deep_args) option) lez_chain"
  where
  "sample_chain = \<lparr>ch_owner = (\<lambda>s. s), ch_anchored = (\<lambda>_ p. p = sample_presenter),
     ch_gate_call = (\<lambda>x. x),
     ch_step = (\<lambda>s x. case x of None \<Rightarrow> (s, Inr ())
       | Some (p, a) \<Rightarrow> if sample_admits s p a
           then (s(marker_pda sample_hash sample_gate_id (a_gate_tag a) := sample_gate_id), Inr ())
           else (s, Inl ''ProgramExecutionFailed''))\<rparr>"

abbreviation sample_rules :: bool where
  "sample_rules \<equiv> init_claims sample_hash sample_ecdsa sample_from_slice sample_gate_id sample_chain"

lemma sample_chain_rules: "sample_rules"
  by (auto simp: init_claims_def sample_chain_def gate_admits_def sample_admits_def
      sample_gate_id_def split: option.splits if_splits)

lemma sample_tag: "a_gate_tag (sample_deep_args ctx m)
    = compute_gate_tag sample_hash (j_nullifier (sample_journal ctx)) m ctx"
  by (simp add: sample_deep_args_def)

lemma sample_reaches_marker:
  "ch_reachable sample_chain (\<lambda>_. arr_rep 0)
     ((\<lambda>_. arr_rep 0)(marker_pda sample_hash sample_gate_id (compute_gate_tag sample_hash
        (j_nullifier (sample_journal ctx)) 900000 ctx) := sample_gate_id))"
proof -
  have "sample_admits (\<lambda>_. arr_rep 0) sample_presenter (sample_deep_args ctx 900000)"
  proof -
    have "deep_transaction sample_hash sample_ecdsa sample_from_slice
        (scenario_marker sample_hash sample_gate_id (a_gate_tag (sample_deep_args ctx 900000)))
        sample_presenter (sample_deep_args ctx 900000)"
      by (subst deep_transaction_marker [where m' = sample_marker]) (rule sample_deep_transaction, simp)
    moreover have "am_is_authorized sample_presenter" by (simp add: sample_presenter_def)
    ultimately show ?thesis by (simp add: sample_admits_def)
  qed
  then have "ch_step sample_chain (\<lambda>_. arr_rep 0) (Some (sample_presenter, sample_deep_args ctx 900000))
    = ((\<lambda>_. arr_rep 0)(marker_pda sample_hash sample_gate_id (compute_gate_tag sample_hash
        (j_nullifier (sample_journal ctx)) 900000 ctx) := sample_gate_id), Inr ())"
    by (simp add: sample_chain_def sample_tag)
  then show ?thesis by (rule reach_step [OF reach_init])
qed

section \<open>What a marker certifies\<close>

text \<open>An admitted call that meets a policy: the anchored, authorised presenter is the attested account,
  natively owned, holds the floor, and signed for this context under the nullifier's key.\<close>

definition meets_policy :: "sha \<Rightarrow> ('vk, 'sg) ecdsa \<Rightarrow> account_with_metadata \<Rightarrow> deep_args
    \<Rightarrow> b32 \<Rightarrow> u128 \<Rightarrow> b32 \<Rightarrow> bool" where
  "meets_policy H E p a nullifier floor ctx \<longleftrightarrow>
     am_is_authorized p
     \<and> acc_program_owner (am_account p) = AUTHENTICATED_TRANSFER_PROGRAM_ID
     \<and> floor \<le> acc_balance (am_account p)
     \<and> (\<exists>j. args_journal a = Some j \<and> j_context_id j = ctx \<and> floor \<le> j_threshold j
          \<and> presenter_signed H E j (a_presenter_nonce a) (a_presenter_signature_der a)
          \<and> nullifier = compute_nullifier H (j_presenter_pubkey j) ctx (am_account_id p))"

lemma admitted_meets_policy:
  assumes "gate_admits H E fs G ch s p a"
  shows "meets_policy H E p a (a_nullifier a) (a_minimum_threshold a) (a_expected_context_id a)
    \<and> ch_anchored ch s p
    \<and> a_gate_tag a = compute_gate_tag H (a_nullifier a) (a_minimum_threshold a) (a_expected_context_id a)"
proof -
  from assms obtain j w where j: "args_journal a = Some j"
    and gate: "deep_gated_check H E fs (scenario_marker H G (a_gate_tag a)) p a = Inr
      \<lparr>so_accounts = [scenario_marker H G (a_gate_tag a), p], so_chained = [declared_call j w]\<rparr>"
    and "am_is_authorized p" "ch_anchored ch s p"
    by (auto simp: gate_admits_def deep_transaction_iff)
  with j gate show ?thesis
    by (auto simp: meets_policy_def deep_gated_check_Inr args_journal_Some witness_bound_def)
qed

text \<open>Claim C7: on a chain whose gate program started without markers, an integrator who finds the
  marker address of a nullifier, a floor and a context owned by the gate knows that an anchored,
  authorised, natively owned account holding the floor earned it for that context, with a signature
  of the nullifier's key; or the two address messages or the two tag messages of that admitted call
  and of the demanded policy collide. No lower floor and no other context can put it there.\<close>

theorem marker_certifies_policy:
  assumes "init_claims H E fs G ch" and "\<And>b. ch_owner ch init b \<noteq> G" and "ch_reachable ch init s"
    and "ch_owner ch s (marker_pda H G (compute_gate_tag H nullifier floor ctx)) = G"
  shows "\<exists>s0 p a. ch_reachable ch init s0 \<and> gate_admits H E fs G ch s0 p a \<and> ch_anchored ch s0 p
    \<and> (meets_policy H E p a nullifier floor ctx
       \<or> collision H (pda_bytes G (compute_gate_tag H nullifier floor ctx))
           (pda_bytes G (a_gate_tag a))
       \<or> collision H (gate_tag_bytes nullifier floor ctx)
           (gate_tag_bytes (a_nullifier a) (a_minimum_threshold a) (a_expected_context_id a)))"
proof -
  from marker_earned [OF assms(3,1,2,4)] obtain s0 p a where
    reach: "ch_reachable ch init s0" and adm: "gate_admits H E fs G ch s0 p a"
    and addr: "H (pda_bytes G (compute_gate_tag H nullifier floor ctx))
      = H (pda_bytes G (a_gate_tag a))"
    unfolding marker_pda_def by blast
  note facts = admitted_meets_policy [OF adm]
  from hash_eqD [of H, OF addr] have "meets_policy H E p a nullifier floor ctx
       \<or> collision H (pda_bytes G (compute_gate_tag H nullifier floor ctx))
           (pda_bytes G (a_gate_tag a))
       \<or> collision H (gate_tag_bytes nullifier floor ctx)
           (gate_tag_bytes (a_nullifier a) (a_minimum_threshold a) (a_expected_context_id a))"
  proof
    assume "pda_bytes G (compute_gate_tag H nullifier floor ctx) = pda_bytes G (a_gate_tag a)"
    then have "H (gate_tag_bytes nullifier floor ctx)
      = H (gate_tag_bytes (a_nullifier a) (a_minimum_threshold a) (a_expected_context_id a))"
      using facts by (simp add: compute_gate_tag_def)
    from hash_eqD [of H, OF this] facts show ?thesis by auto
  qed blast
  with reach adm facts show ?thesis by blast
qed

theorem marker_certifies_policy_witness:
  "let nf = j_nullifier (sample_journal (arr_rep 4)); init = (\<lambda>_. arr_rep 0) in
   \<exists>s0 p a. ch_reachable sample_chain init s0
    \<and> gate_admits sample_hash sample_ecdsa sample_from_slice sample_gate_id sample_chain s0 p a
    \<and> ch_anchored sample_chain s0 p
    \<and> (meets_policy sample_hash sample_ecdsa p a nf 900000 (arr_rep 4)
       \<or> collision sample_hash
           (pda_bytes sample_gate_id (compute_gate_tag sample_hash nf 900000 (arr_rep 4)))
           (pda_bytes sample_gate_id (a_gate_tag a))
       \<or> collision sample_hash (gate_tag_bytes nf 900000 (arr_rep 4))
           (gate_tag_bytes (a_nullifier a) (a_minimum_threshold a) (a_expected_context_id a)))"
  unfolding Let_def
  by (rule marker_certifies_policy [OF sample_chain_rules _ sample_reaches_marker])
    (simp_all add: sample_chain_def sample_gate_id_def)



section \<open>The rejection suite\<close>

text \<open>Claim C14: the rejection suite of the deep gate. The honest scenario is accepted; a presenter who is
  not the attested account, an account of another program, a balance below the floor and another
  gate's context are refused with their own codes; a call that enforces a lower floor than its marker
  claims is refused too, unless the two tag messages collide; and the attacker who holds nothing and
  enforces nothing is accepted, but under a tag different from the honest one unless they collide.\<close>

theorem deep_gate_rejections:
  assumes "signer_ok E S" and "scenario_honest H S = Some sc"
    and "serde_roundtrip to_vec fs (sc_witness sc)"
    and "serde_roundtrip to_vec fs (sc_witness (zero_floor_attacker H sc))"
    and run: "run = (\<lambda>s. verdict (scenario_run H E S to_vec fs pid s))"
    and nf: "nf = scenario_nullifier H sc"
  shows "run sc = Inr ()
    \<and> (\<forall>other. other \<noteq> sc_presenter_account_id sc \<longrightarrow>
         run (sc\<lparr>sc_presenter_account_id := other\<rparr>) = Inl (Inr 3010))
    \<and> (\<forall>program. program \<noteq> AUTHENTICATED_TRANSFER_PROGRAM_ID \<longrightarrow>
         run (sc\<lparr>sc_presenter_owner := program\<rparr>) = Inl (Inr 3011))
    \<and> (\<forall>b < 4000. run (sc\<lparr>sc_presenter_balance := b\<rparr>) = Inl (Inr 3009))
    \<and> (\<forall>gate. gate \<noteq> arr_rep 42 \<longrightarrow>
         run (sc\<lparr>sc_expected_context_id := gate\<rparr>) = Inl (Inr 3004))
    \<and> (\<forall>m < 4000. run (sc\<lparr>sc_minimum_threshold := m\<rparr>) = Inl (Inr 3012)
         \<or> collision H (gate_tag_bytes nf m (arr_rep 42)) (gate_tag_bytes nf 4000 (arr_rep 42)))
    \<and> run (zero_floor_attacker H sc) = Inr ()
    \<and> (scenario_tag H (zero_floor_attacker H sc) \<noteq> scenario_tag H sc
       \<or> collision H (gate_tag_bytes nf 0 (arr_rep 42)) (gate_tag_bytes nf 4000 (arr_rep 42)))"
proof -
  note sc = scenario_honest_Some [OF assms(2)]
  have "run s = verdict (scenario_run H E S to_vec fs pid s)" for s by (simp add: run)
  then show ?thesis
    using assms(3,4)
    by (intro conjI allI impI)
      (auto simp: scenario_verdict [OF assms(1)] sc scenario_tag_def scenario_nullifier_def nf
        zero_floor_attacker_def witness_account_id_def Let_def compute_gate_tag_def collision_def)
qed

text \<open>A serialiser for the two witnesses of the suite.\<close>

definition suite_to_vec :: "PrivateInputs \<Rightarrow> string + u32 list" where
  "suite_to_vec w = (if w_balance w = 0 then Inr [0] else Inr [1])"

definition suite_from_slice :: "u32 list \<Rightarrow> PrivateInputs option" where
  "suite_from_slice ws = (if ws = [1] then Some (scenario_witness sample_hash)
     else Some ((scenario_witness sample_hash)\<lparr>w_balance := 0\<rparr>))"

theorem deep_gate_rejections_witness:
  "\<exists>sc. scenario_honest sample_hash sample_signer = Some sc
    \<and> verdict (scenario_run sample_hash sample_ecdsa sample_signer suite_to_vec suite_from_slice
        sample_gate_id sc) = Inr ()
    \<and> verdict (scenario_run sample_hash sample_ecdsa sample_signer suite_to_vec suite_from_slice
        sample_gate_id (sc\<lparr>sc_presenter_balance := 3999\<rparr>)) = Inl (Inr 3009)"
proof -
  have "try_into (2 # replicate 32 7 :: bytes) = Some (arr_of (2 # replicate 32 7) :: b33)"
    by (simp add: try_into_def)
  then obtain sc where sc: "scenario_honest sample_hash sample_signer = Some sc"
    by (simp add: scenario_honest_def sample_signer_def Let_def)
  then have w: "sc_witness sc = scenario_witness sample_hash"
    by (auto simp: scenario_honest_def Let_def split: option.splits)
  then have 1: "serde_roundtrip suite_to_vec suite_from_slice (sc_witness sc)"
    by (simp add: serde_roundtrip_def suite_to_vec_def suite_from_slice_def scenario_witness_def)
  from w have 2: "serde_roundtrip suite_to_vec suite_from_slice
      (sc_witness (zero_floor_attacker sample_hash sc))"
    by (simp add: serde_roundtrip_def suite_to_vec_def suite_from_slice_def zero_floor_attacker_def
        Let_def)
  from sc deep_gate_rejections [OF sample_signer_ok sc 1 2 refl refl, of sample_gate_id]
  show ?thesis by simp
qed

end
