(* ===== verification/CredentialProperties.thy ===== *)
theory CredentialProperties
  imports Samples
begin

text \<open>
  Properties of the attestation statement, the credential check and the gates: what acceptance
  proves about the ledger, that an honest holder is always accepted, which values a digest pins
  down, and how the five gates relate. Each property is followed by its instance at the parameters
  of \<open>Samples\<close>.
\<close>

section \<open>What an accepted credential says about the ledger\<close>

text \<open>The witness opens an account of the ledger whose balance reaches the floor and whose id is
  the one in the nullifier.\<close>

definition holds_balance :: "sha \<Rightarrow> shielded_account mtree \<Rightarrow> PrivateInputs \<Rightarrow> PublicJournal \<Rightarrow> u128
    \<Rightarrow> bool" where
  "holds_balance H t w j floor \<longleftrightarrow>
     (\<exists>a. opened_account t w = Some a \<and> witness_matches H w a \<and> floor \<le> sa_balance a
        \<and> j_nullifier j = compute_nullifier H (j_presenter_pubkey j) (j_context_id j)
            (sa_account_id a))"

abbreviation ledger_break :: "sha \<Rightarrow> shielded_account mtree \<Rightarrow> PrivateInputs \<Rightarrow> bool" where
  "ledger_break H t w \<equiv> hash_break H (witness_messages H w) (ledger_messages H t) (empties t)"

lemma attested_holds_balance:
  assumes "attest H w (statement_of j) = Inr (j_nullifier j)"
    and "j_merkle_root j = ledger_root H t" and "floor \<le> j_threshold j"
  shows "holds_balance H t w j floor \<or> ledger_break H t w"
proof -
  from assms have "witness_root H w = ledger_root H t" and le: "floor \<le> w_balance w"
    and nf: "j_nullifier j = compute_nullifier H (j_presenter_pubkey j) (j_context_id j)
      (witness_account_id H w)"
    by (auto simp: attest_Inr)
  from witness_root_sound [OF this(1)] show ?thesis
    using le nf by (auto simp: holds_balance_def witness_matches_def)
qed

text \<open>Claim C1: when the off-chain verifier accepts a credential whose root is the ledger's, the
  prover's own witness opens an account of that ledger holding at least the demanded floor, and the
  published nullifier is derived from that account, unless a named message of the witness breaks
  SHA-256: it collides with one of the ledger, or is a preimage of the digest of an empty subtree.\<close>

theorem credential_proves_balance:
  assumes "risc0_sound Z ID H ext"
    and "verify_credential H E Z ID r nonce der ctx floor = Inr j"
    and "j_merkle_root j = ledger_root H t"
  shows "j_context_id j = ctx
    \<and> (holds_balance H t (fst (ext r)) j floor \<or> ledger_break H t (fst (ext r)))"
proof -
  from assms(2) have "verify_receipt Z ID r = Inr j" and "j_context_id j = ctx"
    and "floor \<le> j_threshold j"
    by (simp_all add: verify_credential_Inr)
  then show ?thesis
    using attested_holds_balance [OF accepted_receipt_attests [OF assms(1)] assms(3)] by blast
qed

theorem credential_proves_balance_witness:
  "let r = sample_receipt (arr_rep 4); j = sample_journal (arr_rep 4)
   in j_context_id j = arr_rep 4 \<and> (holds_balance sample_hash sample_ledger (fst r) j 900000
        \<or> ledger_break sample_hash sample_ledger (fst r))"
  using credential_proves_balance [OF sample_risc0_sound sample_credential, of 900000
      "arr_rep 4" sample_ledger]
  by (simp add: Let_def)

text \<open>Claim C2: the full check of a careful gate. If the credential is accepted and the sequencer,
  which holds the ledger, confirms the journal's root through \<open>is_root_current\<close>, then the balance is
  in the sequencer's ledger, whatever root the prover chose.\<close>

theorem fresh_credential_proves_balance:
  assumes "risc0_sound Z ID H ext" and "json_ok J" and "sequencer_holds H J C endpoint t known"
    and "verify_credential H E Z ID r nonce der ctx floor = Inr j"
    and "is_root_current H J C hex endpoint (j_merkle_root j) known = Inr True"
  shows "holds_balance H t (fst (ext r)) j floor \<or> ledger_break H t (fst (ext r))"
proof -
  from assms(5) is_root_current_honest [OF assms(2,3)] have "j_merkle_root j = ledger_root H t"
    by simp
  moreover from assms(4) have "verify_receipt Z ID r = Inr j" "floor \<le> j_threshold j"
    by (simp_all add: verify_credential_Inr)
  ultimately show ?thesis
    using attested_holds_balance [OF accepted_receipt_attests [OF assms(1)]] by blast
qed

theorem fresh_credential_proves_balance_witness:
  "let r = sample_receipt (arr_rep 4); j = sample_journal (arr_rep 4)
   in holds_balance sample_hash sample_ledger (fst r) j 900000
        \<or> ledger_break sample_hash sample_ledger (fst r)"
  using fresh_credential_proves_balance [OF sample_risc0_sound sample_json_ok sample_sequencer
      sample_credential, of 900000 Inl "[]" "arr_rep 4"]
  by (simp add: Let_def is_root_current_honest [OF sample_json_ok sample_sequencer])

text \<open>Claim C3: an honest holder is always served. For an account in the ledger with enough balance,
  the SDK's prover returns a proof anchored to the ledger's root, and the signature its presenter
  makes over the returned journal is accepted with the proof for every nonce and every floor up to
  the attested threshold.\<close>

theorem honest_holder_accepted:
  assumes "prover_ok H P Z ID (holder_request H t npk identifier a idx d threshold ctx pk) kind"
    and "signer_ok E S" and "presenter_public S sk = Some pk"
    and "leaf_at t (turns idx d) = Some a" and "sa_account_id a = derive_account_id H npk identifier"
    and "threshold \<le> sa_balance a" and "floor \<le> threshold"
  shows "\<exists>pf. prove_with_kind H P Z (holder_request H t npk identifier a idx d threshold ctx pk) kind
        = Inr pf
    \<and> j_merkle_root (pf_journal pf) = ledger_root H t \<and> j_threshold (pf_journal pf) = threshold
    \<and> verify_credential H E Z ID (pf_receipt pf) nonce (presenter_sign H S sk nonce (pf_journal pf))
        ctx floor = Inr (pf_journal pf)"
proof -
  let ?req = "holder_request H t npk identifier a idx d threshold ctx pk"
  have "presenter_public S sk = Some (q_presenter_pubkey ?req)" "floor \<le> q_threshold ?req"
    using assms(3,7) by simp_all
  from presented_proof_accepted [OF assms(1,2) holder_request_true [OF assms(4,5,6)] this]
  show ?thesis by fastforce
qed

theorem honest_holder_accepted_witness:
  "\<exists>pf. prove_with_kind sample_hash (sample_prover sample_hash) (sample_zkvm sample_hash)
        (holder_request sample_hash sample_ledger (arr_rep 3) 42 sample_account 0 1 1000000
           (arr_rep 4) sample_pk) Groth16 = Inr pf
    \<and> j_merkle_root (pf_journal pf) = ledger_root sample_hash sample_ledger
    \<and> j_threshold (pf_journal pf) = 1000000
    \<and> verify_credential sample_hash sample_ecdsa (sample_zkvm sample_hash) sample_id (pf_receipt pf)
        sample_nonce (presenter_sign sample_hash sample_signer sample_pk sample_nonce (pf_journal pf))
        (arr_rep 4) 900000 = Inr (pf_journal pf)"
  by (rule honest_holder_accepted [OF sample_prover_ok sample_signer_ok sample_presenter_public
        sample_leaf]) simp_all

section \<open>The root check\<close>

text \<open>Claim C17: why a gate must compare roots, and that comparing them is enough. For an account that is
  in no leaf of the ledger, with any balance its holder cares to invent, the SDK's synthetic request
  still proves and the verifier accepts the credential for the full threshold; but the root check
  against a sequencer that holds the ledger answers false, unless a named message of the invented
  witness breaks the hash against that ledger.\<close>

theorem invented_account_needs_root_check:
  assumes "\<forall>a \<in> set_mtree t. sa_account_id a \<noteq> derive_account_id H (d_npk f) (d_identifier f)"
    and "d_threshold f \<le> d_balance f" and "presenter_public S sk = Some (d_presenter_pubkey f)"
    and "prover_ok H P Z ID (into_request H f) kind" and "signer_ok E S"
    and "json_ok J" and "sequencer_holds H J C endpoint t known"
  shows "\<exists>pf. prove_with_kind H P Z (into_request H f) kind = Inr pf
    \<and> verify_credential H E Z ID (pf_receipt pf) nonce (presenter_sign H S sk nonce (pf_journal pf))
        (d_context_id f) (d_threshold f) = Inr (pf_journal pf)
    \<and> (is_root_current H J C hex endpoint (j_merkle_root (pf_journal pf)) known = Inr False
       \<or> ledger_break H t (request_inputs (into_request H f)))"
proof -
  let ?req = "into_request H f"
  have true: "request_true H ?req" using assms(2) by (simp add: into_request_true)
  have "presenter_public S sk = Some (q_presenter_pubkey ?req)" "d_threshold f \<le> q_threshold ?req"
    using assms(3) by simp_all
  from presented_proof_accepted [OF assms(4,5) true this, of nonce] obtain pf where
    pf: "prove_with_kind H P Z ?req kind = Inr pf" "pf_journal pf = journal_stub H ?req"
    and accepted: "verify_credential H E Z ID (pf_receipt pf) nonce
      (presenter_sign H S sk nonce (pf_journal pf)) (d_context_id f) (d_threshold f) = Inr (pf_journal pf)"
    by auto
  have "ledger_break H t (request_inputs ?req)" if "q_merkle_root ?req = ledger_root H t"
  proof -
    have "witness_root H (request_inputs ?req) = ledger_root H t" using that by (simp add: into_request_root)
    from witness_root_sound [OF this] show ?thesis
    proof
      assume "\<exists>a. opened_account t (request_inputs ?req) = Some a \<and> witness_matches H (request_inputs ?req) a"
      then obtain a where "a \<in> set_mtree t" "sa_account_id a = derive_account_id H (d_npk f) (d_identifier f)"
        by (auto simp: opened_account_def witness_matches_def witness_account_id_def dest: leaf_at_in_set)
      with assms(1) show ?thesis by blast
    qed
  qed
  with pf accepted show ?thesis
    using is_root_current_honest [OF assms(6,7), of hex "q_merkle_root ?req"] by auto
qed

definition invented_fixture :: DemoFixture where
  "invented_fixture = \<lparr>d_npk = arr_rep 200, d_identifier = 1, d_program_owner = arr_rep 11,
     d_balance = 9000000, d_nonce = 3, d_data_seed = [], d_leaf_index = 0, d_tree_depth = 3,
     d_threshold = 5000000, d_context_id = arr_rep 4, d_presenter_pubkey = sample_pk\<rparr>"

lemma invented_fixture_absent:
  "\<forall>a \<in> set_mtree sample_ledger.
     sa_account_id a \<noteq> derive_account_id sample_hash (d_npk invented_fixture) (d_identifier invented_fixture)"
proof -
  have "derive_account_id sample_hash (arr_rep 3) 42
    \<noteq> derive_account_id sample_hash (d_npk invented_fixture) (d_identifier invented_fixture)"
    by code_simp
  then show ?thesis by (simp add: sample_ledger_def)
qed

theorem invented_account_needs_root_check_witness:
  "\<exists>pf. prove_with_kind sample_hash (sample_prover sample_hash) (sample_zkvm sample_hash)
        (into_request sample_hash invented_fixture) Groth16 = Inr pf
    \<and> verify_credential sample_hash sample_ecdsa (sample_zkvm sample_hash) sample_id (pf_receipt pf)
        sample_nonce (presenter_sign sample_hash sample_signer sample_pk sample_nonce (pf_journal pf))
        (d_context_id invented_fixture) (d_threshold invented_fixture) = Inr (pf_journal pf)
    \<and> (is_root_current sample_hash sample_json sample_rpc Inl [] (j_merkle_root (pf_journal pf))
          sample_commitment = Inr False
       \<or> ledger_break sample_hash sample_ledger (request_inputs (into_request sample_hash invented_fixture)))"
proof (rule invented_account_needs_root_check [OF invented_fixture_absent _ _ sample_prover_ok
      sample_signer_ok sample_json_ok sample_sequencer])
  show "d_threshold invented_fixture \<le> d_balance invented_fixture" by (simp add: invented_fixture_def)
  show "presenter_public sample_signer sample_pk = Some (d_presenter_pubkey invented_fixture)"
    by (simp add: invented_fixture_def sample_presenter_public)
qed

text \<open>The reply that carries a membership proof: an envelope without an error whose result is not null and
  decodes.\<close>

definition proof_reply :: "'v json \<Rightarrow> 'v rpc \<Rightarrow> hex_decoder \<Rightarrow> string \<Rightarrow> b32 \<Rightarrow> MembershipProof \<Rightarrow> bool" where
  "proof_reply J C hex endpoint known p \<longleftrightarrow> (\<exists>ev v. rpc_post C endpoint (proof_request J known) = Inr ev
     \<and> ev_error ev = None \<and> ev_result ev = Some v \<and> \<not> is_null J v \<and> decode_proof_tuple J hex v = Inr p)"

text \<open>Claim C38: the root check fails closed, whatever the sequencer answers. It is true exactly when the
  reply carries a proof whose path from the known commitment folds to the root; a transport failure, an
  error object (also beside a result), a result that is missing or null and a proof that does not
  decode each end in their own verdict, none of them true. And a check that is true of a
  ledger's root places the known commitment in that ledger even if the sequencer lies, up to a
  hash break along the path it sent.\<close>

theorem root_check_fails_closed:
  assumes "is_null J (null_value J)"
  shows "let check = is_root_current H J C hex endpoint root known;
      reply = rpc_post C endpoint (proof_request J known)
    in (check = Inr True \<longleftrightarrow> (\<exists>p. proof_reply J C hex endpoint known p
          \<and> root = fold_merkle_path H (leaf_hash_of H known) (m_leaf_index p) (m_siblings p)))
    \<and> (\<forall>e. reply = Inl e \<longrightarrow> check = Inl (Http e))
    \<and> (\<forall>ev err. reply = Inr ev \<and> ev_error ev = Some err \<longrightarrow> check = Inl (Rpc (eb_code err) (eb_message err)))
    \<and> (\<forall>ev. reply = Inr ev \<and> ev_error ev = None \<and> pred_option (is_null J) (ev_result ev) \<longrightarrow> check = Inr False)
    \<and> (\<forall>ev v e. reply = Inr ev \<and> ev_error ev = None \<and> ev_result ev = Some v \<and> \<not> is_null J v
          \<and> decode_proof_tuple J hex v = Inl e \<longrightarrow> check = Inl e)
    \<and> (\<forall>p. check = Inr True \<and> proof_reply J C hex endpoint known p \<and> root = ledger_root H t \<longrightarrow>
          known \<in> commit H ` set_mtree t \<or> hash_break H (path_messages H known (m_leaf_index p) (m_siblings p))
            (tree_messages H (map_mtree (commit H) t)) (empties t))"
proof -
  let ?check = "is_root_current H J C hex endpoint root known"
  let ?fold = "\<lambda>p. fold_merkle_path H (leaf_hash_of H known) (m_leaf_index p) (m_siblings p)"
  note defs = is_root_current_def commitment_set_root_def get_proof_for_commitment_def call_def
    option_value_def proof_request_def encode_bytes_def
  have reply: "?check = Inr (root = ?fold p)" if "proof_reply J C hex endpoint known p" for p
    using that by (auto simp: proof_reply_def defs fold_membership_is_path)
  have true: "\<exists>p. proof_reply J C hex endpoint known p" if "?check = Inr True"
    using that assms
    by (auto simp: proof_reply_def defs result_iff Let_def split: option.splits if_splits)
  have leaf: "known \<in> commit H ` set_mtree t
      \<or> hash_break H (path_messages H known (m_leaf_index p) (m_siblings p))
          (tree_messages H (map_mtree (commit H) t)) (empties t)"
    if "?fold p = ledger_root H t" for p
    using fold_sound [OF that [unfolded ledger_root_def]]
    by (auto simp: leaf_at_map dest: leaf_at_in_set)
  show ?thesis
    unfolding Let_def
  proof (intro conjI allI impI)
    show "?check = Inr True \<longleftrightarrow> (\<exists>p. proof_reply J C hex endpoint known p \<and> root = ?fold p)"
    proof
      assume check: "?check = Inr True"
      from true [OF this] obtain p where "proof_reply J C hex endpoint known p" by blast
      with check reply [OF this] show "\<exists>p. proof_reply J C hex endpoint known p \<and> root = ?fold p" by auto
    qed (use reply in auto)
    show "known \<in> commit H ` set_mtree t \<or> hash_break H (path_messages H known (m_leaf_index p) (m_siblings p))
        (tree_messages H (map_mtree (commit H) t)) (empties t)"
      if "?check = Inr True \<and> proof_reply J C hex endpoint known p \<and> root = ledger_root H t" for p
      using reply [of p] that by (intro leaf) auto
  qed (use assms in \<open>auto simp: defs split: option.splits\<close>)
qed

theorem root_check_fails_closed_witness:
  "let silent = sample_rpc\<lparr>rpc_post := (\<lambda>_ rq. Inr \<lparr>ev_jsonrpc = ''2.0'', ev_id = rq_id rq, ev_result = None,
        ev_error = None\<rparr>)\<rparr>
   in is_root_current sample_hash sample_json silent Inl [] (arr_rep 5) sample_commitment = Inr False
    \<and> (is_root_current sample_hash sample_json silent Inl [] (arr_rep 5) sample_commitment = Inr True \<longleftrightarrow>
        (\<exists>p. proof_reply sample_json silent Inl [] sample_commitment p \<and> arr_rep 5
          = fold_merkle_path sample_hash (leaf_hash_of sample_hash sample_commitment) (m_leaf_index p)
              (m_siblings p)))"
proof -
  have "is_null sample_json (null_value sample_json)" by (simp add: sample_json_def)
  from root_check_fails_closed [OF this] show ?thesis by (simp add: Let_def)
qed

section \<open>The deep gate\<close>

text \<open>Claim C4: a transaction of the deep gate that the privacy circuit accepts was made by the very
  account the witness attests to, natively owned and holding at least the gate's floor on chain,
  for the expected context, under a marker that commits to that floor and context; and if the root
  is the ledger's, the attested account is in the ledger with at least that floor, up to a hash break.\<close>

theorem deep_transaction_proves_balance:
  assumes "deep_transaction H E fs marker p a" and "a_merkle_root a = ledger_root H t"
  shows "\<exists>j w. args_journal a = Some j \<and> fs (a_witness_words a) = Some w
    \<and> a_context_id a = a_expected_context_id a
    \<and> am_account_id p = witness_account_id H w
    \<and> acc_program_owner (am_account p) = AUTHENTICATED_TRANSFER_PROGRAM_ID
    \<and> a_minimum_threshold a \<le> acc_balance (am_account p)
    \<and> a_gate_tag a = compute_gate_tag H (a_nullifier a) (a_minimum_threshold a) (a_expected_context_id a)
    \<and> (holds_balance H t w j (a_minimum_threshold a) \<or> ledger_break H t w)"
proof -
  from assms(1) obtain j w where *: "args_journal a = Some j" "fs (a_witness_words a) = Some w"
    "attest H w (statement_of j) = Inr (j_nullifier j)"
    and gate: "deep_gated_check H E fs marker p a
      = Inr \<lparr>so_accounts = [marker, p], so_chained = [declared_call j w]\<rparr>"
    by (auto simp: deep_transaction_iff)
  from gate * have "a_context_id a = a_expected_context_id a" "a_minimum_threshold a \<le> j_threshold j"
    "witness_bound H p (a_minimum_threshold a) j w"
    "a_gate_tag a = compute_gate_tag H (a_nullifier a) (a_minimum_threshold a) (a_expected_context_id a)"
    by (auto simp: deep_gated_check_Inr args_journal_Some)
  moreover from *(1) assms(2) have "j_merkle_root j = ledger_root H t"
    by (simp add: args_journal_Some)
  ultimately show ?thesis
    using * attested_holds_balance [OF *(3)] by (auto simp: witness_bound_def)
qed

theorem deep_transaction_proves_balance_witness:
  "let a = sample_deep_args (arr_rep 4) 900000 in
   \<exists>j w. args_journal a = Some j \<and> sample_from_slice (a_witness_words a) = Some w
    \<and> a_context_id a = a_expected_context_id a
    \<and> am_account_id sample_presenter = witness_account_id sample_hash w
    \<and> acc_program_owner (am_account sample_presenter) = AUTHENTICATED_TRANSFER_PROGRAM_ID
    \<and> a_minimum_threshold a \<le> acc_balance (am_account sample_presenter)
    \<and> a_gate_tag a = compute_gate_tag sample_hash (a_nullifier a) (a_minimum_threshold a)
        (a_expected_context_id a)
    \<and> (holds_balance sample_hash sample_ledger w j (a_minimum_threshold a)
        \<or> ledger_break sample_hash sample_ledger w)"
  unfolding Let_def
  by (rule deep_transaction_proves_balance [OF sample_deep_transaction])
    (simp_all add: sample_deep_args_def)

text \<open>Claim C13: the deep gate accepts exactly the calls whose context matches, whose floor is met by
  the threshold, whose challenge the journal's key signed, whose witness decodes and yields the
  pinned nullifier and the presenter's own natively owned account with the floor on chain, and whose
  marker tag commits to nullifier, floor and context; it then declares exactly one chained call, to
  the attestation program, carrying that witness and the journal's statement.\<close>

theorem deep_gate_accepts_iff:
  "deep_gated_check H E fs marker p a = Inr out \<longleftrightarrow>
     a_context_id a = a_expected_context_id a \<and> a_minimum_threshold a \<le> a_threshold a
     \<and> (\<exists>j w. args_journal a = Some j
          \<and> presenter_signed H E j (a_presenter_nonce a) (a_presenter_signature_der a)
          \<and> fs (a_witness_words a) = Some w
          \<and> witness_bound H p (a_minimum_threshold a) j w
          \<and> a_gate_tag a =
              compute_gate_tag H (a_nullifier a) (a_minimum_threshold a) (a_expected_context_id a)
          \<and> out = \<lparr>so_accounts = [marker, p], so_chained = [declared_call j w]\<rparr>)"
  by (auto simp: deep_gated_check_Inr args_journal_Some)

text \<open>Claim C12: a marker decides what was checked. Two accepted calls of the deep gate with the same
  marker tag enforced the same floor in the same context for the same nullifier, hence for the same
  presenter key and the same account, unless the two tag messages or the two nullifier messages
  collide.\<close>

theorem marker_determines_policy:
  assumes "deep_gated_check H E fs m p a = Inr out" and "deep_gated_check H E fs m' p' b = Inr out'"
    and "a_gate_tag a = a_gate_tag b"
  shows "(a_nullifier a = a_nullifier b \<and> a_minimum_threshold a = a_minimum_threshold b
        \<and> a_expected_context_id a = a_expected_context_id b
        \<and> ((a_presenter_pubkey a = a_presenter_pubkey b \<and> am_account_id p = am_account_id p')
          \<or> (\<exists>j k. args_journal a = Some j \<and> args_journal b = Some k
             \<and> collision H (nullifier_bytes (j_presenter_pubkey j) (a_context_id a) (am_account_id p))
                 (nullifier_bytes (j_presenter_pubkey k) (a_context_id b) (am_account_id p')))))
    \<or> collision H (gate_tag_bytes (a_nullifier a) (a_minimum_threshold a) (a_expected_context_id a))
        (gate_tag_bytes (a_nullifier b) (a_minimum_threshold b) (a_expected_context_id b))"
proof -
  obtain j where j: "args_journal a = Some j"
    "a_nullifier a = compute_nullifier H (j_presenter_pubkey j) (a_context_id a) (am_account_id p)"
    "a_gate_tag a = compute_gate_tag H (a_nullifier a) (a_minimum_threshold a) (a_expected_context_id a)"
    using assms(1) by (rule deep_gate_facts)
  obtain k where k: "args_journal b = Some k"
    "a_nullifier b = compute_nullifier H (j_presenter_pubkey k) (a_context_id b) (am_account_id p')"
    "a_gate_tag b = compute_gate_tag H (a_nullifier b) (a_minimum_threshold b) (a_expected_context_id b)"
    using assms(2) by (rule deep_gate_facts)
  have tag: "H (gate_tag_bytes (a_nullifier a) (a_minimum_threshold a) (a_expected_context_id a))
    = H (gate_tag_bytes (a_nullifier b) (a_minimum_threshold b) (a_expected_context_id b))"
    using j(3) k(3) assms(3) by (simp add: compute_gate_tag_def)
  have nf: "a_nullifier a = a_nullifier b \<Longrightarrow>
      H (nullifier_bytes (j_presenter_pubkey j) (a_context_id a) (am_account_id p))
      = H (nullifier_bytes (j_presenter_pubkey k) (a_context_id b) (am_account_id p'))"
    using j(2) k(2) by (simp add: compute_nullifier_def)
  have keys: "a_presenter_pubkey a = elems (j_presenter_pubkey j)"
    "a_presenter_pubkey b = elems (j_presenter_pubkey k)"
    using j(1) k(1) by (simp_all add: args_journal_Some)
  from hash_eqD [of H, OF tag] show ?thesis
  proof
    assume "gate_tag_bytes (a_nullifier a) (a_minimum_threshold a) (a_expected_context_id a)
      = gate_tag_bytes (a_nullifier b) (a_minimum_threshold b) (a_expected_context_id b)"
    then have "a_nullifier a = a_nullifier b" "a_minimum_threshold a = a_minimum_threshold b"
      "a_expected_context_id a = a_expected_context_id b" by simp_all
    with hash_eqD [of H, OF nf] j(1) k(1) keys show ?thesis by auto
  qed blast
qed

theorem marker_determines_policy_witness:
  "let a = sample_deep_args (arr_rep 4) 900000 in
   (a_nullifier a = a_nullifier a \<and> a_minimum_threshold a = a_minimum_threshold a
     \<and> a_expected_context_id a = a_expected_context_id a
     \<and> ((a_presenter_pubkey a = a_presenter_pubkey a
          \<and> am_account_id sample_presenter = am_account_id sample_presenter)
        \<or> (\<exists>j k. args_journal a = Some j \<and> args_journal a = Some k
             \<and> collision sample_hash
                 (nullifier_bytes (j_presenter_pubkey j) (a_context_id a) (am_account_id sample_presenter))
                 (nullifier_bytes (j_presenter_pubkey k) (a_context_id a) (am_account_id sample_presenter)))))
   \<or> collision sample_hash
       (gate_tag_bytes (a_nullifier a) (a_minimum_threshold a) (a_expected_context_id a))
       (gate_tag_bytes (a_nullifier a) (a_minimum_threshold a) (a_expected_context_id a))"
  unfolding Let_def
  by (rule marker_determines_policy [OF sample_deep_gate sample_deep_gate refl]) simp_all

end
