(* ===== verification/LedgerHistory.thy ===== *)
theory LedgerHistory
  imports Sdk SequencerClient OneShotRegistry
begin

text \<open>
  The chain's side of an attestation over time. The chain is code of another repository, so it is a
  parameter (\<open>private_chain\<close>), and what \<^verbatim>\<open>docs/recon.md\<close> (section 3) documents of it is the
  hypothesis \<open>keeps_ledger\<close>: the commitment set is append-only; a transaction presents nullifiers of
  the accounts it spends, each with a root the chain has known, and appends the commitments of the
  accounts it creates; nothing is ever removed. The lemmas show that the ledger refines a list of
  accounts, that a root names one ledger, and what both mean for the root check of
  \<^verbatim>\<open>sequencer-client\<close>. How a spent account's nullifier is derived is the chain's business; it is a
  value of any type here. The last section builds a chain of this kind, with the doubling tree and
  the precomputed digests of empty subtrees the document describes, and shows that it keeps the
  ledger; \<open>D k\<close> is the digest of the empty subtree of height \<open>k\<close>.
\<close>

section \<open>The commitment set, observed\<close>

text \<open>The turns to leaf \<open>i\<close> of a tree of depth \<open>d\<close>.\<close>

definition leaf_turns :: "nat \<Rightarrow> nat \<Rightarrow> bool list" where
  "leaf_turns i d = map (bit i) (rev [0..<d])"

lemma leaf_turns_simps [simp]:
  "leaf_turns i 0 = []" "leaf_turns i (Suc d) = bit i d # leaf_turns i d" "length (leaf_turns i d) = d"
  by (simp_all add: leaf_turns_def)

lemma turns_leaf_turns: "turns idx d = leaf_turns (unat idx) d"
  by (simp add: turns_def leaf_turns_def bit_unsigned_iff)

lemma leaf_turns_inject:
  assumes "i < 2 ^ d" and "j < 2 ^ d"
  shows "leaf_turns i d = leaf_turns j d \<longleftrightarrow> i = j"
proof
  assume "leaf_turns i d = leaf_turns j d"
  then have "take_bit d i = take_bit d j"
    by (auto simp: leaf_turns_def bit_eq_iff bit_take_bit_iff)
  with assms show "i = j" by (simp add: take_bit_nat_eq_self)
qed simp

record 'a commitment_set =
  cs_tree :: "'a mtree"
  cs_depth :: nat
  cs_length :: nat

text \<open>Leaves sit at the depth of the tree, so a position is found whole or not at all.\<close>

fun fits :: "'a mtree \<Rightarrow> nat \<Rightarrow> bool" where
  "fits (Leaf a) n \<longleftrightarrow> n = 0"
| "fits (Node l r) n \<longleftrightarrow> (case n of 0 \<Rightarrow> False | Suc k \<Rightarrow> fits l k \<and> fits r k)"
| "fits (Empty d) n \<longleftrightarrow> True"

definition cs_holds :: "'a commitment_set \<Rightarrow> 'a list \<Rightarrow> bool" where
  "cs_holds s xs \<longleftrightarrow> fits (cs_tree s) (cs_depth s) \<and> cs_length s = length xs
     \<and> length xs \<le> 2 ^ cs_depth s \<and> length (leaves (cs_tree s)) = length xs
     \<and> (\<forall>i < 2 ^ cs_depth s. leaf_at (cs_tree s) (leaf_turns i (cs_depth s))
          = (if i < length xs then Some (xs ! i) else None))"

lemma cs_holds_leaf:
  assumes "cs_holds s xs" and "unat idx < length xs"
  shows "leaf_at (cs_tree s) (turns idx (cs_depth s)) = Some (xs ! unat idx)"
  using assms by (simp add: cs_holds_def turns_leaf_turns)


section \<open>A root names one ledger\<close>

definition roots_break :: "sha \<Rightarrow> b32 mtree \<Rightarrow> b32 mtree \<Rightarrow> bool" where
  "roots_break H t u \<longleftrightarrow> hash_break H (tree_messages H t) (tree_messages H u) (empties u)
     \<or> hash_break H (tree_messages H u) (tree_messages H t) (empties t)"

lemma roots_breakI:
  assumes "hash_break H [x] (tree_messages H u) (empties u)" and "x \<in> set (tree_messages H t)"
  shows "roots_break H t u"
  using hash_break_mono [OF assms(1)] assms(2) by (simp add: roots_break_def)

lemma roots_break_Node:
  "roots_break H l l' \<Longrightarrow> roots_break H (Node l r) (Node l' r')"
  "roots_break H r r' \<Longrightarrow> roots_break H (Node l r) (Node l' r')"
  by (auto simp: roots_break_def hash_break_def collision_between_def)

lemma root_names_tree: "mroot H t = mroot H u \<Longrightarrow> t = u \<or> roots_break H t u"
proof (induction t arbitrary: u)
  case (Leaf c)
  then have "leaf_hash_of H c = mroot H u" by simp
  then show ?case by (cases rule: leaf_hash_is_root) (auto intro: roots_breakI)
next
  case (Node l r)
  then have "hash_two H (mroot H l) (mroot H r) = mroot H u" by simp
  then show ?case
  proof (cases rule: node_hash_is_root)
    case (1 l' r')
    with Node.IH [of l'] Node.IH(2) [of r'] show ?thesis by (auto intro: roots_break_Node)
  next
    case 2
    then show ?thesis by (auto intro: roots_breakI)
  qed
next
  case (Empty d)
  show ?case
  proof (cases u)
    case (Leaf c)
    with Empty show ?thesis by (auto simp: roots_break_def leaf_hash_of_def intro!: hash_breakI(2))
  next
    case (Node l r)
    with Empty show ?thesis by (auto simp: roots_break_def hash_two_def intro!: hash_breakI(2))
  next
    case (Empty d')
    with Empty.prems show ?thesis by simp
  qed
qed

section \<open>The private state of the chain\<close>

record ('s, 'x, 'n, 'e) private_chain =
  pc_init :: 's
  pc_step :: "'s \<Rightarrow> 'x \<Rightarrow> 's \<times> ('e + unit)"
  pc_set :: "'s \<Rightarrow> shielded_account commitment_set"
  pc_roots :: "'s \<Rightarrow> b32 set"
  pc_nullifiers :: "'s \<Rightarrow> 'n set"
  pc_spends :: "'x \<Rightarrow> ('n \<times> b32) list"
  pc_creates :: "'x \<Rightarrow> shielded_account list"

text \<open>The ledger of a state, and the root of its commitments.\<close>

abbreviation pc_tree :: "('s, 'x, 'n, 'e, 'z) private_chain_scheme \<Rightarrow> 's \<Rightarrow> shielded_account mtree" where
  "pc_tree ch s \<equiv> cs_tree (pc_set ch s)"

abbreviation pc_root :: "sha \<Rightarrow> ('s, 'x, 'n, 'e, 'z) private_chain_scheme \<Rightarrow> 's \<Rightarrow> b32" where
  "pc_root H ch s \<equiv> ledger_root H (pc_tree ch s)"

text \<open>The documented rules. A refused transaction changes nothing. An accepted one presented fresh
  nullifiers against known roots; it appends what it creates, and records its nullifiers and the
  new root.\<close>

definition keeps_ledger :: "sha \<Rightarrow> ('s, 'x, 'n, 'e, 'z) private_chain_scheme \<Rightarrow> bool" where
  "keeps_ledger H ch \<longleftrightarrow> (\<exists>xs. cs_holds (pc_set ch (pc_init ch)) xs)
     \<and> pc_roots ch (pc_init ch) = {pc_root H ch (pc_init ch)}
     \<and> (\<forall>s x s' e. pc_step ch s x = (s', Inl e) \<longrightarrow> s' = s)
     \<and> (\<forall>s x s'. pc_step ch s x = (s', Inr ()) \<longrightarrow>
          (\<forall>(n, digest) \<in> set (pc_spends ch x). n \<notin> pc_nullifiers ch s \<and> digest \<in> pc_roots ch s)
          \<and> (\<forall>xs. cs_holds (pc_set ch s) xs \<longrightarrow> cs_holds (pc_set ch s') (xs @ pc_creates ch x))
          \<and> pc_roots ch s' = insert (pc_root H ch s') (pc_roots ch s)
          \<and> pc_nullifiers ch s' = pc_nullifiers ch s \<union> fst ` set (pc_spends ch x))"

lemma keeps_ledger_init:
  assumes "keeps_ledger H ch"
  shows "\<exists>xs. cs_holds (pc_set ch (pc_init ch)) xs" "pc_roots ch (pc_init ch) = {pc_root H ch (pc_init ch)}"
  using assms by (simp_all add: keeps_ledger_def)

lemma refused_unchanged: "keeps_ledger H ch \<Longrightarrow> pc_step ch s x = (s', Inl e) \<Longrightarrow> s' = s"
  unfolding keeps_ledger_def by blast

lemma accepted_step:
  assumes "keeps_ledger H ch" and "pc_step ch s x = (s', Inr ())"
  shows "(n, digest) \<in> set (pc_spends ch x) \<Longrightarrow> n \<notin> pc_nullifiers ch s"
    "(n, digest) \<in> set (pc_spends ch x) \<Longrightarrow> digest \<in> pc_roots ch s"
    "cs_holds (pc_set ch s) xs \<Longrightarrow> cs_holds (pc_set ch s') (xs @ pc_creates ch x)"
    "pc_roots ch s' = insert (pc_root H ch s') (pc_roots ch s)"
    "pc_nullifiers ch s' = pc_nullifiers ch s \<union> fst ` set (pc_spends ch x)"
  using assms unfolding keeps_ledger_def by (force+)

lemma seen_refused:
  assumes "keeps_ledger H ch" and "n \<in> pc_nullifiers ch s" and "n \<in> fst ` set (pc_spends ch x)"
  shows "\<exists>e. pc_step ch s x = (s, Inl e)"
proof (cases "pc_step ch s x")
  case (Pair s' res)
  with assms accepted_step(1) [OF assms(1)] refused_unchanged [OF assms(1)] show ?thesis
    by (cases res) force+
qed

text \<open>What the chain never undoes: the accounts appended so far stay where they are, known nullifiers and
  roots stay known. The current root is always among the known ones.\<close>

definition ledger_keeps :: "sha \<Rightarrow> ('s, 'x, 'n, 'e, 'z) private_chain_scheme
    \<Rightarrow> shielded_account list \<Rightarrow> b32 set \<Rightarrow> 'n set \<Rightarrow> 's \<Rightarrow> bool" where
  "ledger_keeps H ch xs R N s \<longleftrightarrow> (\<exists>ys. cs_holds (pc_set ch s) (xs @ ys))
     \<and> insert (pc_root H ch s) R \<subseteq> pc_roots ch s \<and> N \<subseteq> pc_nullifiers ch s"

lemma ledger_system:
  assumes "keeps_ledger H ch"
  shows "invariant_system (pc_step ch) (ledger_keeps H ch xs R N)"
proof
  fix s x s' res
  assume keep: "ledger_keeps H ch xs R N s" and step: "pc_step ch s x = (s', res)"
  show "ledger_keeps H ch xs R N s'"
  proof (cases res)
    case (Inl e)
    with step keep refused_unchanged [OF assms] show ?thesis by auto
  next
    case (Inr u)
    from keep obtain ys where ys: "cs_holds (pc_set ch s) (xs @ ys)" by (auto simp: ledger_keeps_def)
    from step Inr have "pc_step ch s x = (s', Inr ())" by simp
    from accepted_step(3-5) [OF assms this] ys keep show ?thesis
      by (fastforce simp: ledger_keeps_def)
  qed
qed

lemmas ledger_reachable = invariant_system.inv_reachable [OF ledger_system]

lemma ledger_history:
  assumes "keeps_ledger H ch" and "reachable (pc_step ch) (pc_init ch) s"
  obtains xs where "cs_holds (pc_set ch s) xs" "ledger_keeps H ch xs (pc_roots ch s) (pc_nullifiers ch s) s"
proof -
  from keeps_ledger_init [OF assms(1)] have "ledger_keeps H ch [] {} {} (pc_init ch)"
    by (simp add: ledger_keeps_def)
  from ledger_reachable [OF assms this] obtain xs where "cs_holds (pc_set ch s) xs"
    "pc_root H ch s \<in> pc_roots ch s" by (auto simp: ledger_keeps_def)
  then show ?thesis by (intro that [of xs]) (auto simp: ledger_keeps_def intro: exI [of _ "[]"])
qed

lemma ledger_keeps_leaf:
  assumes "ledger_keeps H ch xs R N s" and "unat idx < length xs"
  shows "leaf_at (pc_tree ch s) (turns idx (cs_depth (pc_set ch s))) = Some (xs ! unat idx)"
proof -
  from assms(1) obtain ys where "cs_holds (pc_set ch s) (xs @ ys)" by (auto simp: ledger_keeps_def)
  from cs_holds_leaf [OF this, of idx] assms(2) show ?thesis by (simp add: nth_append)
qed

text \<open>The chain's ledger at a later time has the old leaves, at the old positions, and another root as
  soon as something was appended.\<close>

lemma later_leaf:
  assumes "keeps_ledger H ch" and "reachable (pc_step ch) (pc_init ch) s" and "reachable (pc_step ch) s s'"
    and "unat idx < cs_length (pc_set ch s)"
  shows "leaf_at (pc_tree ch s') (turns idx (cs_depth (pc_set ch s')))
    = leaf_at (pc_tree ch s) (turns idx (cs_depth (pc_set ch s)))"
proof -
  from ledger_history [OF assms(1,2)] obtain xs where xs: "cs_holds (pc_set ch s) xs"
    and keep: "ledger_keeps H ch xs (pc_roots ch s) (pc_nullifiers ch s) s" .
  from xs assms(4) have "unat idx < length xs" by (simp add: cs_holds_def)
  with ledger_keeps_leaf [OF keep] ledger_keeps_leaf [OF ledger_reachable [OF assms(1,3) keep]]
  show ?thesis by simp
qed

lemma later_known:
  assumes "keeps_ledger H ch" and "reachable (pc_step ch) (pc_init ch) s" and "reachable (pc_step ch) s s'"
  shows "pc_nullifiers ch s \<subseteq> pc_nullifiers ch s'" "pc_root H ch s \<in> pc_roots ch s'"
proof -
  from ledger_history [OF assms(1,2)] obtain xs where
    keep: "ledger_keeps H ch xs (pc_roots ch s) (pc_nullifiers ch s) s" .
  from ledger_reachable [OF assms(1,3) this] keep
  show "pc_nullifiers ch s \<subseteq> pc_nullifiers ch s'" "pc_root H ch s \<in> pc_roots ch s'"
    by (auto simp: ledger_keeps_def)
qed

lemma later_root:
  assumes ledger: "keeps_ledger H ch" and "reachable (pc_step ch) (pc_init ch) s"
    and "pc_step ch s x = (s1, Inr ())" and "pc_creates ch x \<noteq> []" and "reachable (pc_step ch) s1 s'"
    and "pc_root H ch s' = pc_root H ch s"
  shows "roots_break H (map_mtree (commit H) (pc_tree ch s)) (map_mtree (commit H) (pc_tree ch s'))"
proof -
  have leaves_map: "length (leaves (map_mtree f t)) = length (leaves t)" for f :: "shielded_account \<Rightarrow> b32" and t
    by (induction t) simp_all
  from ledger_history [OF assms(1,2)] obtain xs where xs: "cs_holds (pc_set ch s) xs" .
  from ledger_history [OF assms(1) reach_step [OF assms(2,3)]] obtain ys where
    ys: "cs_holds (pc_set ch s1) ys"
    and keep: "ledger_keeps H ch ys (pc_roots ch s1) (pc_nullifiers ch s1) s1" .
  from ledger_reachable [OF assms(1,5) keep] obtain zs where
    zs: "cs_holds (pc_set ch s') (ys @ zs)" by (auto simp: ledger_keeps_def)
  from accepted_step(3) [OF ledger assms(3) xs] ys have "length ys = length xs + length (pc_creates ch x)"
    by (simp add: cs_holds_def)
  with xs zs assms(4) have "length (leaves (pc_tree ch s)) \<noteq> length (leaves (pc_tree ch s'))"
    by (simp add: cs_holds_def)
  then have "map_mtree (commit H) (pc_tree ch s) \<noteq> map_mtree (commit H) (pc_tree ch s')"
    by (metis leaves_map)
  with root_names_tree [of H "map_mtree (commit H) (pc_tree ch s)"] assms(6) show ?thesis
    unfolding ledger_root_def by metis
qed

text \<open>Every root the chain knows was its current root at some time.\<close>

lemma known_root_was_current:
  assumes "keeps_ledger H ch" and "reachable (pc_step ch) (pc_init ch) s" and "r \<in> pc_roots ch s"
  shows "\<exists>s0. reachable (pc_step ch) (pc_init ch) s0 \<and> reachable (pc_step ch) s0 s \<and> r = pc_root H ch s0"
  using assms(2,3)
proof (induction arbitrary: r rule: reachable.induct)
  case reach_init
  then show ?case using keeps_ledger_init(2) [OF assms(1)] by (auto intro: reachable.reach_init)
next
  case (reach_step s x s' res)
  show ?case
  proof (cases "r \<in> pc_roots ch s")
    case True
    from reach_step.IH [OF this] reach_step.hyps show ?thesis
      by (blast intro: reachable.reach_step)
  next
    case False
    then obtain u where "res = Inr ()"
      using refused_unchanged [OF assms(1)] reach_step.hyps(2) reach_step.prems by (cases res) auto
    with accepted_step(4) [OF assms(1)] reach_step False have "r = pc_root H ch s'" by auto
    with reachable.reach_step [OF reach_step.hyps] show ?thesis by (blast intro: reachable.reach_init)
  qed
qed

section \<open>A chain of this kind\<close>

fun put :: "(nat \<Rightarrow> b32) \<Rightarrow> 'a \<Rightarrow> bool list \<Rightarrow> 'a mtree \<Rightarrow> 'a mtree" where
  "put D a [] t = Leaf a"
| "put D a (b # bs) (Node l r) = (if b then Node l (put D a bs r) else Node (put D a bs l) r)"
| "put D a (b # bs) t = (let e = Empty (D (length bs))
     in if b then Node e (put D a bs e) else Node (put D a bs e) e)"

definition cs_new :: "(nat \<Rightarrow> b32) \<Rightarrow> nat \<Rightarrow> 'a commitment_set" where
  "cs_new D n = \<lparr>cs_tree = Empty (D n), cs_depth = n, cs_length = 0\<rparr>"

definition cs_grow :: "(nat \<Rightarrow> b32) \<Rightarrow> 'a commitment_set \<Rightarrow> 'a commitment_set" where
  "cs_grow D s = (if cs_length s = 2 ^ cs_depth s
     then s\<lparr>cs_tree := Node (cs_tree s) (Empty (D (cs_depth s))), cs_depth := Suc (cs_depth s)\<rparr> else s)"

definition cs_append :: "(nat \<Rightarrow> b32) \<Rightarrow> 'a \<Rightarrow> 'a commitment_set \<Rightarrow> 'a commitment_set" where
  "cs_append D a s = (let s' = cs_grow D s
     in s'\<lparr>cs_tree := put D a (leaf_turns (cs_length s') (cs_depth s')) (cs_tree s'),
           cs_length := Suc (cs_length s')\<rparr>)"

lemma fits_put: "fits t (length p) \<Longrightarrow> fits (put D a p t) (length p)"
  by (induction D a p t rule: put.induct) (auto simp: Let_def)

lemma leaf_at_put:
  "fits t (length p) \<Longrightarrow> length q = length p \<Longrightarrow>
   leaf_at (put D a p t) q = (if q = p then Some a else leaf_at t q)"
proof (induction D a p t arbitrary: q rule: put.induct [case_names Nil Node Leaf Empty])
  case (Node D a b bs l r)
  then show ?case by (cases q) auto
next
  case (Empty D a b bs d)
  then show ?case by (cases q) (auto simp: Let_def)
qed simp_all

lemma leaves_put:
  "fits t (length p) \<Longrightarrow> leaf_at t p = None \<Longrightarrow> length (leaves (put D a p t)) = Suc (length (leaves t))"
proof (induction D a p t rule: put.induct)
  case (1 D a t)
  then show ?case by (cases t) auto
qed (auto simp: Let_def)

lemma cs_holds_new: "cs_holds (cs_new D n) []"
  by (simp add: cs_holds_def cs_new_def)

lemma cs_holds_grow:
  assumes "cs_holds s xs"
  shows "cs_holds (cs_grow D s) xs \<and> length xs < 2 ^ cs_depth (cs_grow D s)"
proof (cases "cs_length s = 2 ^ cs_depth s")
  case True
  let ?d = "cs_depth s"
  have "leaf_at (Node (cs_tree s) (Empty (D ?d))) (leaf_turns i (Suc ?d))
      = (if i < length xs then Some (xs ! i) else None)" if "i < 2 ^ Suc ?d" for i
  proof (cases "i < 2 ^ ?d")
    case True
    then have "\<not> bit i ?d" by (simp add: bit_iff_odd)
    with True assms show ?thesis by (simp add: cs_holds_def)
  next
    case False
    with that have "i div 2 ^ ?d = 1" by (simp add: le_div_geq not_less)
    then have "bit i ?d" by (simp add: bit_iff_odd)
    with False True assms show ?thesis by (simp add: cs_holds_def)
  qed
  moreover from True assms have "length xs = 2 ^ ?d" by (simp add: cs_holds_def)
  moreover then have "xs \<noteq> []" by auto
  ultimately show ?thesis using True assms by (simp add: cs_holds_def cs_grow_def)
next
  case False
  with assms show ?thesis by (auto simp: cs_holds_def cs_grow_def)
qed

lemma cs_holds_append:
  assumes "cs_holds s xs"
  shows "cs_holds (cs_append D a s) (xs @ [a])"
proof -
  let ?s = "cs_grow D s"
  from cs_holds_grow [OF assms] have ok: "cs_holds ?s xs" and room: "length xs < 2 ^ cs_depth ?s" by auto
  from ok have "leaf_at (put D a (leaf_turns (length xs) (cs_depth ?s)) (cs_tree ?s))
        (leaf_turns i (cs_depth ?s))
      = (if i < length (xs @ [a]) then Some ((xs @ [a]) ! i) else None)" if "i < 2 ^ cs_depth ?s" for i
    using leaf_at_put [of "cs_tree ?s" "leaf_turns (length xs) (cs_depth ?s)"
        "leaf_turns i (cs_depth ?s)" D a] that room
    by (auto simp: cs_holds_def leaf_turns_inject nth_append)
  moreover have "leaf_at (cs_tree ?s) (leaf_turns (length xs) (cs_depth ?s)) = None"
    using ok room by (simp add: cs_holds_def)
  ultimately show ?thesis
    using ok room fits_put [of "cs_tree ?s" "leaf_turns (length xs) (cs_depth ?s)" D a]
      leaves_put [of "cs_tree ?s" "leaf_turns (length xs) (cs_depth ?s)" D a]
    by (simp add: cs_holds_def cs_append_def Let_def)
qed

lemma cs_holds_appends:
  "cs_holds s xs \<Longrightarrow> cs_holds (fold (cs_append D) as s) (xs @ as)"
proof (induction as arbitrary: s xs)
  case (Cons a as)
  from Cons.IH [OF cs_holds_append [OF Cons.prems]] show ?case by simp
qed simp

record 'n private_state =
  ps_set :: "shielded_account commitment_set"
  ps_roots :: "b32 set"
  ps_nullifiers :: "'n set"

type_synonym 'n private_tx = "('n \<times> b32) list \<times> shielded_account list"

datatype TxError = NullifierSeen | UnknownDigest

definition ps_new :: "sha \<Rightarrow> (nat \<Rightarrow> b32) \<Rightarrow> nat \<Rightarrow> 'n private_state" where
  "ps_new H D n = \<lparr>ps_set = cs_new D n, ps_roots = {ledger_root H (cs_tree (cs_new D n))},
     ps_nullifiers = {}\<rparr>"

fun check_nullifiers :: "'n private_state \<Rightarrow> ('n \<times> b32) list \<Rightarrow> TxError + unit" where
  "check_nullifiers s [] = Inr ()"
| "check_nullifiers s ((n, digest) # ins) =
     (if n \<in> ps_nullifiers s then Inl NullifierSeen
      else if digest \<notin> ps_roots s then Inl UnknownDigest
      else check_nullifiers s ins)"

definition transact :: "sha \<Rightarrow> (nat \<Rightarrow> b32) \<Rightarrow> 'n private_state \<Rightarrow> 'n private_tx
    \<Rightarrow> 'n private_state \<times> (TxError + unit)" where
  "transact H D s tx = (case tx of (ins, outs) \<Rightarrow>
     (case check_nullifiers s ins of
        Inl e \<Rightarrow> (s, Inl e)
      | Inr _ \<Rightarrow>
          (let set' = fold (cs_append D) outs (ps_set s)
           in (\<lparr>ps_set = set', ps_roots = insert (ledger_root H (cs_tree set')) (ps_roots s),
                ps_nullifiers = ps_nullifiers s \<union> fst ` set ins\<rparr>, Inr ()))))"

lemma check_nullifiers_Inr:
  "check_nullifiers s ins = Inr u \<longleftrightarrow>
     (\<forall>(n, digest) \<in> set ins. n \<notin> ps_nullifiers s \<and> digest \<in> ps_roots s)"
  by (induction s ins rule: check_nullifiers.induct) auto

lemma transact_Inr:
  "transact H D s (ins, outs) = (s', Inr u) \<longleftrightarrow>
     (\<forall>(n, digest) \<in> set ins. n \<notin> ps_nullifiers s \<and> digest \<in> ps_roots s)
     \<and> s' = \<lparr>ps_set = fold (cs_append D) outs (ps_set s),
          ps_roots = insert (ledger_root H (cs_tree (fold (cs_append D) outs (ps_set s)))) (ps_roots s),
          ps_nullifiers = ps_nullifiers s \<union> fst ` set ins\<rparr>"
  by (auto simp: transact_def Let_def check_nullifiers_Inr split: sum.splits)
    (auto simp: check_nullifiers_Inr [symmetric, of _ _ "()"])

lemma transact_Inl: "transact H D s tx = (s', Inl e) \<Longrightarrow> s' = s"
  by (auto simp: transact_def Let_def split: prod.splits sum.splits)

definition reference_chain :: "sha \<Rightarrow> (nat \<Rightarrow> b32) \<Rightarrow> nat
    \<Rightarrow> ('n private_state, 'n private_tx, 'n, TxError) private_chain" where
  "reference_chain H D n = \<lparr>pc_init = ps_new H D n, pc_step = transact H D, pc_set = ps_set,
     pc_roots = ps_roots, pc_nullifiers = ps_nullifiers, pc_spends = fst, pc_creates = snd\<rparr>"

lemma reference_chain_simps [simp]:
  "pc_init (reference_chain H D n) = ps_new H D n" "pc_step (reference_chain H D n) = transact H D"
  "pc_set (reference_chain H D n) = ps_set" "pc_roots (reference_chain H D n) = ps_roots"
  "pc_nullifiers (reference_chain H D n) = ps_nullifiers" "pc_spends (reference_chain H D n) = fst"
  "pc_creates (reference_chain H D n) = snd"
  by (simp_all add: reference_chain_def)

theorem reference_chain_keeps_ledger: "keeps_ledger H (reference_chain H D n)"
proof -
  have "cs_holds (ps_set (ps_new H D n)) []" by (simp add: ps_new_def cs_holds_new)
  then show ?thesis
    by (auto simp: keeps_ledger_def transact_Inr cs_holds_appends ps_new_def dest: transact_Inl)
qed

end
