(* ===== verification/PrivateGate.thy ===== *)
theory PrivateGate
  imports LedgerHistory DeepGate
begin

text \<open>
  The deep gate inside a private transaction, as the header of
  \<^verbatim>\<open>attestation_verifier_deep.rs\<close> and its eighth check describe the privacy path: the presenter is an
  input of the transaction, so the chain computes the commitment of the very state the gate reads,
  folds the caller's membership proof into a digest it must know, and records the nullifier of that
  state. The handler is \<open>deep_gated_check\<close>; the chain stays a parameter, with what it does for a
  transaction that calls the gate as the hypothesis \<open>keeps_private_gate\<close>. The last section extends
  the chain of \<open>LedgerHistory\<close> with gate calls.
\<close>

section \<open>A private transaction with a gate call\<close>

definition presenter_state :: "sha \<Rightarrow> account_with_metadata \<Rightarrow> shielded_account" where
  "presenter_state H p = \<lparr>sa_account_id = am_account_id p,
     sa_program_owner = acc_program_owner (am_account p), sa_balance = acc_balance (am_account p),
     sa_nonce = acc_nonce (am_account p), sa_data_hash = H (acc_data (am_account p))\<rparr>"

definition presenter_digest :: "sha \<Rightarrow> account_with_metadata \<Rightarrow> u64 \<Rightarrow> b32 list \<Rightarrow> b32" where
  "presenter_digest H p idx path =
     fold_merkle_path H (leaf_hash_of H (commit H (presenter_state H p))) idx path"

text \<open>A call: the accounts and arguments of the handler, and the caller's membership proof.\<close>

record private_call =
  pv_marker :: account_with_metadata
  pv_presenter :: account_with_metadata
  pv_args :: deep_args
  pv_index :: u64
  pv_path :: "b32 list"

abbreviation pv_state :: "sha \<Rightarrow> private_call \<Rightarrow> shielded_account" where
  "pv_state H c \<equiv> presenter_state H (pv_presenter c)"

abbreviation pv_digest :: "sha \<Rightarrow> private_call \<Rightarrow> b32" where
  "pv_digest H c \<equiv> presenter_digest H (pv_presenter c) (pv_index c) (pv_path c)"

record ('s, 'x, 'n, 'e) gate_chain = "('s, 'x, 'n, 'e) private_chain" +
  gc_call :: "'x \<Rightarrow> private_call option"
  gc_nullifier :: "shielded_account \<Rightarrow> 'n"

definition keeps_private_gate ::
  "sha \<Rightarrow> ('vk, 'sg) ecdsa \<Rightarrow> (u32 list \<Rightarrow> PrivateInputs option) \<Rightarrow> ('s, 'x, 'n, 'e) gate_chain \<Rightarrow> bool" where
  "keeps_private_gate H E fs ch \<longleftrightarrow> keeps_ledger H ch
     \<and> (\<forall>s x s' c. pc_step ch s x = (s', Inr ()) \<longrightarrow> gc_call ch x = Some c \<longrightarrow>
          deep_transaction H E fs (pv_marker c) (pv_presenter c) (pv_args c)
          \<and> (gc_nullifier ch (pv_state H c), pv_digest H c) \<in> set (pc_spends ch x))"

lemma keeps_private_gate_call:
  assumes "keeps_private_gate H E fs ch" and "pc_step ch s x = (s', Inr ())" and "gc_call ch x = Some c"
  shows "keeps_ledger H ch" "deep_transaction H E fs (pv_marker c) (pv_presenter c) (pv_args c)"
    "(gc_nullifier ch (pv_state H c), pv_digest H c) \<in> set (pc_spends ch x)"
  using assms unfolding keeps_private_gate_def by blast+

text \<open>What the chain adds to the gate: the state the gate read was an account of a ledger the chain had.\<close>

definition presenter_break :: "sha \<Rightarrow> private_call \<Rightarrow> shielded_account mtree \<Rightarrow> bool" where
  "presenter_break H c t \<longleftrightarrow> hash_break H
     (account_preimage (pv_state H c) # path_messages H (commit H (pv_state H c)) (pv_index c) (pv_path c))
     (ledger_messages H t) (empties t)"

lemma presenter_anchored:
  assumes "keeps_private_gate H E fs ch" and "reachable (pc_step ch) (pc_init ch) s"
    and "pc_step ch s x = (s1, Inr ())" and "gc_call ch x = Some c"
  shows "\<exists>s0. reachable (pc_step ch) (pc_init ch) s0 \<and> reachable (pc_step ch) s0 s
    \<and> (leaf_at (pc_tree ch s0) (turns (pv_index c) (length (pv_path c))) = Some (pv_state H c)
       \<or> presenter_break H c (pc_tree ch s0))"
proof -
  note call = keeps_private_gate_call [OF assms(1,3,4)]
  from accepted_step(2) [OF call(1) assms(3) call(3)] have "pv_digest H c \<in> pc_roots ch s" .
  from known_root_was_current [OF call(1) assms(2) this] obtain s0 where
    "reachable (pc_step ch) (pc_init ch) s0" "reachable (pc_step ch) s0 s"
    and "pv_digest H c = pc_root H ch s0" by blast
  moreover from this(3) preimage_root_sound
    [of H "account_preimage (pv_state H c)" "pv_index c" "pv_path c" "pc_tree ch s0"]
  have "leaf_at (pc_tree ch s0) (turns (pv_index c) (length (pv_path c))) = Some (pv_state H c)
    \<or> presenter_break H c (pc_tree ch s0)"
    by (auto simp: presenter_digest_def presenter_break_def commit_eq_hash account_preimage_inject)
  ultimately show ?thesis by blast
qed

lemma presenter_spent:
  assumes "keeps_private_gate H E fs ch" and "reachable (pc_step ch) (pc_init ch) s"
    and "pc_step ch s x = (s1, Inr ())" and "gc_call ch x = Some c"
    and "reachable (pc_step ch) s1 s'" and "gc_call ch x' = Some c'" and "pv_state H c' = pv_state H c"
  shows "\<exists>e. pc_step ch s' x' = (s', Inl e)"
proof (cases "pc_step ch s' x'")
  case (Pair s2 res)
  note call = keeps_private_gate_call [OF assms(1,3,4)]
  have "gc_nullifier ch (pv_state H c) \<in> pc_nullifiers ch s1"
    using accepted_step(5) [OF call(1) assms(3)] call(3) by (auto intro: rev_image_eqI)
  with later_known(1) [OF call(1) reach_step [OF assms(2,3)] assms(5)]
  have seen: "gc_nullifier ch (pv_state H c) \<in> pc_nullifiers ch s'" by blast
  show ?thesis
  proof (cases res)
    case (Inl e)
    with Pair refused_unchanged [OF call(1)] show ?thesis by auto
  next
    case (Inr u)
    with Pair have step: "pc_step ch s' x' = (s2, Inr ())" by simp
    from keeps_private_gate_call(3) [OF assms(1) step assms(6)]
    have "gc_nullifier ch (pv_state H c') \<notin> pc_nullifiers ch s'"
      by (rule accepted_step(1) [OF call(1) step])
    with seen assms(7) show ?thesis by simp
  qed
qed

section \<open>A chain with gate calls\<close>

type_synonym 'n gate_tx = "private_call option \<times> 'n private_tx"

fun gate_tx_spends :: "sha \<Rightarrow> (shielded_account \<Rightarrow> 'n) \<Rightarrow> 'n gate_tx \<Rightarrow> ('n \<times> b32) list" where
  "gate_tx_spends H nf (None, tx) = fst tx"
| "gate_tx_spends H nf (Some c, tx) = (nf (pv_state H c), pv_digest H c) # fst tx"

fun gate_transact :: "sha \<Rightarrow> ('vk, 'sg) ecdsa \<Rightarrow> (u32 list \<Rightarrow> PrivateInputs option) \<Rightarrow> (nat \<Rightarrow> b32)
    \<Rightarrow> (shielded_account \<Rightarrow> 'n) \<Rightarrow> 'n private_state \<Rightarrow> 'n gate_tx
    \<Rightarrow> 'n private_state \<times> (TxError option + unit)" where
  "gate_transact H E fs D nf s (gc, tx) =
     (if \<exists>c \<in> set_option gc. \<not> deep_transaction H E fs (pv_marker c) (pv_presenter c) (pv_args c)
      then (s, Inl None)
      else apsnd (map_sum Some id) (transact H D s (gate_tx_spends H nf (gc, tx), snd tx)))"

definition reference_gate_chain :: "sha \<Rightarrow> ('vk, 'sg) ecdsa \<Rightarrow> (u32 list \<Rightarrow> PrivateInputs option)
    \<Rightarrow> (nat \<Rightarrow> b32) \<Rightarrow> nat \<Rightarrow> (shielded_account \<Rightarrow> 'n)
    \<Rightarrow> ('n private_state, 'n gate_tx, 'n, TxError option) gate_chain" where
  "reference_gate_chain H E fs D n nf = \<lparr>pc_init = ps_new H D n, pc_step = gate_transact H E fs D nf,
     pc_set = ps_set, pc_roots = ps_roots, pc_nullifiers = ps_nullifiers,
     pc_spends = gate_tx_spends H nf, pc_creates = snd \<circ> snd, gc_call = fst, gc_nullifier = nf\<rparr>"

lemma reference_gate_chain_simps [simp]:
  "pc_init (reference_gate_chain H E fs D n nf) = ps_new H D n"
  "pc_step (reference_gate_chain H E fs D n nf) = gate_transact H E fs D nf"
  "pc_set (reference_gate_chain H E fs D n nf) = ps_set"
  "pc_roots (reference_gate_chain H E fs D n nf) = ps_roots"
  "pc_nullifiers (reference_gate_chain H E fs D n nf) = ps_nullifiers"
  "pc_spends (reference_gate_chain H E fs D n nf) = gate_tx_spends H nf"
  "pc_creates (reference_gate_chain H E fs D n nf) = snd \<circ> snd"
  "gc_call (reference_gate_chain H E fs D n nf) = fst"
  "gc_nullifier (reference_gate_chain H E fs D n nf) = nf"
  by (simp_all add: reference_gate_chain_def)

lemma gate_transact_Inr:
  "gate_transact H E fs D nf s (gc, tx) = (s', Inr u) \<longleftrightarrow>
     (\<forall>c. gc = Some c \<longrightarrow> deep_transaction H E fs (pv_marker c) (pv_presenter c) (pv_args c))
     \<and> transact H D s (gate_tx_spends H nf (gc, tx), snd tx) = (s', Inr ())"
  by (cases "transact H D s (gate_tx_spends H nf (gc, tx), snd tx)"; cases "snd (transact H D s (gate_tx_spends H nf (gc, tx), snd tx))")
    auto

lemma gate_transact_Inl:
  assumes "gate_transact H E fs D nf s x = (s', Inl e)"
  shows "s' = s"
proof -
  obtain gc tx where x: "x = (gc, tx)" by (rule prod.exhaust)
  obtain s2 r where *: "transact H D s (gate_tx_spends H nf (gc, tx), snd tx) = (s2, r)"
    by (rule prod.exhaust)
  show ?thesis
    using assms * unfolding x by (cases r) (auto split: if_splits dest: transact_Inl)
qed

theorem reference_gate_chain_keeps: "keeps_private_gate H E fs (reference_gate_chain H E fs D n nf)"
proof -
  have "cs_holds (ps_set (ps_new H D n)) []" by (simp add: ps_new_def cs_holds_new)
  then have "keeps_ledger H (reference_gate_chain H E fs D n nf)"
    by (auto simp: keeps_ledger_def gate_transact_Inr transact_Inr cs_holds_appends ps_new_def
        dest: gate_transact_Inl simp del: gate_transact.simps)
  then show ?thesis
    by (auto simp: keeps_private_gate_def gate_transact_Inr simp del: gate_transact.simps)
qed

end
