(* ===== verification/HistoryProperties.thy ===== *)
theory HistoryProperties
  imports CredentialProperties PrivateGate
begin

text \<open>
  What the root check of the sequencer client establishes when the chain moves on: a credential
  anchored to an earlier ledger is refused, but the account it speaks of need not exist any more; and
  what the deep gate's private transactions add, where it must. The chain is a parameter that keeps
  its ledger (\<open>keeps_ledger\<close>, \<open>keeps_private_gate\<close>); the witnesses run the reference chains.
\<close>

text \<open>A chain for the examples: a set of capacity two, an account of 2000000 that is created and then
  spent for one of 5. It ends with \<open>sample_ledger\<close>.\<close>

definition sample_defaults :: "nat \<Rightarrow> b32" where "sample_defaults k = arr_rep 0"

definition sample_chain :: "(nat private_state, nat private_tx, nat, TxError) private_chain" where
  "sample_chain = reference_chain sample_hash sample_defaults 1"

lemma sample_chain_keeps: "keeps_ledger sample_hash sample_chain"
  unfolding sample_chain_def by (rule reference_chain_keeps_ledger)

lemma sample_chain_simps [simp]:
  "pc_step sample_chain = transact sample_hash sample_defaults" "pc_set sample_chain = ps_set"
  "pc_roots sample_chain = ps_roots" "pc_spends sample_chain = fst" "pc_creates sample_chain = snd"
  "pc_init sample_chain = ps_new sample_hash sample_defaults 1"
  by (simp_all add: sample_chain_def)

definition sample_before :: "nat private_state" where
  "sample_before = fst (transact sample_hash sample_defaults (ps_new sample_hash sample_defaults 1)
     ([], [sample_account]))"

definition sample_spend :: "nat private_tx" where
  "sample_spend = ([(7, ledger_root sample_hash (cs_tree (ps_set sample_before)))],
     [sample_account\<lparr>sa_balance := 5\<rparr>])"

definition sample_after :: "nat private_state" where
  "sample_after = fst (transact sample_hash sample_defaults sample_before sample_spend)"

lemma sample_before_simps:
  "cs_tree (ps_set sample_before) = Node (Leaf sample_account) (Empty (arr_rep 0))"
  "cs_depth (ps_set sample_before) = 1" "cs_length (ps_set sample_before) = 1"
  "ps_nullifiers sample_before = {}"
  "ledger_root sample_hash (cs_tree (ps_set sample_before)) \<in> ps_roots sample_before"
  by (simp_all add: sample_before_def transact_def ps_new_def cs_new_def cs_append_def cs_grow_def
      leaf_turns_def sample_defaults_def Let_def)

lemma sample_after_simps:
  "cs_tree (ps_set sample_after) = sample_ledger" "cs_depth (ps_set sample_after) = 1"
  using sample_before_simps
  by (simp_all add: sample_after_def sample_spend_def transact_def cs_append_def cs_grow_def
      leaf_turns_def sample_ledger_def sample_defaults_def Let_def bit_0)

lemma sample_before_reachable:
  "reachable (pc_step sample_chain) (pc_init sample_chain) sample_before"
  unfolding sample_before_def by (simp, metis prod.collapse reach_one)

lemma sample_spend_accepted:
  "pc_step sample_chain sample_before sample_spend = (sample_after, Inr ())"
  using sample_before_simps(4,5) by (simp add: sample_after_def sample_spend_def transact_def Let_def)

section \<open>Outdated roots\<close>

text \<open>Claim C11: the root check refuses every ledger but the current one. Once a later transaction has
  created an account, \<open>is_root_current\<close> answers false for a credential anchored to the earlier ledger,
  unless the two ledgers' messages break the hash; the chain's own root history still knows the root,
  so its transactions would pass with it.\<close>

theorem outdated_root_refused:
  assumes "json_ok J" and "keeps_ledger H ch" and "reachable (pc_step ch) (pc_init ch) s"
    and "pc_step ch s x = (s1, Inr ())" and "pc_creates ch x \<noteq> []"
    and "reachable (pc_step ch) s1 s'"
    and "sequencer_holds H J C endpoint (pc_tree ch s') known"
  shows "(is_root_current H J C hex endpoint (pc_root H ch s) known = Inr False
      \<or> roots_break H (map_mtree (commit H) (pc_tree ch s)) (map_mtree (commit H) (pc_tree ch s')))
    \<and> pc_root H ch s \<in> pc_roots ch s'"
proof -
  have "reachable (pc_step ch) s s'"
    using reachable_trans [OF reach_one [of "pc_step ch", OF assms(4)] assms(6)] .
  then show ?thesis
    using later_root [OF assms(2-6)] later_known(2) [OF assms(2,3)] is_root_current_honest [OF assms(1,7)]
    by auto
qed

theorem outdated_root_refused_witness:
  "(is_root_current sample_hash sample_json sample_rpc Inl []
        (ledger_root sample_hash (cs_tree (ps_set sample_before))) sample_commitment = Inr False
      \<or> roots_break sample_hash (map_mtree (commit sample_hash) (cs_tree (ps_set sample_before)))
          (map_mtree (commit sample_hash) (cs_tree (ps_set sample_after))))
    \<and> ledger_root sample_hash (cs_tree (ps_set sample_before)) \<in> ps_roots sample_after"
  using outdated_root_refused [OF sample_json_ok sample_chain_keeps sample_before_reachable
      sample_spend_accepted _ reach_init, where C = sample_rpc and endpoint = "[]" and
      known = sample_commitment and hex = Inl]
  by (simp add: sample_spend_def sample_after_simps sample_sequencer)

section \<open>Accounts that are gone\<close>

text \<open>Claim C10: a credential says that an account existed, not that it still does. After a transaction
  spent an account of the ledger, whatever happened since, its former holder still obtains a proof
  over the current ledger for its former balance; the verifier accepts it, and the sequencer confirms
  its root as current. The chain itself refuses every transaction that spends the account again.\<close>

theorem spent_account_still_attests:
  assumes "prover_ok H P Z ID (holder_request H (pc_tree ch s') npk i a idx
        (cs_depth (pc_set ch s')) threshold ctx pk) kind"
    and "signer_ok E S" and "presenter_public S sk = Some pk" and "json_ok J"
    and "keeps_ledger H ch" and "reachable (pc_step ch) (pc_init ch) s"
    and "leaf_at (pc_tree ch s) (turns idx (cs_depth (pc_set ch s))) = Some a"
    and "unat idx < cs_length (pc_set ch s)" and "sa_account_id a = derive_account_id H npk i"
    and "threshold \<le> sa_balance a" and "floor \<le> threshold"
    and "pc_step ch s x = (s1, Inr ())" and "nul \<in> fst ` set (pc_spends ch x)"
    and "reachable (pc_step ch) s1 s'"
    and "sequencer_holds H J C endpoint (pc_tree ch s') known"
  shows "(\<exists>pf. prove_with_kind H P Z (holder_request H (pc_tree ch s') npk i a idx
          (cs_depth (pc_set ch s')) threshold ctx pk) kind = Inr pf
      \<and> j_threshold (pf_journal pf) = threshold
      \<and> verify_credential H E Z ID (pf_receipt pf) nonce (presenter_sign H S sk nonce (pf_journal pf))
          ctx floor = Inr (pf_journal pf)
      \<and> is_root_current H J C hex endpoint (j_merkle_root (pf_journal pf)) known = Inr True)
    \<and> (nul \<in> fst ` set (pc_spends ch x') \<longrightarrow> (\<exists>e. pc_step ch s' x' = (s', Inl e)))"
proof
  let ?t = "pc_tree ch s'" and ?d = "cs_depth (pc_set ch s')"
  let ?req = "holder_request H ?t npk i a idx ?d threshold ctx pk"
  have to_s': "reachable (pc_step ch) s s'"
    using reachable_trans [OF reach_one [of "pc_step ch", OF assms(12)] assms(14)] .
  from later_leaf [OF assms(5,6) this assms(8)] assms(7) have "leaf_at ?t (turns idx ?d) = Some a" by simp
  note true = holder_request_true [OF this assms(9,10), where c = ctx and pk = pk]
  from presented_proof_accepted [OF assms(1,2) true, of sk floor nonce] assms(3,11)
  obtain pf where "prove_with_kind H P Z ?req kind = Inr pf" "pf_journal pf = journal_stub H ?req"
    "verify_credential H E Z ID (pf_receipt pf) nonce (presenter_sign H S sk nonce (pf_journal pf))
      ctx floor = Inr (pf_journal pf)" by fastforce
  then show "\<exists>pf. prove_with_kind H P Z ?req kind = Inr pf \<and> j_threshold (pf_journal pf) = threshold
      \<and> verify_credential H E Z ID (pf_receipt pf) nonce (presenter_sign H S sk nonce (pf_journal pf))
          ctx floor = Inr (pf_journal pf)
      \<and> is_root_current H J C hex endpoint (j_merkle_root (pf_journal pf)) known = Inr True"
    using is_root_current_honest [OF assms(4,15)] by auto
  have "nul \<in> pc_nullifiers ch s'"
    using accepted_step(5) [OF assms(5,12)] assms(13)
      later_known(1) [OF assms(5) reach_step [OF assms(6,12)] assms(14)] by blast
  then show "nul \<in> fst ` set (pc_spends ch x') \<longrightarrow> (\<exists>e. pc_step ch s' x' = (s', Inl e))"
    by (blast intro: seen_refused [OF assms(5)])
qed

theorem spent_account_still_attests_witness:
  "(\<exists>pf. prove_with_kind sample_hash (sample_prover sample_hash) (sample_zkvm sample_hash)
        (holder_request sample_hash sample_ledger (arr_rep 3) 42 sample_account 0 1 1000000 (arr_rep 4)
          sample_pk) Composite = Inr pf
      \<and> j_threshold (pf_journal pf) = 1000000
      \<and> verify_credential sample_hash sample_ecdsa (sample_zkvm sample_hash) sample_id (pf_receipt pf)
          sample_nonce (presenter_sign sample_hash sample_signer sample_pk sample_nonce (pf_journal pf))
          (arr_rep 4) 900000 = Inr (pf_journal pf)
      \<and> is_root_current sample_hash sample_json sample_rpc Inl [] (j_merkle_root (pf_journal pf))
          sample_commitment = Inr True)
    \<and> (\<exists>e. transact sample_hash sample_defaults sample_after ([(7, arr_rep 0)], [])
          = (sample_after, Inl e))"
proof -
  have leaf: "leaf_at (pc_tree sample_chain sample_before)
      (turns 0 (cs_depth (pc_set sample_chain sample_before))) = Some sample_account"
    by (simp add: sample_before_simps)
  show ?thesis
    using spent_account_still_attests [OF sample_prover_ok sample_signer_ok sample_presenter_public
        sample_json_ok sample_chain_keeps sample_before_reachable leaf _ _ _ _ sample_spend_accepted _
        reach_init, where npk = "arr_rep 3" and i = 42 and threshold = 1000000 and floor = 900000 and
        nul = 7 and C = sample_rpc and endpoint = "[]" and known = sample_commitment and
        ctx = "arr_rep 4" and kind = Composite and nonce = sample_nonce and hex = Inl and
        x' = "([(7, arr_rep 0)], [])"]
    by (simp add: sample_after_simps sample_sequencer sample_before_simps sample_spend_def
        sample_account_simps)
qed

section \<open>The gate inside a private transaction\<close>

text \<open>Claim C9: on the private path the gate speaks of a live account. When the chain accepts a
  transaction with a gate call, the account state the gate read is the attested account's, natively
  owned with at least the floor; it was an account of a ledger of this chain, up to a hash break, and
  not yet spent; and the transaction spends it, so that every later transaction that calls the gate on
  the same state is refused.\<close>

theorem private_gate_account_live:
  assumes "keeps_private_gate H E fs ch" and "reachable (pc_step ch) (pc_init ch) s"
    and "pc_step ch s x = (s1, Inr ())" and "gc_call ch x = Some c"
  shows "(\<exists>w j. fs (a_witness_words (pv_args c)) = Some w \<and> args_journal (pv_args c) = Some j
        \<and> sa_account_id (pv_state H c) = witness_account_id H w
        \<and> attest H w (statement_of j) = Inr (a_nullifier (pv_args c)))
    \<and> sa_program_owner (pv_state H c) = AUTHENTICATED_TRANSFER_PROGRAM_ID
    \<and> a_minimum_threshold (pv_args c) \<le> sa_balance (pv_state H c)
    \<and> gc_nullifier ch (pv_state H c) \<notin> pc_nullifiers ch s
    \<and> (\<exists>s0. reachable (pc_step ch) (pc_init ch) s0 \<and> reachable (pc_step ch) s0 s
        \<and> (leaf_at (pc_tree ch s0) (turns (pv_index c) (length (pv_path c))) = Some (pv_state H c)
           \<or> presenter_break H c (pc_tree ch s0)))
    \<and> (reachable (pc_step ch) s1 s' \<and> gc_call ch x' = Some c' \<and> pv_state H c' = pv_state H c \<longrightarrow>
        (\<exists>e. pc_step ch s' x' = (s', Inl e)))"
proof -
  note call = keeps_private_gate_call [OF assms(1,3,4)]
  from call(2) obtain j w where *: "args_journal (pv_args c) = Some j"
    "fs (a_witness_words (pv_args c)) = Some w"
    "attest H w (statement_of j) = Inr (j_nullifier j)"
    "deep_gated_check H E fs (pv_marker c) (pv_presenter c) (pv_args c)
      = Inr \<lparr>so_accounts = [pv_marker c, pv_presenter c], so_chained = [declared_call j w]\<rparr>"
    by (auto simp: deep_transaction_iff)
  moreover from *(1,2,4) have "witness_bound H (pv_presenter c) (a_minimum_threshold (pv_args c)) j w"
    by (auto simp: deep_gated_check_Inr)
  moreover from *(1) have "j_nullifier j = a_nullifier (pv_args c)" by (simp add: args_journal_Some)
  moreover have "gc_nullifier ch (pv_state H c) \<notin> pc_nullifiers ch s"
    by (rule accepted_step(1) [OF call(1) assms(3) call(3)])
  ultimately show ?thesis using presenter_anchored [OF assms] presenter_spent [OF assms]
    by (auto simp: witness_bound_def presenter_state_def)
qed

definition sample_gate_chain ::
  "(shielded_account private_state, shielded_account gate_tx, shielded_account, TxError option) gate_chain"
  where
  "sample_gate_chain = reference_gate_chain sample_hash sample_ecdsa sample_from_slice sample_defaults 1 id"

definition sample_call :: private_call where
  "sample_call = \<lparr>pv_marker = sample_marker, pv_presenter = sample_presenter,
     pv_args = sample_deep_args (arr_rep 4) 900000, pv_index = 0, pv_path = [arr_rep 0]\<rparr>"

definition sample_live :: "shielded_account private_state" where
  "sample_live = fst (pc_step sample_gate_chain (pc_init sample_gate_chain)
     (None, [], [pv_state sample_hash sample_call]))"

lemma sample_gate_chain_keeps:
  "keeps_private_gate sample_hash sample_ecdsa sample_from_slice sample_gate_chain"
  unfolding sample_gate_chain_def by (rule reference_gate_chain_keeps)

lemma sample_live_reachable:
  "reachable (pc_step sample_gate_chain) (pc_init sample_gate_chain) sample_live"
  unfolding sample_live_def by (metis prod.collapse reach_one)

lemma sample_live_simps:
  "pv_digest sample_hash sample_call \<in> ps_roots sample_live" "ps_nullifiers sample_live = {}"
  by (simp_all add: sample_live_def sample_gate_chain_def sample_call_def transact_def ps_new_def cs_new_def
      cs_append_def cs_grow_def leaf_turns_def sample_defaults_def Let_def presenter_digest_def
      fold_merkle_path_def ledger_root_def)

lemma sample_private_call:
  "\<exists>s1. pc_step sample_gate_chain sample_live (Some sample_call, [], []) = (s1, Inr ())"
  using sample_deep_transaction [of 900000 "arr_rep 4"] sample_live_simps
  by (simp add: sample_gate_chain_def gate_transact_Inr transact_Inr del: gate_transact.simps)
    (simp add: sample_call_def)

theorem private_gate_account_live_witness:
  "\<exists>s1. pc_step sample_gate_chain sample_live (Some sample_call, [], []) = (s1, Inr ())
    \<and> 900000 \<le> sa_balance (pv_state sample_hash sample_call)
    \<and> (\<exists>e. pc_step sample_gate_chain s1 (Some sample_call, [], []) = (s1, Inl e))"
proof -
  obtain s1 where s1: "pc_step sample_gate_chain sample_live (Some sample_call, [], []) = (s1, Inr ())"
    using sample_private_call by blast
  have gc: "gc_call sample_gate_chain (Some sample_call, tx) = Some sample_call" for tx
    by (simp add: sample_gate_chain_def)
  have m: "a_minimum_threshold (pv_args sample_call) = 900000"
    by (simp add: sample_call_def sample_deep_args_def)
  from private_gate_account_live [OF sample_gate_chain_keeps sample_live_reachable s1 gc, where s' = s1
      and x' = "(Some sample_call, [], [])" and c' = sample_call] s1 gc
    reach_init [of "pc_step sample_gate_chain" s1]
  show ?thesis unfolding m by blast
qed

end
