(* ===== verification/Admissions.thy ===== *)
theory Admissions
  imports HistoryProperties ChatGate
begin

text \<open>
  A group's operator over time. The demo (\<^verbatim>\<open>waku_token_gate.rs\<close>) admits one candidate and then asks
  the sequencer whether the journal's root is current, \<^verbatim>\<open>the check a production gate must also run\<close>.
  Here the same two calls, in the same order, serve a roster that lives on while the chain moves: an
  event is a transaction of the chain or a join request, in any interleaving. The lemmas project a
  run to a run of the chain and to a run of the roster on its own requests, so that the component's
  lemmas apply; the property says what the admissions with a confirmed root are worth.
\<close>

section \<open>The composed system\<close>

datatype ('x, 'r) gate_event = Settle 'x | Join 'r b32 bytes

datatype verdict = Settled | Admitted PublicJournal "ClientError + bool"

definition operator_step :: "sha \<Rightarrow> ('vk, 'sg) ecdsa \<Rightarrow> 'r zkvm \<Rightarrow> program_id \<Rightarrow> 'j json \<Rightarrow> ('s \<Rightarrow> 'j rpc)
    \<Rightarrow> hex_decoder \<Rightarrow> string \<Rightarrow> b32 \<Rightarrow> ('s, 'x, 'n, 'e) private_chain
    \<Rightarrow> 's \<times> GroupRoster \<Rightarrow> ('x, 'r) gate_event \<Rightarrow> ('s \<times> GroupRoster) \<times> (AdmissionError + verdict)" where
  "operator_step H E Z ID J C hex endpoint known ch state event =
    (case (state, event) of
       ((s, roster), Settle x) \<Rightarrow> ((fst (pc_step ch s x), roster), Inr Settled)
     | ((s, roster), Join receipt nonce der) \<Rightarrow>
         (case admit H E Z ID roster receipt nonce der of
            (roster, Inl e) \<Rightarrow> ((s, roster), Inl e)
          | (roster, Inr journal) \<Rightarrow> ((s, roster),
              Inr (Admitted journal (is_root_current H J (C s) hex endpoint (j_merkle_root journal) known)))))"

text \<open>The events and results of each component.\<close>

fun chain_events :: "('x, 'r) gate_event list \<Rightarrow> 'x list" where
  "chain_events [] = []"
| "chain_events (Settle x # es) = x # chain_events es"
| "chain_events (Join r nonce der # es) = chain_events es"

fun join_log :: "(('x, 'r) gate_event \<times> (AdmissionError + verdict)) list
    \<Rightarrow> (('r \<times> b32 \<times> bytes) \<times> (AdmissionError + PublicJournal)) list" where
  "join_log [] = []"
| "join_log ((Join r nonce der, Inl e) # log) = ((r, nonce, der), Inl e) # join_log log"
| "join_log ((Join r nonce der, Inr (Admitted j fresh)) # log) = ((r, nonce, der), Inr j) # join_log log"
| "join_log (_ # log) = join_log log"

abbreviation admitted_journals :: "(('x, 'r) gate_event \<times> (AdmissionError + verdict)) list
    \<Rightarrow> PublicJournal list" where
  "admitted_journals log \<equiv> map snd (successes (join_log log))"

section \<open>Projections\<close>

text \<open>A run begins with a transaction, or with a request that is served at the present ledger.\<close>

lemma operator_run_ConsE:
  assumes "run_steps (operator_step H E Z ID J C hex endpoint known ch) (s, roster) (e # es)
    = ((s', roster'), log)"
  obtains (Settle) x log1 where "e = Settle x" "log = (Settle x, Inr Settled) # log1"
      "run_steps (operator_step H E Z ID J C hex endpoint known ch) (fst (pc_step ch s x), roster) es
        = ((s', roster'), log1)"
    | (Refused) r nonce der v roster1 log1 where "e = Join r nonce der"
      "log = (Join r nonce der, Inl v) # log1" "admit H E Z ID roster r nonce der = (roster1, Inl v)"
      "run_steps (operator_step H E Z ID J C hex endpoint known ch) (s, roster1) es = ((s', roster'), log1)"
    | (Admitted) r nonce der j roster1 log1 where "e = Join r nonce der"
      "log = (Join r nonce der, Inr (Admitted j
         (is_root_current H J (C s) hex endpoint (j_merkle_root j) known))) # log1"
      "admit H E Z ID roster r nonce der = (roster1, Inr j)"
      "run_steps (operator_step H E Z ID J C hex endpoint known ch) (s, roster1) es = ((s', roster'), log1)"
proof (cases e)
  case e: (Settle x)
  with assms Settle show ?thesis by (auto simp: operator_step_def split: prod.splits)
next
  case e: (Join r nonce der)
  obtain roster1 out where step: "admit H E Z ID roster r nonce der = (roster1, out)" by (rule prod.exhaust)
  show ?thesis
  proof (cases out)
    case (Inl v)
    with assms e step Refused show ?thesis by (auto simp: operator_step_def split: prod.splits)
  next
    case (Inr j)
    with assms e step Admitted show ?thesis by (auto simp: operator_step_def split: prod.splits)
  qed
qed

text \<open>The chain runs its transactions, whoever joins in between.\<close>

lemma operator_run_chain:
  "run_steps (operator_step H E Z ID J C hex endpoint known ch) (s, roster) es = ((s', roster'), log)
    \<Longrightarrow> fst (run_steps (pc_step ch) s (chain_events es)) = s'"
proof (induction es arbitrary: s roster log)
  case (Cons e es)
  from Cons.prems show ?case
  proof (cases rule: operator_run_ConsE)
    case (Settle x log1)
    with Cons.IH [OF Settle(3)] show ?thesis by (simp add: case_prod_beta)
  qed (auto dest: Cons.IH)
qed simp

text \<open>The roster serves its requests, whatever the chain does in between.\<close>

lemma operator_run_roster:
  "run_steps (operator_step H E Z ID J C hex endpoint known ch) (s, roster) es = ((s', roster'), log)
    \<Longrightarrow> run_steps (admit_step H E Z ID) roster (map fst (join_log log)) = (roster', join_log log)"
proof (induction es arbitrary: s roster log)
  case (Cons e es)
  from Cons.prems show ?case
    by (cases rule: operator_run_ConsE) (auto dest: Cons.IH)
qed simp

lemma operator_run_reaches:
  assumes "run_steps (operator_step H E Z ID J C hex endpoint known ch) (s, roster) es
    = ((s', roster'), log)"
  shows "reachable (pc_step ch) s s'"
  using run_steps_reachable [OF reach_init, of "pc_step ch" s "chain_events es" s'
      "snd (run_steps (pc_step ch) s (chain_events es))"] operator_run_chain [OF assms]
  by (simp add: prod_eq_iff)

text \<open>An admission happened at some moment of the run, and so did its root check.\<close>

lemma operator_run_admission:
  assumes "run_steps (operator_step H E Z ID J C hex endpoint known ch) (s, roster) es
      = ((s', roster'), log)"
    and "(Join r nonce der, Inr (Admitted j fresh)) \<in> set log"
  shows "\<exists>s0 roster0 roster1. reachable (pc_step ch) s s0 \<and> reachable (pc_step ch) s0 s'
    \<and> reachable (admit_step H E Z ID) roster roster0
    \<and> admit H E Z ID roster0 r nonce der = (roster1, Inr j)
    \<and> fresh = is_root_current H J (C s0) hex endpoint (j_merkle_root j) known"
  using assms
proof (induction es arbitrary: s roster log)
  case (Cons e es)
  have joined: "admit H E Z ID roster r' nonce' der' = (roster1, res) \<Longrightarrow>
      reachable (admit_step H E Z ID) roster roster1" for r' nonce' der' roster1 res
    by (rule reach_one [where r = "(r', nonce', der')"]) simp
  from Cons.prems(1) show ?case
  proof (cases rule: operator_run_ConsE)
    case (Settle x log1)
    have "reachable (pc_step ch) s (fst (pc_step ch s x))" by (rule reach_one) (rule surjective_pairing)
    moreover from Settle(2) Cons.prems(2) have "(Join r nonce der, Inr (Admitted j fresh)) \<in> set log1" by simp
    ultimately show ?thesis using Cons.IH [OF Settle(3)] by (meson reachable_trans)
  next
    case (Refused r' nonce' der' v roster1 log1)
    from Refused(2) Cons.prems(2) have "(Join r nonce der, Inr (Admitted j fresh)) \<in> set log1" by simp
    with Cons.IH [OF Refused(4)] joined [OF Refused(3)] show ?thesis by (meson reachable_trans)
  next
    case (Admitted r' nonce' der' j' roster1 log1)
    show ?thesis
    proof (cases "(Join r nonce der, Inr (Admitted j fresh)) \<in> set log1")
      case True
      with Cons.IH [OF Admitted(4)] joined [OF Admitted(3)] show ?thesis by (meson reachable_trans)
    next
      case False
      with Admitted(2,3) Cons.prems(2) have "admit H E Z ID roster r nonce der = (roster1, Inr j)"
        "fresh = is_root_current H J (C s) hex endpoint (j_merkle_root j) known" by auto
      with operator_run_reaches [OF Admitted(4)] show ?thesis by (blast intro: reachable.reach_init)
    qed
  qed
qed simp

section \<open>What an admission is worth\<close>

lemma admitted_member_holds_stake:
  assumes "risc0_sound Z ID H ext" and "json_ok J" and "sequencer_holds H J C endpoint t known"
    and "admit H E Z ID s r nonce der = (s', Inr j)"
    and "is_root_current H J C hex endpoint (j_merkle_root j) known = Inr True"
  shows "j_presenter_pubkey j \<in> r_members s' \<and> j_merkle_root j = ledger_root H t
    \<and> (holds_balance H t (fst (ext r)) j (r_minimum_stake s) \<or> ledger_break H t (fst (ext r)))"
proof -
  from assms(4) have "verify_receipt Z ID r = Inr j" and "r_minimum_stake s \<le> j_threshold j"
    and "j_presenter_pubkey j \<in> r_members s'"
    by (auto simp: admit_Inr credential_for_group_def)
  moreover have "j_merkle_root j = ledger_root H t"
    using assms(5) is_root_current_honest [OF assms(2,3)] by simp
  ultimately show ?thesis
    using attested_holds_balance [OF accepted_receipt_attests [OF assms(1)]] by blast
qed

text \<open>Claim C6: a group's admissions while the chain moves. Start with an empty roster at any ledger of
  the chain and run transactions and join requests in any order, each admission followed by a root
  check against a sequencer that answers from the ledger of the moment. Then the members are exactly
  the keys of the admitted journals, no two of which share a nullifier; and whenever the root check
  confirmed an admission, the receipt was proved from an account of the ledger of that moment, one
  the chain passed through during the run, holding at least the group's stake, up to a hash break.\<close>

theorem admissions_over_time:
  assumes "risc0_sound Z ID H ext" and "json_ok J"
    and "\<And>s0. reachable (pc_step ch) s s0 \<Longrightarrow> sequencer_holds H J (C s0) endpoint (pc_tree ch s0) known"
    and "run_steps (operator_step H E Z ID J C hex endpoint known ch) (s, roster_new g m) events
      = ((s', roster), log)"
  shows "r_members roster = j_presenter_pubkey ` set (admitted_journals log)
    \<and> distinct (map j_nullifier (admitted_journals log))
    \<and> (\<forall>r nonce der j. (Join r nonce der, Inr (Admitted j (Inr True))) \<in> set log \<longrightarrow>
        (\<exists>s0. reachable (pc_step ch) s s0 \<and> reachable (pc_step ch) s0 s'
          \<and> j_merkle_root j = pc_root H ch s0
          \<and> (holds_balance H (pc_tree ch s0) (fst (ext r)) j m
             \<or> ledger_break H (pc_tree ch s0) (fst (ext r)))))"
proof (intro conjI allI impI)
  note run = operator_run_roster [OF assms(4)]
  show "r_members roster = j_presenter_pubkey ` set (admitted_journals log)"
    using run_members [OF run] by (auto simp: roster_new_def case_prod_beta)
  show "distinct (map j_nullifier (admitted_journals log))"
    using chat.run_used [OF run] by (simp add: case_prod_beta' comp_def)
  fix r nonce der j
  assume "(Join r nonce der, Inr (Admitted j (Inr True))) \<in> set log"
  from operator_run_admission [OF assms(4) this] obtain s0 roster0 roster1 where
    moment: "reachable (pc_step ch) s s0" "reachable (pc_step ch) s0 s'"
    and served: "reachable (admit_step H E Z ID) (roster_new g m) roster0"
      "admit H E Z ID roster0 r nonce der = (roster1, Inr j)"
    and fresh: "is_root_current H J (C s0) hex endpoint (j_merkle_root j) known = Inr True"
    by auto
  from roster_policy_fixed [OF served(1)] have "r_minimum_stake roster0 = m" by (simp add: roster_new_def)
  with admitted_member_holds_stake [OF assms(1,2) assms(3) [OF moment(1)] served(2) fresh] moment
  show "\<exists>s0. reachable (pc_step ch) s s0 \<and> reachable (pc_step ch) s0 s'
      \<and> j_merkle_root j = pc_root H ch s0
      \<and> (holds_balance H (pc_tree ch s0) (fst (ext r)) j m \<or> ledger_break H (pc_tree ch s0) (fst (ext r)))"
    by auto
qed

text \<open>A sequencer that follows the sample chain: it answers with the path of the first leaf, which is at
  that place in every ledger to come.\<close>

definition sample_proof :: "nat private_state \<Rightarrow> MembershipProof" where
  "sample_proof s = \<lparr>m_leaf_index = 0, m_siblings = authentication_path sample_hash
     (map_mtree (commit sample_hash) (cs_tree (ps_set s))) (turns 0 (cs_depth (ps_set s)))\<rparr>"

definition sample_follower :: "nat private_state \<Rightarrow> jvalue rpc" where
  "sample_follower s = sample_rpc\<lparr>rpc_post := \<lambda>_ rq. Inr \<lparr>ev_jsonrpc = ''2.0'', ev_id = rq_id rq,
     ev_result = Some (encode_proof sample_json (sample_proof s)), ev_error = None\<rparr>\<rparr>"

lemma sample_follower_holds:
  assumes "reachable (pc_step sample_chain) sample_before s"
  shows "sequencer_holds sample_hash sample_json (sample_follower s) [] (pc_tree sample_chain s)
    sample_commitment"
proof -
  have "leaf_at (pc_tree sample_chain s) (turns 0 (cs_depth (pc_set sample_chain s))) = Some sample_account"
    using later_leaf [OF sample_chain_keeps sample_before_reachable assms, where idx = 0]
    by (simp add: sample_before_simps)
  then have "leaf_at (map_mtree (commit sample_hash) (pc_tree sample_chain s))
      (turns 0 (cs_depth (pc_set sample_chain s))) = Some sample_commitment"
    by (simp add: leaf_at_map sample_commitment_def)
  moreover let ?ev = "\<lparr>ev_jsonrpc = ''2.0'', ev_id = rq_id (proof_request sample_json sample_commitment),
    ev_result = Some (encode_proof sample_json (sample_proof s)), ev_error = None\<rparr>"
  have "rpc_post (sample_follower s) [] (proof_request sample_json sample_commitment) = Inr ?ev"
    by (simp add: sample_follower_def)
  moreover have "ev_error ?ev = None" "ev_result ?ev = Some (encode_proof sample_json (sample_proof s))"
    by simp_all
  ultimately show ?thesis
    unfolding sequencer_holds_def sample_proof_def sample_chain_simps by blast
qed

text \<open>The account is spent, then its former holder joins; the root check confirms the admission.\<close>

definition sample_events :: "(nat private_tx, clear_receipt) gate_event list" where
  "sample_events = [Settle sample_spend, Join (sample_receipt (group_context_id sample_hash ''g''))
     sample_nonce (sample_signature (group_context_id sample_hash ''g''))]"

theorem admissions_over_time_witness:
  "let ctx = group_context_id sample_hash ''g''; j = sample_journal ctx; r = sample_receipt ctx in
   \<exists>roster. run_steps (operator_step sample_hash sample_ecdsa (sample_zkvm sample_hash) sample_id
        sample_json sample_follower Inl [] sample_commitment sample_chain)
        (sample_before, roster_new ''g'' 1000) sample_events
      = ((sample_after, roster), [(Settle sample_spend, Inr Settled),
          (Join r sample_nonce (sample_signature ctx), Inr (Admitted j (Inr True)))])
    \<and> r_members roster = {j_presenter_pubkey j}
    \<and> (\<exists>s0. reachable (pc_step sample_chain) sample_before s0
        \<and> (holds_balance sample_hash (pc_tree sample_chain s0) (fst r) j 1000
           \<or> ledger_break sample_hash (pc_tree sample_chain s0) (fst r)))"
proof -
  let ?ctx = "group_context_id sample_hash ''g''"
  have after: "reachable (pc_step sample_chain) sample_before sample_after"
    using sample_spend_accepted by (rule reach_one)
  have "is_root_current sample_hash sample_json (sample_follower sample_after) Inl [] (j_merkle_root
      (sample_journal ?ctx)) sample_commitment = Inr True"
    using is_root_current_honest [OF sample_json_ok sample_follower_holds [OF after]]
    by (simp add: sample_after_simps)
  moreover obtain roster where "admit sample_hash sample_ecdsa (sample_zkvm sample_hash) sample_id
      (roster_new ''g'' 1000) (sample_receipt ?ctx) sample_nonce (sample_signature ?ctx)
    = (roster, Inr (sample_journal ?ctx))"
    by (simp add: admit_def roster_new_def sample_credential btree_insert_def)
  ultimately have run: "run_steps (operator_step sample_hash sample_ecdsa (sample_zkvm sample_hash) sample_id
        sample_json sample_follower Inl [] sample_commitment sample_chain)
        (sample_before, roster_new ''g'' 1000) sample_events
      = ((sample_after, roster), [(Settle sample_spend, Inr Settled), (Join (sample_receipt ?ctx)
          sample_nonce (sample_signature ?ctx), Inr (Admitted (sample_journal ?ctx) (Inr True)))])"
    using sample_spend_accepted by (simp add: sample_events_def operator_step_def)
  show ?thesis
    unfolding Let_def
    using run admissions_over_time [OF sample_risc0_sound sample_json_ok sample_follower_holds run]
    by (intro exI [of _ roster]) fastforce
qed

end
