(* ===== verification/GateProperties.thy ===== *)
theory GateProperties
  imports Samples
begin

text \<open>
  Properties of the derivations, the Merkle fold, the two guests, and of the gates against each
  other: which values a digest pins down, the order of refusals, agreement of the copies of one
  check, replay, and what the gates that see no proof do and do not establish.
\<close>

section \<open>Guests\<close>

text \<open>Claim C16: the standalone guest and the LEZ-native program decide the same statements. On a
  journal's statement the LEZ program panics exactly as the guest does, and otherwise, unless the
  nullifier is all zero, succeeds and passes every account through unchanged.\<close>

theorem guests_agree:
  "lez_main H \<lparr>pi_self_program_id = self, pi_caller_program_id = caller, pi_pre_states = pres,
      pi_instruction = \<lparr>i_witness = w, i_statement = statement_of j\<rparr>\<rparr> ws =
    (case guest_main H w j of
       Inl p \<Rightarrow> Inl (AttestPanic p)
     | Inr j' \<Rightarrow> if j_nullifier j' = arr_rep 0 then Inl ZeroNullifier
         else Inr \<lparr>po_self_program_id = self, po_caller_program_id = caller,
                po_instruction_words = ws, po_pre_states = pres,
                po_post_states = map am_account pres\<rparr>)"
  by (auto simp: lez_main_def guest_main_is_attest split: sum.splits)

section \<open>The Merkle fold\<close>

text \<open>Claim C15: a path of any length that folds to a tree's root opens the leaf its index
  and length name, unless a message hashed along the path collides with one hashed in the tree or
  hashes to an empty subtree's digest; a leaf can never stand in for an inner node.\<close>

theorem folding_path_opens_leaf:
  assumes "fold_merkle_path H (leaf_hash_of H c) idx sibs = mroot H t"
  shows "leaf_at t (turns idx (length sibs)) = Some c
      \<or> hash_break H (path_messages H c idx sibs) (tree_messages H t) (empties t)"
  using assms by (rule fold_sound)

theorem folding_path_opens_leaf_witness:
  "leaf_at (Leaf (arr_rep 7 :: b32)) (turns 5 (length ([] :: b32 list))) = Some (arr_rep 7)
    \<or> hash_break sample_hash (path_messages sample_hash (arr_rep 7) 5 [])
        (tree_messages sample_hash (Leaf (arr_rep 7))) (empties (Leaf (arr_rep 7 :: b32)))"
  by (rule folding_path_opens_leaf) simp

text \<open>Claim C39: a position of a tree yields one nullifier per key and context, and one balance. Two
  accepted attestations over one root, made from whatever witnesses for the leaf one index and path
  length name, publish the same nullifier when they are for the same key and context and read the
  same balance, unless two named messages of the witnesses collide; no ledger is assumed.\<close>

theorem position_has_one_nullifier:
  assumes "attest H w s = Inr n" and "attest H w' s' = Inr n'" and "s_merkle_root s = s_merkle_root s'"
    and "turns (w_leaf_index w) (length (w_merkle_path w)) = turns (w_leaf_index w') (length (w_merkle_path w'))"
    and "s_presenter_pubkey s = s_presenter_pubkey s'" and "s_context_id s = s_context_id s'"
  shows "(n = n' \<and> w_balance w = w_balance w' \<and> s_threshold s \<le> w_balance w' \<and> s_threshold s' \<le> w_balance w)
    \<or> collision_between H (witness_messages H w) (witness_messages H w')"
proof -
  have "witness_root H w = witness_root H w'" using assms(1-3) by (simp add: attest_Inr)
  from same_position_same_account [OF assms(4) this] show ?thesis
    using assms(1,2,5,6) by (auto simp: attest_Inr witness_preimage_def)
qed

text \<open>The honest witness at leaf index 0, and the same path presented with index 2 and a lower threshold.\<close>

theorem position_has_one_nullifier_witness:
  "let w = request_inputs (sample_request (arr_rep 4)); w' = w\<lparr>w_leaf_index := 2\<rparr>;
     s = statement_of (sample_journal (arr_rep 4)); s' = s\<lparr>s_threshold := 500000\<rparr>
   in \<exists>n n'. attest sample_hash w s = Inr n \<and> attest sample_hash w' s' = Inr n'
     \<and> ((n = n' \<and> w_balance w = w_balance w' \<and> s_threshold s \<le> w_balance w' \<and> s_threshold s' \<le> w_balance w)
       \<or> collision_between sample_hash (witness_messages sample_hash w) (witness_messages sample_hash w'))"
proof -
  let ?w = "request_inputs (sample_request (arr_rep 4))" and ?s = "statement_of (sample_journal (arr_rep 4))"
  let ?w' = "?w\<lparr>w_leaf_index := 2\<rparr>" and ?s' = "?s\<lparr>s_threshold := 500000\<rparr>"
  have path: "length (w_merkle_path ?w) = 1" "w_leaf_index ?w = 0" "q_balance (sample_request (arr_rep 4)) = 2000000"
    by (simp_all add: sample_request_def holder_request_def request_inputs_def sample_ledger_def turns_def)
  obtain n where n: "attest sample_hash ?w ?s = Inr n"
    using sample_guest [of "arr_rep 4"] by (auto simp: guest_main_is_attest split: sum.splits)
  have "witness_root sample_hash ?w' = witness_root sample_hash ?w"
    unfolding witness_root_def
    by (simp add: witness_commitment_def witness_account_id_def path)
      (rule fold_merkle_path_cong_bits, use path in simp)
  then obtain n' where n': "attest sample_hash ?w' ?s' = Inr n'"
    using n by (auto simp: attest_Inr path)
  have "turns (w_leaf_index ?w) (length (w_merkle_path ?w)) = turns (w_leaf_index ?w') (length (w_merkle_path ?w'))"
    by (simp add: path turns_def)
  from n n' position_has_one_nullifier [OF n n' _ this] show ?thesis
    unfolding Let_def by (intro exI conjI) simp_all
qed

text \<open>Only the low bits of the leaf index matter, as many as the path has siblings; the index is not
  bound beyond them.\<close>

lemma fold_reads_low_bits:
  "fold_merkle_path H leaf idx sibs = fold_merkle_path H leaf (take_bit (length sibs) idx) sibs"
  by (rule fold_merkle_path_cong_bits) (simp add: bit_simps)

section \<open>What a digest pins down\<close>

text \<open>A commitment determines the account: id, owner, balance, nonce and data hash, up to a
  collision of the two commitment messages.\<close>

lemma commitment_binding:
  assumes "commit H a = commit H b"
  shows "a = b \<or> collision H (account_preimage a) (account_preimage b)"
proof -
  from assms have "H (account_preimage a) = H (account_preimage b)" by (simp add: commit_eq_hash)
  from hash_eqD [of H, OF this] show ?thesis
    by (auto simp: account_preimage_def intro: shielded_account.equality)
qed

text \<open>A nullifier determines presenter key, context and account. So one account presented
  under one key in one context always has the same nullifier, while a second key or another context
  gives another one: nullifiers neither link presentations across gates nor stop an account with two
  keys.\<close>

lemma nullifier_binding:
  "compute_nullifier H pk c acc = compute_nullifier H pk' c' acc' \<longleftrightarrow>
     (pk = pk' \<and> c = c' \<and> acc = acc')
     \<or> collision H (nullifier_bytes pk c acc) (nullifier_bytes pk' c' acc')"
  by (auto simp: compute_nullifier_def collision_def)

text \<open>The four derivations are domain separated: an account id, a commitment, a nullifier and
  a gate tag are pairwise different digests unless two messages that name their purpose collide.\<close>

lemma derivations_separated:
  "(derive_account_id H npk i = compute_commitment H a po b n d \<longleftrightarrow>
      collision H (account_id_bytes npk i) (commitment_bytes a po b n d))
   \<and> (derive_account_id H npk i = compute_nullifier H pk c acc \<longleftrightarrow>
      collision H (account_id_bytes npk i) (nullifier_bytes pk c acc))
   \<and> (derive_account_id H npk i = compute_gate_tag H nf m ctx \<longleftrightarrow>
      collision H (account_id_bytes npk i) (gate_tag_bytes nf m ctx))
   \<and> (compute_commitment H a po b n d = compute_nullifier H pk c acc \<longleftrightarrow>
      collision H (commitment_bytes a po b n d) (nullifier_bytes pk c acc))
   \<and> (compute_commitment H a po b n d = compute_gate_tag H nf m ctx \<longleftrightarrow>
      collision H (commitment_bytes a po b n d) (gate_tag_bytes nf m ctx))
   \<and> (compute_nullifier H pk c acc = compute_gate_tag H nf m ctx \<longleftrightarrow>
      collision H (nullifier_bytes pk c acc) (gate_tag_bytes nf m ctx))"
  by (simp add: derive_account_id_def compute_commitment_def compute_nullifier_def
      compute_gate_tag_def collision_def)

section \<open>The off-chain verifier and its relatives\<close>

text \<open>The verifier's refusals come in a fixed order: a receipt or journal that does not
  verify, then a foreign context, then a threshold below the floor, then the presenter's key,
  signature encoding and signature. A verdict other than these is impossible.\<close>

lemma credential_refusal_order:
  "verify_credential H E Z ID r nonce der ctx floor =
    (case verify_receipt Z ID r of
       Inl e \<Rightarrow> Inl e
     | Inr j \<Rightarrow>
         if j_context_id j \<noteq> ctx then Inl VerifyError.ContextMismatch
         else if j_threshold j < floor then Inl VerifyError.ThresholdTooLow
         else if from_sec1_bytes E (elems (j_presenter_pubkey j)) = None
         then Inl VerifyError.InvalidPubkey
         else if from_der E der = None then Inl VerifyError.InvalidSignature
         else if presenter_signed H E j nonce der then Inr j
         else Inl VerifyError.SignatureRejected)"
  by (auto simp: verify_credential_def verify_presenter_signature_def presenter_signed_def
      signature_valid_def Let_def split: sum.splits option.splits)

text \<open>Claim C19: on a receipt that verifies, the off-chain verifier and the on-chain kernel reach the
  same verdict, error for error.\<close>

theorem offchain_agrees_with_kernel:
  assumes "verify_receipt Z ID r = Inr j"
  shows "verify_credential H E Z ID r nonce der ctx floor =
    (case check_gate H E \<lparr>g_attested = j, g_expected_context_id = ctx, g_minimum_threshold = floor,
        g_challenge_nonce = nonce, g_presenter_signature_der = der\<rparr> of
       Inl e \<Rightarrow> Inl (the (gate_error e)) | Inr _ \<Rightarrow> Inr j)"
  using assms refl by (rule credential_agrees_with_kernel)

theorem offchain_agrees_with_kernel_witness:
  "verify_credential sample_hash sample_ecdsa (sample_zkvm sample_hash) sample_id
      (sample_receipt (arr_rep 4)) sample_nonce [] (arr_rep 4) 900000 =
    (case check_gate sample_hash sample_ecdsa \<lparr>g_attested = sample_journal (arr_rep 4),
        g_expected_context_id = arr_rep 4, g_minimum_threshold = 900000,
        g_challenge_nonce = sample_nonce, g_presenter_signature_der = []\<rparr> of
       Inl e \<Rightarrow> Inl (the (gate_error e)) | Inr _ \<Rightarrow> Inr (sample_journal (arr_rep 4)))"
  by (rule offchain_agrees_with_kernel [OF sample_verify_receipt])

text \<open>Claim C20: one signature made by the SDK passes unmodified in the off-chain verifier, the kernel,
  the shallow guest and the deep guest, whose four copies of the challenge digest agree.\<close>

theorem sdk_signature_accepted_everywhere:
  assumes "signer_ok E S" and "presenter_public S sk = Some (j_presenter_pubkey j)"
    and "der = presenter_sign H S sk nonce j"
  shows "verify_presenter_signature H E j nonce der = Inr ()
    \<and> verify_presenter H E j nonce der = Inr ()
    \<and> shallow_verify_signature E (shallow_challenge_digest H nonce (j_merkle_root j) (j_threshold j)
        (j_context_id j) (j_presenter_pubkey j) (j_nullifier j)) (j_presenter_pubkey j) der = Inr ()
    \<and> deep_verify_signature E (deep_challenge_digest H nonce (j_merkle_root j) (j_threshold j)
        (j_context_id j) (j_presenter_pubkey j) (j_nullifier j)) (j_presenter_pubkey j) der = Inr ()"
  using presenter_signed_sign [OF assms(1,2), of H nonce]
  by (simp add: assms(3) verify_presenter_signature_Inr verify_presenter_Inr deep_digest_bytes
      shallow_digest_bytes deep_verify_signature_shallow shallow_verify_signature_Inr
      presenter_signed_def challenge_digest_bytes journal_challenge_def)

theorem sdk_signature_accepted_everywhere_witness:
  "let j = sample_journal (arr_rep 4); der = presenter_sign sample_hash sample_signer sample_pk sample_nonce j
   in verify_presenter_signature sample_hash sample_ecdsa j sample_nonce der = Inr ()
    \<and> verify_presenter sample_hash sample_ecdsa j sample_nonce der = Inr ()"
  using sdk_signature_accepted_everywhere [OF sample_signer_ok _ refl, of sample_pk
      "sample_journal (arr_rep 4)" sample_hash sample_nonce]
  by (simp add: Let_def sample_presenter_public)

text \<open>Claim C27: the v2 guest checks the presenter's signature over another digest than the one the SDK
  signs: it accepts exactly on its own challenge, and the two challenges have one digest only if a
  64-byte and a 210-byte message collide.\<close>

theorem v2_checks_another_digest:
  "(is_ok (v2_gated_check H E p (journal_args j nonce der ctx floor)) \<longleftrightarrow>
      j_context_id j = ctx \<and> floor \<le> j_threshold j
      \<and> signature_valid E (j_presenter_pubkey j) (elems (H (v2_challenge H nonce j))) der)
   \<and> (H (v2_challenge H nonce j) = presenter_challenge_digest H nonce' j' \<longleftrightarrow>
      collision H (v2_challenge H nonce j) (journal_challenge nonce' j'))"
  using v2_digest_differs [of H nonce j nonce' j']
  by (auto simp: is_ok_iff v2_gated_check_Inr v2_signed_def challenge_digest_bytes collision_def)

section \<open>Replay\<close>

text \<open>No replay across contexts: evidence the off-chain verifier accepts under two policies
  was judged for the same context, and it is accepted there for exactly the floors up to its
  attested threshold.\<close>

lemma credential_one_context:
  assumes "verify_credential H E Z ID r nonce der ctx floor = Inr j"
  shows "is_ok (verify_credential H E Z ID r nonce der ctx' floor') \<longleftrightarrow>
    ctx' = ctx \<and> floor' \<le> j_threshold j"
  using assms by (auto simp: is_ok_iff verify_credential_Inr)

text \<open>The same call of the deep gate is never accepted for two contexts, nor above its
  threshold: what a caller puts into \<open>expected_context_id\<close> and \<open>minimum_threshold\<close> is checked against
  the signed journal.\<close>

lemma deep_gate_one_context:
  assumes "is_ok (deep_gated_check H E fs marker p (a\<lparr>a_expected_context_id := ctx,
      a_minimum_threshold := floor\<rparr>))"
    and "is_ok (deep_gated_check H E fs marker p (a\<lparr>a_expected_context_id := ctx',
      a_minimum_threshold := floor'\<rparr>))"
  shows "ctx = ctx' \<and> (\<exists>j. args_journal a = Some j \<and> j_context_id j = ctx \<and> floor \<le> j_threshold j
    \<and> floor' \<le> j_threshold j)"
  using deep.no_cross_context_replay [OF assms] deep.accepted [OF assms(1)]
    deep.accepted [OF assms(2)] by (metis option.inject)

end
