(* ===== verification/NostrGate.thy ===== *)
theory NostrGate
  imports OffchainVerifier
begin

text \<open>
  \<^verbatim>\<open>integrations/nostr-auth-gate/src/lib.rs\<close>: a relay's check of an LP-0005 tag. The tag is text;
  the decoders (\<^verbatim>\<open>base64\<close>, \<^verbatim>\<open>bincode\<close>, \<^verbatim>\<open>hex\<close> crates, each with its error rendered as a string)
  are parameters. The nonce is read from the tag itself.
\<close>

datatype NostrGateError = MissingTag | BadBase64 string | DecodeReceipt string
  | Verify VerifyError | BadHex string

record Lp0005AuthTag =
  credential_b64 :: string
  nonce_hex :: string
  signature_hex :: string

record 'r codecs =
  base64_decode :: "string \<Rightarrow> string + bytes"
  bincode_decode :: "bytes \<Rightarrow> string + ('r \<times> nat)"
  hex_decode :: "string \<Rightarrow> string + bytes"

definition relay_context_bytes :: "string \<Rightarrow> bytes" where
  "relay_context_bytes relay_id = bytes_of ''nostr-auth-gate/v1/'' @ bytes_of relay_id"

definition context_id_for_relay :: "sha \<Rightarrow> string \<Rightarrow> b32" where
  "context_id_for_relay H relay_id = H (relay_context_bytes relay_id)"

definition verify_nip42_with_lp0005 :: "sha \<Rightarrow> ('vk, 'sg) ecdsa \<Rightarrow> 'r zkvm \<Rightarrow> program_id
    \<Rightarrow> 'r codecs \<Rightarrow> Lp0005AuthTag \<Rightarrow> string \<Rightarrow> u128 \<Rightarrow> NostrGateError + PublicJournal" where
  "verify_nip42_with_lp0005 H E Z ATTESTATION_ID D tag relay_context minimum_threshold =
     rbind (map_err BadBase64 (base64_decode D (credential_b64 tag))) (\<lambda>receipt_bytes.
     rbind (map_err DecodeReceipt (bincode_decode D receipt_bytes)) (\<lambda>(receipt, _).
     rbind (map_err BadHex (hex_decode D (nonce_hex tag))) (\<lambda>raw_nonce.
     rbind (ok_or (BadHex ''nonce must be exactly 32 bytes'') (try_into raw_nonce)) (\<lambda>nonce_bytes.
     rbind (map_err BadHex (hex_decode D (signature_hex tag))) (\<lambda>signature_bytes.
     let context_id = context_id_for_relay H relay_context
     in map_err Verify (verify_credential H E Z ATTESTATION_ID receipt nonce_bytes signature_bytes
          context_id minimum_threshold))))))"

lemma relay_context_bytes_inject [simp]:
  "relay_context_bytes a = relay_context_bytes b \<longleftrightarrow> a = b"
  by (simp add: relay_context_bytes_def)

text \<open>What a tag decodes to.\<close>

definition decoded_tag :: "'r codecs \<Rightarrow> Lp0005AuthTag \<Rightarrow> ('r \<times> b32 \<times> bytes) option" where
  "decoded_tag D tag =
     (case base64_decode D (credential_b64 tag) of Inl _ \<Rightarrow> None | Inr bs \<Rightarrow>
      (case bincode_decode D bs of Inl _ \<Rightarrow> None | Inr (r, _) \<Rightarrow>
       (case hex_decode D (nonce_hex tag) of Inl _ \<Rightarrow> None | Inr nb \<Rightarrow>
        (case try_into nb of None \<Rightarrow> None | Some nonce \<Rightarrow>
         (case hex_decode D (signature_hex tag) of Inl _ \<Rightarrow> None | Inr der \<Rightarrow> Some (r, nonce, der))))))"

lemma verify_nip42_Inr:
  "verify_nip42_with_lp0005 H E Z ID D tag relay m = Inr j \<longleftrightarrow>
     (\<exists>r nonce der. decoded_tag D tag = Some (r, nonce, der)
        \<and> verify_credential H E Z ID r nonce der (context_id_for_relay H relay) m = Inr j)"
  by (auto simp: verify_nip42_with_lp0005_def decoded_tag_def rbind_Inr map_err_Inr ok_or_Inr
      Let_def split: sum.splits prod.splits option.splits)

interpretation nostr: complete_gate
  "\<lambda>ctx m (tag, D). case decoded_tag D tag of None \<Rightarrow> Inl None
     | Some (r, nonce, der) \<Rightarrow> map_err Some (verify_credential H E Z ID r nonce der ctx m)"
  "\<lambda>(tag, D). case decoded_tag D tag of None \<Rightarrow> None
     | Some (r, nonce, der) \<Rightarrow> (case verify_receipt Z ID r of Inl _ \<Rightarrow> None | Inr j \<Rightarrow> Some j)"
  "\<lambda>(tag, D). case decoded_tag D tag of None \<Rightarrow> False
     | Some (r, nonce, der) \<Rightarrow> (case verify_receipt Z ID r of Inl _ \<Rightarrow> False
         | Inr j \<Rightarrow> presenter_signed H E j nonce der)"
  for H :: sha and E :: "('vk, 'sg) ecdsa" and Z :: "'r zkvm" and ID :: program_id
  by unfold_locales
    (auto simp: map_err_Inr verify_credential_Inr is_ok_iff split: option.splits sum.splits prod.splits)

lemma nostr_runs_gate:
  "is_ok (verify_nip42_with_lp0005 H E Z ID D tag relay m) \<longleftrightarrow>
   is_ok (case decoded_tag D tag of None \<Rightarrow> Inl None
     | Some (r, nonce, der) \<Rightarrow>
         map_err Some (verify_credential H E Z ID r nonce der (context_id_for_relay H relay) m))"
  by (auto simp: is_ok_iff verify_nip42_Inr map_err_Inr split: option.splits)

lemma one_tag_one_relay:
  assumes "verify_nip42_with_lp0005 H E Z ID D tag relay m = Inr j"
    and "verify_nip42_with_lp0005 H E Z ID D tag relay' m' = Inr j'"
  shows "relay = relay'
    \<or> collision H (relay_context_bytes relay) (relay_context_bytes relay')"
proof -
  have "is_ok (verify_nip42_with_lp0005 H E Z ID D tag relay m)"
    "is_ok (verify_nip42_with_lp0005 H E Z ID D tag relay' m')"
    using assms by simp_all
  then have "context_id_for_relay H relay = context_id_for_relay H relay'"
    unfolding nostr_runs_gate
    using nostr.no_cross_context_replay [where ev = "(tag, D)"] by fastforce
  from hash_eqD [of H, OF this [unfolded context_id_for_relay_def]] show ?thesis by simp
qed

lemma verify_nip42_journal:
  assumes "verify_nip42_with_lp0005 H E Z ID D tag relay m = Inr j"
  obtains r nonce der where "decoded_tag D tag = Some (r, nonce, der)" "verify_receipt Z ID r = Inr j"
    "j_context_id j = context_id_for_relay H relay" "m \<le> j_threshold j"
    "presenter_signed H E j nonce der"
  using assms by (auto simp: verify_nip42_Inr verify_credential_Inr intro: that)

end
