(* ===== verification/IntegrationProperties.thy ===== *)
theory IntegrationProperties
  imports Samples ChatGate GovernanceGate PremiumFeatures NostrGate
begin

text \<open>
  Properties of the four integrations over arbitrary sequences of requests: what a roster, a tally
  or a session map says about the credentials that were presented, that a nullifier is consumed
  once, and what the integrations do not prevent.
\<close>

section \<open>Chat admission\<close>

text \<open>Claim C21: over any sequence of admission requests to a fresh roster, the admitted nullifiers are
  pairwise different and are exactly the recorded ones, the members are exactly the admitted
  presenter keys, and group and stake never change.\<close>

theorem chat_admissions_once:
  assumes "run_steps (admit_step H E Z ID) (roster_new g stake) reqs = (s, log)"
  shows "distinct (map (\<lambda>(_, j). j_nullifier j) (successes log))
    \<and> r_used_nullifiers s = (\<lambda>(_, j). j_nullifier j) ` set (successes log)
    \<and> r_members s = (\<lambda>(_, j). j_presenter_pubkey j) ` set (successes log)
    \<and> r_group_id s = g \<and> r_minimum_stake s = stake"
  using chat.run_used [OF assms] run_members [OF assms]
    roster_policy_fixed [OF run_steps_reachable [OF reach_init assms]]
  by (auto simp: roster_new_def)

theorem chat_admissions_once_witness:
  "let ctx = group_context_id sample_hash ''g''; req = (sample_receipt ctx, sample_nonce, sample_signature ctx);
     (s, log) = run_steps (admit_step sample_hash sample_ecdsa (sample_zkvm sample_hash) sample_id)
       (roster_new ''g'' 1000) [req, req]
   in distinct (map (\<lambda>(_, j). j_nullifier j) (successes log))
    \<and> r_used_nullifiers s = (\<lambda>(_, j). j_nullifier j) ` set (successes log)
    \<and> r_members s = (\<lambda>(_, j). j_presenter_pubkey j) ` set (successes log)
    \<and> r_group_id s = ''g'' \<and> r_minimum_stake s = 1000"
  unfolding Let_def case_prod_beta
  by (rule chat_admissions_once [OF prod.collapse [symmetric], unfolded case_prod_beta])

text \<open>Claim C22: in every reachable roster each member is backed by a credential that verified for this
  group's context at its stake or above, signed by the member's key, whose nullifier is recorded;
  and there are never more members than recorded nullifiers.\<close>

theorem chat_members_backed:
  assumes "reachable (admit_step H E Z ID) (roster_new g stake) s"
  shows "(\<forall>pk \<in> r_members s. \<exists>r nonce der j.
        verify_credential H E Z ID r nonce der (group_context_id H g) stake = Inr j
        \<and> j_presenter_pubkey j = pk \<and> j_nullifier j \<in> r_used_nullifiers s)
    \<and> card (r_members s) \<le> card (r_used_nullifiers s)"
  using roster_inv_reachable [OF assms]
  unfolding roster_inv_def member_backed_def credential_for_group_iff by auto

theorem chat_members_backed_witness:
  "let ctx = group_context_id sample_hash ''g'';
     s = fst (admit sample_hash sample_ecdsa (sample_zkvm sample_hash) sample_id (roster_new ''g'' 1000)
        (sample_receipt ctx) sample_nonce (sample_signature ctx))
   in (\<forall>pk \<in> r_members s. \<exists>r nonce der j.
        verify_credential sample_hash sample_ecdsa (sample_zkvm sample_hash) sample_id r nonce der
          (group_context_id sample_hash ''g'') 1000 = Inr j
        \<and> j_presenter_pubkey j = pk \<and> j_nullifier j \<in> r_used_nullifiers s)
    \<and> card (r_members s) \<le> card (r_used_nullifiers s)"
proof -
  let ?ctx = "group_context_id sample_hash ''g''"
  let ?step = "admit_step sample_hash sample_ecdsa (sample_zkvm sample_hash) sample_id"
  have "reachable ?step (roster_new ''g'' 1000) (fst (?step (roster_new ''g'' 1000)
      (sample_receipt ?ctx, sample_nonce, sample_signature ?ctx)))"
    by (rule reach_step [OF reach_init prod.collapse [symmetric]])
  then show ?thesis
    unfolding Let_def case_prod_conv by (rule chat_members_backed)
qed

text \<open>Claim C23: one account joins a group once per presenter key. After an admission, every later
  request whose receipt was proved from the same account under the same key is refused and leaves
  the roster as it is, however fresh its receipt, nonce and signature.\<close>

theorem chat_one_join_per_account_and_key:
  assumes "risc0_sound Z ID H ext"
    and "admit H E Z ID s r nonce der = (s1, Inr j)"
    and "reachable (admit_step H E Z ID) s1 s2"
    and "verify_receipt Z ID r' = Inr j'" and "j_presenter_pubkey j' = j_presenter_pubkey j"
    and "witness_account_id H (fst (ext r')) = witness_account_id H (fst (ext r))"
  shows "\<exists>e. admit H E Z ID s2 r' nonce' der' = (s2, Inl e)"
proof (cases "admit H E Z ID s2 r' nonce' der'")
  case (Pair s3 res)
  show ?thesis
  proof (cases res)
    case (Inl e)
    with Pair have "s3 = s2" by (simp add: admit_Inl)
    with Pair Inl show ?thesis by simp
  next
    case (Inr k)
    with Pair assms(4) have k: "k = j'" "j_context_id j' = group_context_id H (r_group_id s2)"
      by (auto simp: admit_Inr credential_for_group_def)
    from assms(2) have j: "verify_receipt Z ID r = Inr j" "j_context_id j = group_context_id H (r_group_id s)"
      "r_group_id s1 = r_group_id s"
      by (auto simp: admit_Inr credential_for_group_def)
    have "j_nullifier j' = j_nullifier j"
      using same_account_same_nullifier [OF assms(1) j(1) assms(4)] j k assms(5,6)
        roster_policy_fixed [OF assms(3)] by simp
    moreover have "admit_step H E Z ID s (r, nonce, der) = (s1, Inr j)" using assms(2) by simp
    ultimately have "admit_step H E Z ID s2 (r', nonce', der') \<noteq> (s3, Inr j')"
      using chat.spent_refused_forever [OF _ assms(3)] by blast
    with Pair Inr k show ?thesis by simp
  qed
qed

theorem chat_one_join_per_account_and_key_witness:
  "let ctx = group_context_id sample_hash ''g'';
     s1 = fst (admit sample_hash sample_ecdsa (sample_zkvm sample_hash) sample_id (roster_new ''g'' 1000)
        (sample_receipt ctx) sample_nonce (sample_signature ctx))
   in \<exists>e. admit sample_hash sample_ecdsa (sample_zkvm sample_hash) sample_id s1 (sample_receipt ctx)
        (arr_rep 1) [] = (s1, Inl e)"
proof -
  let ?ctx = "group_context_id sample_hash ''g''"
  have "admit sample_hash sample_ecdsa (sample_zkvm sample_hash) sample_id (roster_new ''g'' 1000)
      (sample_receipt ?ctx) sample_nonce (sample_signature ?ctx)
    = (fst (admit sample_hash sample_ecdsa (sample_zkvm sample_hash) sample_id (roster_new ''g'' 1000)
        (sample_receipt ?ctx) sample_nonce (sample_signature ?ctx)), Inr (sample_journal ?ctx))"
    by (simp add: admit_def roster_new_def sample_credential btree_insert_def)
  from chat_one_join_per_account_and_key [OF sample_risc0_sound this reach_init sample_verify_receipt
      refl refl] show ?thesis by (simp only: Let_def)
qed

text \<open>One credential serves one group: if the same receipt is admitted to two rosters, their
  group ids are equal or their two context messages collide.\<close>

lemma chat_credential_one_group:
  assumes "admit H E Z ID s r nonce der = (s1, Inr j)" and "admit H E Z ID t r nonce' der' = (t1, Inr j')"
  shows "r_group_id s = r_group_id t
    \<or> collision H (group_context_bytes (r_group_id s)) (group_context_bytes (r_group_id t))"
  using hash_eqD [of H, OF admitted_twice_contexts [OF assms, unfolded group_context_id_def]] by simp

section \<open>Votes\<close>

text \<open>Claim C24: the tally is exact and cannot wrap in practice. After fewer than \<open>2 ^ 64\<close> requests to a
  new proposal the two counters are the numbers of accepted yes and no ballots, their sum is the
  number of recorded nullifiers, and the accepted ballots have pairwise different nullifiers.\<close>

theorem votes_tally_exact:
  assumes "run_steps (vote_step H E) proposal_default bs = (s, log)" and "length bs < 2 ^ 64"
  shows "unat (p_yes_votes s) = yes_ballots log \<and> unat (p_no_votes s) = no_ballots log
    \<and> unat (p_yes_votes s) + unat (p_no_votes s) = card (p_used_nullifiers s)
    \<and> distinct (map (\<lambda>(b, _). j_nullifier (fst b)) (successes log))"
proof -
  have "length log = length bs"
    using arg_cong [OF run_steps_length [OF assms(1)], of length] by simp
  with assms(2) length_successes [of log] have "length (successes log) < 2 ^ 64"
    by linarith
  then have less: "yes_ballots log < 2 ^ 64" "no_ballots log < 2 ^ 64"
    using ballots_partition [of log] by linarith+
  from run_votes_counts [OF assms(1)]
  have "unat (p_yes_votes s) = yes_ballots log" "unat (p_no_votes s) = no_ballots log"
    using less by (simp_all add: proposal_default_def unsigned_of_nat take_bit_nat_eq_self)
  moreover have "card (p_used_nullifiers s) = length (successes log)"
    using votes.run_card [OF assms(1)] by (simp add: proposal_default_def)
  moreover have "distinct (map (\<lambda>(b, _). j_nullifier (fst b)) (successes log))"
    using votes.run_used [OF assms(1)] by blast
  ultimately show ?thesis using ballots_partition [of log] by simp
qed

definition sample_ballot :: ballot where
  "sample_ballot = (sample_journal GOVERNANCE_CONTEXT_ID, sample_nonce,
     sample_signature GOVERNANCE_CONTEXT_ID, 1000, True)"

theorem votes_tally_exact_witness:
  "let (s, log) = run_steps (vote_step sample_hash sample_ecdsa) proposal_default
       [sample_ballot, sample_ballot]
   in unat (p_yes_votes s) = yes_ballots log \<and> unat (p_no_votes s) = no_ballots log
    \<and> unat (p_yes_votes s) + unat (p_no_votes s) = card (p_used_nullifiers s)
    \<and> distinct (map (\<lambda>(b, _). j_nullifier (fst b)) (successes log))"
proof -
  obtain s log where run: "run_steps (vote_step sample_hash sample_ecdsa) proposal_default
      [sample_ballot, sample_ballot] = (s, log)"
    by (rule prod.exhaust)
  have "length [sample_ballot, sample_ballot] < 2 ^ 64" by simp
  then show ?thesis
    unfolding run Let_def case_prod_conv by (rule votes_tally_exact [OF run])
qed

text \<open>Claim C26: the gates that take a journal instead of a receipt trust their caller for it. Whoever holds
  any key can make up a journal with any root, threshold and nullifier and sign it: the shallow guest
  and the kernel accept it, and with the governance context and an unused nullifier it is a counted
  vote. No receipt is involved.\<close>

theorem journal_gates_trust_caller:
  assumes "signer_ok E S" and "presenter_public S sk = Some (j_presenter_pubkey j)"
    and "floor \<le> j_threshold j"
  shows "shallow_gated_check H E p
      (journal_args j nonce (presenter_sign H S sk nonce j) (j_context_id j) floor)
      = Inr \<lparr>so_accounts = [am_account p], so_chained = []\<rparr>
    \<and> check_gate H E \<lparr>g_attested = j, g_expected_context_id = j_context_id j,
        g_minimum_threshold = floor, g_challenge_nonce = nonce,
        g_presenter_signature_der = presenter_sign H S sk nonce j\<rparr> = Inr ()
    \<and> (j_context_id j = GOVERNANCE_CONTEXT_ID \<longrightarrow> j_nullifier j \<notin> p_used_nullifiers s \<longrightarrow>
        cast_vote H E s j nonce (presenter_sign H S sk nonce j) floor True
        = (\<lparr>p_yes_votes = p_yes_votes s + 1, p_no_votes = p_no_votes s,
            p_used_nullifiers = insert (j_nullifier j) (p_used_nullifiers s)\<rparr>, Inr ()))"
  using presenter_signed_sign [OF assms(1,2), of H nonce] assms(3)
  by (simp add: shallow_gated_check_Inr check_gate_Inr cast_vote_Inr vote_allowed_def)

theorem journal_gates_trust_caller_witness:
  "let j = \<lparr>j_merkle_root = arr_rep 0, j_threshold = 123, j_context_id = GOVERNANCE_CONTEXT_ID,
       j_presenter_pubkey = sample_pk, j_nullifier = arr_rep 77\<rparr>;
     der = presenter_sign sample_hash sample_signer sample_pk sample_nonce j
   in shallow_gated_check sample_hash sample_ecdsa sample_presenter
       (journal_args j sample_nonce der GOVERNANCE_CONTEXT_ID 100)
       = Inr \<lparr>so_accounts = [am_account sample_presenter], so_chained = []\<rparr>
    \<and> cast_vote sample_hash sample_ecdsa proposal_default j sample_nonce der 100 True
      = (\<lparr>p_yes_votes = 1, p_no_votes = 0, p_used_nullifiers = {arr_rep 77}\<rparr>, Inr ())"
  using journal_gates_trust_caller [OF sample_signer_ok, of sample_pk
      "\<lparr>j_merkle_root = arr_rep 0, j_threshold = 123, j_context_id = GOVERNANCE_CONTEXT_ID,
        j_presenter_pubkey = sample_pk, j_nullifier = arr_rep 77\<rparr>" 100 sample_hash sample_presenter
      sample_nonce proposal_default]
  by (simp add: Let_def sample_presenter_public proposal_default_def)

text \<open>Claim C25: one account can vote twice. Two allowed ballots that attest the same account under two
  presenter keys have different nullifiers, so both are counted, unless the nullifiers collide; and at
  the deep gate the two nullifiers have two markers for every policy, unless those collide.\<close>

theorem two_keys_two_votes:
  assumes "vote_allowed H E j nonce der stake" and "vote_allowed H E k nonce' der' stake"
    and "j_presenter_pubkey j \<noteq> j_presenter_pubkey k"
    and "j_nullifier j = compute_nullifier H (j_presenter_pubkey j) (j_context_id j) acc"
    and "j_nullifier k = compute_nullifier H (j_presenter_pubkey k) (j_context_id k) acc"
  shows "(\<exists>s. run_steps (vote_step H E) proposal_default
          [(j, nonce, der, stake, True), (k, nonce', der', stake, True)]
        = (s, [((j, nonce, der, stake, True), Inr ()), ((k, nonce', der', stake, True), Inr ())])
        \<and> p_yes_votes s = 2)
      \<and> (compute_gate_tag H (j_nullifier j) m c \<noteq> compute_gate_tag H (j_nullifier k) m c
          \<or> collision H (gate_tag_bytes (j_nullifier j) m c) (gate_tag_bytes (j_nullifier k) m c))
    \<or> collision H (nullifier_bytes (j_presenter_pubkey j) (j_context_id j) acc)
        (nullifier_bytes (j_presenter_pubkey k) (j_context_id k) acc)"
proof (cases "j_nullifier j = j_nullifier k")
  case True
  with assms(3-5) show ?thesis by (simp add: compute_nullifier_def collision_def)
next
  case False
  let ?s1 = "\<lparr>p_yes_votes = 1, p_no_votes = 0, p_used_nullifiers = {j_nullifier j}\<rparr>"
  let ?s2 = "\<lparr>p_yes_votes = 2, p_no_votes = 0, p_used_nullifiers = {j_nullifier k, j_nullifier j}\<rparr>"
  have "cast_vote H E proposal_default j nonce der stake True = (?s1, Inr ())"
    unfolding cast_vote_Inr using assms(1) by (simp add: proposal_default_def)
  moreover have "cast_vote H E ?s1 k nonce' der' stake True = (?s2, Inr ())"
    unfolding cast_vote_Inr using assms(2) False by simp
  moreover have "compute_gate_tag H (j_nullifier j) m c \<noteq> compute_gate_tag H (j_nullifier k) m c
      \<or> collision H (gate_tag_bytes (j_nullifier j) m c) (gate_tag_bytes (j_nullifier k) m c)"
    using False by (simp add: compute_gate_tag_def collision_def)
  ultimately show ?thesis by simp
qed

text \<open>A second key for the example.\<close>

definition sample_journal_of :: "b33 \<Rightarrow> PublicJournal" where
  "sample_journal_of pk = journal_stub sample_hash (holder_request sample_hash sample_ledger
     (arr_rep 3) 42 sample_account 0 1 1000000 GOVERNANCE_CONTEXT_ID pk)"

lemma sample_vote_allowed:
  "vote_allowed sample_hash sample_ecdsa (sample_journal_of pk) sample_nonce
     (presenter_sign sample_hash sample_signer pk sample_nonce (sample_journal_of pk)) 1000"
  using presenter_signed_sign [OF sample_signer_ok, of pk "sample_journal_of pk"]
  by (simp add: vote_allowed_def sample_journal_of_def sample_presenter_public)

theorem two_keys_two_votes_witness:
  "let pk = arr_rep 2; pk' = arr_rep 3; acc = witness_account_id sample_hash sample_witness;
     b = (sample_journal_of pk, sample_nonce,
       presenter_sign sample_hash sample_signer pk sample_nonce (sample_journal_of pk), 1000, True);
     b' = (sample_journal_of pk', sample_nonce,
       presenter_sign sample_hash sample_signer pk' sample_nonce (sample_journal_of pk'), 1000, True)
   in (\<exists>s. run_steps (vote_step sample_hash sample_ecdsa) proposal_default [b, b']
          = (s, [(b, Inr ()), (b', Inr ())]) \<and> p_yes_votes s = 2)
      \<and> (compute_gate_tag sample_hash (j_nullifier (sample_journal_of pk)) 1000 (arr_rep 4)
            \<noteq> compute_gate_tag sample_hash (j_nullifier (sample_journal_of pk')) 1000 (arr_rep 4)
          \<or> collision sample_hash (gate_tag_bytes (j_nullifier (sample_journal_of pk)) 1000 (arr_rep 4))
            (gate_tag_bytes (j_nullifier (sample_journal_of pk')) 1000 (arr_rep 4)))
    \<or> collision sample_hash (nullifier_bytes (j_presenter_pubkey (sample_journal_of pk))
          (j_context_id (sample_journal_of pk)) acc)
        (nullifier_bytes (j_presenter_pubkey (sample_journal_of pk'))
          (j_context_id (sample_journal_of pk')) acc)"
  unfolding Let_def
  by (rule two_keys_two_votes [OF sample_vote_allowed sample_vote_allowed])
    (simp_all add: sample_journal_of_def sample_witness_def)

section \<open>Feature tiers\<close>

text \<open>Claim C28: in every reachable service, a session of a tier is backed by a credential that verified
  for that tier's own context with at least that tier's minimum balance as its threshold, and whose
  nullifier is the session's key; no session outlives or changes its tier.\<close>

theorem tier_sessions_backed:
  assumes "reachable (activate_step H E Z ID) feature_service_default s"
    and "tier_for s n = Some t"
  shows "(\<exists>r nonce der j. verify_credential H E Z ID r nonce der (tier_context_id H t)
          (minimum_balance t) = Inr j \<and> j_nullifier j = n)
    \<and> (\<forall>s'. reachable (activate_step H E Z ID) s s' \<longrightarrow> tier_for s' n = Some t)"
  using sessions_backed [OF assms] tier_for_stable [OF _ assms(2)]
  by (auto simp: session_backed_def credential_for_tier_iff)

theorem tier_sessions_backed_witness:
  "let ctx = tier_context_id sample_hash Enterprise; n = j_nullifier (sample_journal ctx);
     s = fst (activate sample_hash sample_ecdsa (sample_zkvm sample_hash) sample_id
       feature_service_default Enterprise (sample_receipt ctx) sample_nonce (sample_signature ctx))
   in (\<exists>r nonce der j. verify_credential sample_hash sample_ecdsa (sample_zkvm sample_hash) sample_id
          r nonce der (tier_context_id sample_hash Enterprise) (minimum_balance Enterprise) = Inr j
          \<and> j_nullifier j = n)
    \<and> (\<forall>s'. reachable (activate_step sample_hash sample_ecdsa (sample_zkvm sample_hash) sample_id) s s'
          \<longrightarrow> tier_for s' n = Some Enterprise)"
proof -
  let ?ctx = "tier_context_id sample_hash Enterprise"
  let ?step = "activate_step sample_hash sample_ecdsa (sample_zkvm sample_hash) sample_id"
  let ?s = "fst (?step feature_service_default (Enterprise, sample_receipt ?ctx, sample_nonce,
      sample_signature ?ctx))"
  have "reachable ?step feature_service_default ?s"
    by (rule reach_step [OF reach_init prod.collapse [symmetric]])
  moreover have "tier_for ?s (j_nullifier (sample_journal ?ctx)) = Some Enterprise"
    by (simp add: activate_def sample_credential feature_service_default_def tier_for_def)
  ultimately show ?thesis
    using tier_sessions_backed by (simp only: Let_def case_prod_conv) blast
qed

text \<open>A credential does not upgrade. A receipt that activated one tier is refused at every
  other tier, whatever nonce and signature come with it, unless the two tier context messages
  collide; and a threshold below a tier's minimum never activates it.\<close>

lemma tier_no_upgrade:
  assumes "activate H E Z ID s t r nonce der = (s1, Inr j)"
    and "activate H E Z ID s' t' r nonce' der' = (s2, Inr j')"
  shows "(t = t' \<or> collision H (tier_context_bytes t) (tier_context_bytes t'))
    \<and> minimum_balance t' \<le> j_threshold j"
proof -
  from assms have "verify_receipt Z ID r = Inr j" "verify_receipt Z ID r = Inr j'"
    and ctx: "j_context_id j = tier_context_id H t" "j_context_id j' = tier_context_id H t'"
    and floor: "minimum_balance t' \<le> j_threshold j'"
    by (simp_all add: activate_Inr credential_for_tier_def)
  then have same: "j = j'" by simp
  with ctx have "H (tier_context_bytes t) = H (tier_context_bytes t')"
    by (simp add: tier_context_id_def)
  from hash_eqD [of H, OF this] same floor show ?thesis by auto
qed

section \<open>The relay\<close>

text \<open>Claim C29: a tag a relay accepts decodes (base64, receipt, 32-byte nonce, signature) to a verified
  receipt whose journal is for this relay, attests at least its floor and signed the tag's nonce; and
  a tag two relays accept presents the same journal to both, whose ids are then equal or whose context
  messages collide.\<close>

theorem nostr_tag_one_relay:
  assumes "verify_nip42_with_lp0005 H E Z ID D tag relay floor = Inr j"
    and "verify_nip42_with_lp0005 H E Z ID D tag relay' floor' = Inr j'"
  shows "(\<exists>r nonce der. decoded_tag D tag = Some (r, nonce, der) \<and> verify_receipt Z ID r = Inr j
        \<and> presenter_signed H E j nonce der)
    \<and> j' = j \<and> j_context_id j = context_id_for_relay H relay
    \<and> floor \<le> j_threshold j \<and> floor' \<le> j_threshold j
    \<and> (relay = relay' \<or> collision H (relay_context_bytes relay) (relay_context_bytes relay'))"
proof -
  obtain r nonce der where 1: "decoded_tag D tag = Some (r, nonce, der)" "verify_receipt Z ID r = Inr j"
    "j_context_id j = context_id_for_relay H relay" "floor \<le> j_threshold j"
    "presenter_signed H E j nonce der"
    using assms(1) by (rule verify_nip42_journal)
  obtain r' nonce' der' where 2: "decoded_tag D tag = Some (r', nonce', der')"
    "verify_receipt Z ID r' = Inr j'" "floor' \<le> j_threshold j'"
    using assms(2) by (rule verify_nip42_journal)
  from 1(1,2) 2(1,2) have "j' = j" by simp
  with 1 2(3) one_tag_one_relay [OF assms] show ?thesis by simp
qed

definition sample_codecs :: "clear_receipt codecs" where
  "sample_codecs = (let ctx = context_id_for_relay sample_hash ''wss://r'' in
     \<lparr>base64_decode = (\<lambda>_. Inr []), bincode_decode = (\<lambda>_. Inr (sample_receipt ctx, 0)),
      hex_decode = (\<lambda>t. Inr (if t = ''n'' then elems sample_nonce else sample_signature ctx))\<rparr>)"

definition sample_tag :: Lp0005AuthTag where
  "sample_tag = \<lparr>credential_b64 = ''r'', nonce_hex = ''n'', signature_hex = ''s''\<rparr>"

theorem nostr_tag_one_relay_witness:
  "let j = sample_journal (context_id_for_relay sample_hash ''wss://r'') in
   (\<exists>r nonce der. decoded_tag sample_codecs sample_tag = Some (r, nonce, der)
        \<and> verify_receipt (sample_zkvm sample_hash) sample_id r = Inr j
        \<and> presenter_signed sample_hash sample_ecdsa j nonce der)
    \<and> j = j \<and> j_context_id j = context_id_for_relay sample_hash ''wss://r''
    \<and> 1000 \<le> j_threshold j \<and> 5 \<le> j_threshold j
    \<and> (''wss://r'' = ''wss://r''
        \<or> collision sample_hash (relay_context_bytes ''wss://r'') (relay_context_bytes ''wss://r''))"
proof -
  let ?ctx = "context_id_for_relay sample_hash ''wss://r''"
  have "decoded_tag sample_codecs sample_tag
    = Some (sample_receipt ?ctx, sample_nonce, sample_signature ?ctx)"
    by (simp add: decoded_tag_def sample_codecs_def sample_tag_def Let_def)
  then have "verify_nip42_with_lp0005 sample_hash sample_ecdsa (sample_zkvm sample_hash) sample_id
      sample_codecs sample_tag ''wss://r'' m = Inr (sample_journal ?ctx)" if "m \<le> 1000000" for m
    unfolding verify_nip42_Inr using that by (auto intro: sample_credential)
  from nostr_tag_one_relay [OF this this, of 1000 5] show ?thesis by (simp add: Let_def)
qed

end
