(* ===== verification/CuBench.thy ===== *)
theory CuBench
  imports Base58 SequencerClient AttestationGuests
begin

text \<open>
  \<^verbatim>\<open>crates/cu-bench/src/main.rs\<close>, which replays the sequencer's execution of a program and reports
  its cycles: decoding instruction words and account ids from hex, fetching the account states (asked
  for by their base58 text, \<open>Base58\<close>), and \<open>cu_main\<close>. Files, the \<^verbatim>\<open>hex\<close> crate, HTTP, JSON and the
  Risc0 executor are parameters; the floating-point percentage is a parameter of the text report.
\<close>

section \<open>Instruction data and account ids\<close>

fun strip_0x :: "string \<Rightarrow> string" where
  "strip_0x (CHR ''0'' # CHR ''x'' # s) = strip_0x s"
| "strip_0x s = s"

fun words_from_le :: "bytes \<Rightarrow> u32 list" where
  "words_from_le (a # b # c # d # rest) = from_le [a, b, c, d] # words_from_le rest"
| "words_from_le _ = []"

definition decode_instruction_data :: "(string \<Rightarrow> string + bytes) \<Rightarrow> string \<Rightarrow> string + u32 list" where
  "decode_instruction_data hex hex_str =
     rbind (map_err (\<lambda>_. ''instruction_data is not valid hex'') (hex (strip_0x hex_str))) (\<lambda>bs.
       if length bs mod 4 \<noteq> 0
       then Inl (''instruction_data length '' @ dec (length bs) @ '' is not a multiple of 4 bytes'')
       else Inr (words_from_le bs))"

definition parse_account_id :: "(string \<Rightarrow> string + bytes) \<Rightarrow> string \<Rightarrow> string + b32" where
  "parse_account_id hex raw =
     rbind (map_err (\<lambda>_. ''account id is not valid hex'') (hex (strip_0x raw))) (\<lambda>bs.
       ok_or (''account id is '' @ dec (length bs) @ '' bytes, expected 32'') (try_into bs))"

section \<open>Replaying an execution\<close>

text \<open>The Risc0 executor, the binary format, the dry-run JSON, the typed account JSON and LEZ's limit on
  account data are the fields of \<open>cu_env\<close>; \<open>cu_post\<close> returns the parsed body, or an inner error
  when the body is not JSON.\<close>

record DryRunAccount =
  dr_id :: string
  dr_flags :: "string list"

record DryRun =
  dr_instruction :: string
  dr_instruction_data :: string
  dr_accounts :: "DryRunAccount list"

record RpcAccount =
  ra_program_owner :: program_id
  ra_balance :: u128
  ra_data :: bytes
  ra_nonce :: u128

record segment =
  sg_cycles :: u32
  sg_po2 :: u32

record cu_input =
  ci_program_id :: program_id
  ci_caller_program_id :: "program_id option"
  ci_pre_states :: "account_with_metadata list"
  ci_instruction_data :: "u32 list"

record ('v, 'env) cu_env =
  cu_read :: "string \<Rightarrow> string + bytes"
  cu_parse_dry_run :: "bytes \<Rightarrow> string + DryRun"
  cu_image_id :: "bytes \<Rightarrow> string + program_id"
  cu_hex :: "string \<Rightarrow> string + bytes"
  cu_post :: "string \<Rightarrow> 'v Request \<Rightarrow> string + (string + 'v)"
  cu_account_from_value :: "'v \<Rightarrow> string + RpcAccount"
  cu_account_data :: "bytes \<Rightarrow> string + bytes"
  cu_build_env :: "u64 \<Rightarrow> cu_input \<Rightarrow> string + 'env"
  cu_execute :: "'env \<Rightarrow> bytes \<Rightarrow> string + segment list"

definition MAX_NUM_CYCLES_PUBLIC_EXECUTION :: u64 where
  "MAX_NUM_CYCLES_PUBLIC_EXECUTION = 1024 * 1024 * 32"

definition fetch_account :: "'v json \<Rightarrow> ('v, 'env) cu_env \<Rightarrow> string \<Rightarrow> b32 \<Rightarrow> string + RpcAccount" where
  "fetch_account J C sequencer account_id =
    rbind (ok_or ''bs58_encode does not return'' (bs58_encode account_id)) (\<lambda>id_b58.
     let body = request_new 1 ''getAccount'' (arr_value J [str_value J id_b58])
     in rbind (map_err (\<lambda>_. ''getAccount request failed'') (cu_post C sequencer body)) (\<lambda>reply.
        rbind (map_err (\<lambda>_. ''getAccount response was not JSON'') reply) (\<lambda>resp.
        rbind (ok_or (''account '' @ id_b58 @ '' not found on '' @ sequencer)
            (Option.bind (as_object J resp) (\<lambda>obj. Option.bind (obj ''result'')
               (\<lambda>v. if is_null J v then None else Some v)))) (\<lambda>result.
        map_err (\<lambda>_. ''unexpected getAccount result shape'') (cu_account_from_value C result)))))"

definition pre_state :: "'v json \<Rightarrow> ('v, 'env) cu_env \<Rightarrow> string \<Rightarrow> DryRunAccount
    \<Rightarrow> string + account_with_metadata" where
  "pre_state J C sequencer acc =
     rbind (parse_account_id (cu_hex C) (dr_id acc)) (\<lambda>raw_id.
     rbind (fetch_account J C sequencer raw_id) (\<lambda>fetched.
     rbind (map_err (\<lambda>e. ''account data rejected by LEZ: '' @ e) (cu_account_data C (ra_data fetched)))
       (\<lambda>data.
     let account = \<lparr>acc_program_owner = ra_program_owner fetched, acc_balance = ra_balance fetched,
           acc_data = data, acc_nonce = ra_nonce fetched\<rparr>;
         is_authorized = list_ex (\<lambda>f. f = ''signer'') (dr_flags acc)
     in Inr \<lparr>am_account = account, am_is_authorized = is_authorized, am_account_id = raw_id\<rparr>)))"

text \<open>\<^verbatim>\<open>sum()\<close> on \<^verbatim>\<open>u64\<close>; \<open>1u64 << po2\<close> shifts by \<open>po2\<close> modulo 64 in a release build.\<close>

definition user_cycles :: "segment list \<Rightarrow> u64" where
  "user_cycles segments = sum_list (map (\<lambda>s. ucast (sg_cycles s)) segments)"

definition proving_cycles :: "segment list \<Rightarrow> u64" where
  "proving_cycles segments = sum_list (map (\<lambda>s. push_bit (unat (sg_po2 s) mod 64) 1) segments)"

record cu_report =
  cr_instruction :: string
  cr_program_id :: bytes
  cr_user_cycles :: u64
  cr_proving_cycles :: u64
  cr_segments :: nat
  cr_instruction_data_words :: nat
  cr_pre_states :: nat

definition cu_main :: "'v json \<Rightarrow> ('v, 'env) cu_env \<Rightarrow> string \<Rightarrow> string \<Rightarrow> string \<Rightarrow> string + cu_report" where
  "cu_main J C elf_path tx_path sequencer =
     rbind (map_err (\<lambda>_. ''cannot read ELF '' @ elf_path) (cu_read C elf_path)) (\<lambda>elf.
     rbind (map_err (\<lambda>_. ''cannot read '' @ tx_path) (cu_read C tx_path)) (\<lambda>tx.
     rbind (map_err (\<lambda>_. ''dry-run file is not the JSON emitted by `spel --dry-run=json`'')
         (cu_parse_dry_run C tx)) (\<lambda>dry_run.
     rbind (cu_image_id C elf) (\<lambda>program_id.
     rbind (decode_instruction_data (cu_hex C) (dr_instruction_data dry_run)) (\<lambda>instruction_data.
     rbind (collect (map (pre_state J C sequencer) (dr_accounts dry_run))) (\<lambda>pre_states.
     rbind (cu_build_env C MAX_NUM_CYCLES_PUBLIC_EXECUTION
         \<lparr>ci_program_id = program_id, ci_caller_program_id = None, ci_pre_states = pre_states,
          ci_instruction_data = instruction_data\<rparr>) (\<lambda>env.
     rbind (map_err (\<lambda>_. ''execution failed, the sequencer would have rejected this transaction'')
         (cu_execute C env elf)) (\<lambda>segments.
     Inr \<lparr>cr_instruction = dr_instruction dry_run, cr_program_id = words_le (elems program_id),
       cr_user_cycles = user_cycles segments, cr_proving_cycles = proving_cycles segments,
       cr_segments = length segments, cr_instruction_data_words = length instruction_data,
       cr_pre_states = length pre_states\<rparr>))))))))"

text \<open>The report as text. The percentage is computed in floating point, so how it reads, to three
  decimals, is a parameter.\<close>

definition cu_text :: "(u64 \<Rightarrow> string) \<Rightarrow> cu_report \<Rightarrow> string list" where
  "cu_text budget_pct rep =
     [''instruction            '' @ cr_instruction rep,
      ''pre-state accounts     '' @ dec (cr_pre_states rep),
      ''instruction data       '' @ dec (cr_instruction_data_words rep) @ '' u32 words'',
      ''segments               '' @ dec (cr_segments rep),
      ''user cycles            '' @ dec (unat (cr_user_cycles rep)),
      ''proving cycles (po2)   '' @ dec (unat (cr_proving_cycles rep)),
      ''public budget          '' @ dec (unat MAX_NUM_CYCLES_PUBLIC_EXECUTION) @ '' cycles ('' @
        budget_pct (cr_proving_cycles rep) @ ''% used)'']"

section \<open>What the conversions compute\<close>

lemma words_from_le_words:
  "words_from_le (words_le ws) = ws"
proof (induction ws)
  case (Cons w ws)
  have "\<exists>a b c d. u32_le w = [a, b, c, d]"
    by (simp add: le_bytes_def upt_rec)
  then obtain a b c d where "u32_le w = [a, b, c, d]" by blast
  with Cons from_le_u32 [of w] show ?case by (simp add: words_le_def)
qed (simp add: words_le_def)

section \<open>What a reported measurement is\<close>

lemma words_le_words_from_le:
  "length bs mod 4 = 0 \<Longrightarrow> words_le (words_from_le bs) = bs"
proof (induction bs rule: words_from_le.induct)
  case (1 a b c d rest)
  moreover from 1 have "length rest mod 4 = 0" by simp
  moreover have "u32_le (from_le [a, b, c, d]) = [a, b, c, d]"
    using le_bytes_from_le [of "[a, b, c, d]", where 'a = 32]
    by (simp add: eval_nat_numeral del: from_le.simps)
  ultimately show ?case by (simp add: words_le_def del: from_le.simps)
qed (auto simp: words_le_def)

lemma decode_instruction_data_Inr [result_iff]:
  "decode_instruction_data hex s = Inr ws \<longleftrightarrow> hex (strip_0x s) = Inr (words_le ws)"
  by (auto simp: decode_instruction_data_def rbind_Inr map_err_Inr words_from_le_words
      words_le_words_from_le intro!: exI [of _ "words_le ws"])

lemma parse_account_id_Inr [result_iff]:
  "parse_account_id hex s = Inr a \<longleftrightarrow> hex (strip_0x s) = Inr (elems a)"
  by (auto simp: parse_account_id_def rbind_Inr map_err_Inr ok_or_Inr try_into_Some)

lemma collect_map_list_all2:
  "collect (map f xs) = Inr ys \<longleftrightarrow> list_all2 (\<lambda>x y. f x = Inr y) xs ys"
proof (induction xs arbitrary: ys)
  case (Cons x xs)
  then show ?case by (cases ys) (auto simp: rbind_Inr list_all2_Cons1)
qed auto

lemma unat_sum_list:
  fixes f :: "'x \<Rightarrow> 'a::len word"
  assumes "sum_list (map (\<lambda>x. unat (f x)) xs) < 2 ^ LENGTH('a)"
  shows "unat (sum_list (map f xs)) = sum_list (map (\<lambda>x. unat (f x)) xs)"
  using assms by (induction xs) (simp_all add: unat_word_ariths)

text \<open>The pre-state built for an account of the dry run: its own id, authorised exactly when flagged
  as a signer, and the state the sequencer returned for it.\<close>

definition fetched_state :: "'v json \<Rightarrow> ('v, 'env) cu_env \<Rightarrow> string \<Rightarrow> DryRunAccount
    \<Rightarrow> account_with_metadata \<Rightarrow> bool" where
  "fetched_state J C sequencer acc pre \<longleftrightarrow>
     cu_hex C (strip_0x (dr_id acc)) = Inr (elems (am_account_id pre))
     \<and> (am_is_authorized pre \<longleftrightarrow> ''signer'' \<in> set (dr_flags acc))
     \<and> (\<exists>fetched. fetch_account J C sequencer (am_account_id pre) = Inr fetched
        \<and> acc_program_owner (am_account pre) = ra_program_owner fetched
        \<and> acc_balance (am_account pre) = ra_balance fetched
        \<and> acc_nonce (am_account pre) = ra_nonce fetched
        \<and> cu_account_data C (ra_data fetched) = Inr (acc_data (am_account pre)))"

lemma pre_state_Inr: "pre_state J C sequencer acc = Inr pre \<Longrightarrow> fetched_state J C sequencer acc pre"
  by (auto simp: pre_state_def fetched_state_def result_iff Let_def list_ex_iff)

text \<open>A report describes one run of the deployed binary, under the sequencer's cycle limit, on the
  program id of that binary, no caller, the fetched states in the dry run's order and the dry run's
  instruction words; its cycle counts are the exact sums as long as these fit 64 bits.\<close>

definition faithful_replay :: "'v json \<Rightarrow> ('v, 'env) cu_env \<Rightarrow> string \<Rightarrow> string \<Rightarrow> string
    \<Rightarrow> cu_report \<Rightarrow> bool" where
  "faithful_replay J C elf_path tx_path sequencer rep \<longleftrightarrow>
    (\<exists>elf tx dry program_id words pre env segments.
       cu_read C elf_path = Inr elf \<and> cu_image_id C elf = Inr program_id
       \<and> cu_read C tx_path = Inr tx \<and> cu_parse_dry_run C tx = Inr dry
       \<and> cu_hex C (strip_0x (dr_instruction_data dry)) = Inr (words_le words)
       \<and> list_all2 (fetched_state J C sequencer) (dr_accounts dry) pre
       \<and> cu_build_env C (2 ^ 25) \<lparr>ci_program_id = program_id, ci_caller_program_id = None,
           ci_pre_states = pre, ci_instruction_data = words\<rparr> = Inr env
       \<and> cu_execute C env elf = Inr segments
       \<and> cr_instruction rep = dr_instruction dry \<and> cr_program_id rep = words_le (elems program_id)
       \<and> cr_segments rep = length segments \<and> cr_instruction_data_words rep = length words
       \<and> cr_pre_states rep = length (dr_accounts dry)
       \<and> (let cycles = sum_list (map (\<lambda>s. unat (sg_cycles s)) segments)
          in cycles < 2 ^ 64 \<longrightarrow> unat (cr_user_cycles rep) = cycles)
       \<and> (let cycles = sum_list (map (\<lambda>s. 2 ^ unat (sg_po2 s)) segments)
          in (\<forall>s \<in> set segments. sg_po2 s < 64) \<and> cycles < 2 ^ 64
             \<longrightarrow> unat (cr_proving_cycles rep) = cycles))"

lemma user_cycles_exact:
  "sum_list (map (\<lambda>s. unat (sg_cycles s)) segments) < 2 ^ 64 \<Longrightarrow>
   unat (user_cycles segments) = sum_list (map (\<lambda>s. unat (sg_cycles s)) segments)"
proof -
  have "unat (ucast (w :: u32) :: u64) = unat w" for w
    by (simp add: unsigned_ucast_eq take_bit_nat_eq_self unsigned_less [THEN less_le_trans])
  then show "sum_list (map (\<lambda>s. unat (sg_cycles s)) segments) < 2 ^ 64 \<Longrightarrow> ?thesis"
    using unat_sum_list [of "\<lambda>s. ucast (sg_cycles s) :: u64" segments] by (simp add: user_cycles_def)
qed

lemma unat_2_power: "k < 64 \<Longrightarrow> unat (2 ^ k :: u64) = 2 ^ k"
proof -
  assume "k < 64"
  then have "(2 :: nat) ^ k < 2 ^ 64" by (intro power_strict_increasing) simp_all
  then have "unat (of_nat (2 ^ k) :: u64) = 2 ^ k" by (simp add: unat_of_nat del: of_nat_power)
  then show ?thesis by simp
qed

lemma proving_cycles_exact:
  assumes "\<forall>s \<in> set segments. sg_po2 s < 64"
    and "sum_list (map (\<lambda>s. 2 ^ unat (sg_po2 s)) segments) < (2 :: nat) ^ 64"
  shows "unat (proving_cycles segments) = sum_list (map (\<lambda>s. 2 ^ unat (sg_po2 s)) segments)"
proof -
  have "unat (push_bit (unat n mod 64) 1 :: u64) = 2 ^ unat n" if "n < 64" for n :: u32
  proof -
    from that have "unat n < 64" by (simp add: word_less_nat_alt)
    then show ?thesis
      using unat_2_power [of "unat n"] by (simp add: push_bit_eq_mult)
  qed
  with assms(1) have eq: "map (\<lambda>s. unat (push_bit (unat (sg_po2 s) mod 64) 1 :: u64)) segments
    = map (\<lambda>s. 2 ^ unat (sg_po2 s)) segments" by simp
  show ?thesis
    using unat_sum_list [of "\<lambda>s. push_bit (unat (sg_po2 s) mod 64) 1 :: u64" segments] assms(2)
    unfolding eq proving_cycles_def by simp
qed

lemma cu_main_replays:
  assumes "cu_main J C elf_path tx_path sequencer = Inr rep"
  shows "faithful_replay J C elf_path tx_path sequencer rep"
proof -
  from assms obtain elf tx dry program_id words pre env segments where
    run: "cu_read C elf_path = Inr elf" "cu_read C tx_path = Inr tx" "cu_parse_dry_run C tx = Inr dry"
      "cu_image_id C elf = Inr program_id"
      "cu_hex C (strip_0x (dr_instruction_data dry)) = Inr (words_le words)"
      "cu_build_env C (2 ^ 25) \<lparr>ci_program_id = program_id, ci_caller_program_id = None,
           ci_pre_states = pre, ci_instruction_data = words\<rparr> = Inr env"
      "cu_execute C env elf = Inr segments"
    and pre: "list_all2 (\<lambda>x y. pre_state J C sequencer x = Inr y) (dr_accounts dry) pre"
    and rep: "rep = \<lparr>cr_instruction = dr_instruction dry, cr_program_id = words_le (elems program_id),
       cr_user_cycles = user_cycles segments, cr_proving_cycles = proving_cycles segments,
       cr_segments = length segments, cr_instruction_data_words = length words,
       cr_pre_states = length pre\<rparr>"
    by (auto simp: cu_main_def result_iff collect_map_list_all2 MAX_NUM_CYCLES_PUBLIC_EXECUTION_def)
  have "list_all2 (fetched_state J C sequencer) (dr_accounts dry) pre"
    using pre by (rule list_all2_mono) (rule pre_state_Inr)
  moreover have "length pre = length (dr_accounts dry)" using pre by (simp add: list_all2_lengthD)
  ultimately show ?thesis
    unfolding faithful_replay_def Let_def
    using run user_cycles_exact [of segments] proving_cycles_exact [of segments]
    by (intro exI [of _ elf] exI [of _ tx] exI [of _ dry] exI [of _ program_id] exI [of _ words]
        exI [of _ pre] exI [of _ env] exI [of _ segments]) (simp add: rep)
qed

end
