(* ===== verification/SharedBus.thy ===== *)
theory SharedBus
  imports DeliveryTransport
begin

text \<open>
  The in-process bus under concurrent callers (\<^verbatim>\<open>inmem.rs\<close>). \<open>DeliveryTransport\<close> models one call at a
  time; here the shared structure is explicit: the map from topics to channels behind its mutex, each
  channel's queue, the live handles on its two ends and the mutex around its receiver, and the tasks
  inside \<^verbatim>\<open>send\<close> and \<^verbatim>\<open>recv\<close>. A task's call takes several steps, which interleave with those of other
  tasks in any order; \<open>None\<close> is a step that cannot be taken (the task would block). The refinement
  shows that whatever the interleaving, the completed calls are a sequential history of
  \<open>inmem_send\<close> and \<open>inmem_recv\<close>.
\<close>

section \<open>The shared state\<close>

text \<open>An end of an mpsc channel is open while some handle on it is alive: the map's own or a task's.\<close>

datatype handle = InMap | OfTask nat

record 'm channel =
  c_queue :: "'m list"
  c_senders :: "handle set"
  c_receivers :: "handle set"
  c_guard :: "nat option"

datatype 'm task = Idle | Sending string nat 'm | Waiting string nat | Holding string nat

record 'm shared_bus =
  sb_map :: "string \<rightharpoonup> nat"
  sb_heap :: "'m channel list"
  sb_tasks :: "nat \<Rightarrow> 'm task"

definition bus_new :: "'m shared_bus" where
  "bus_new = \<lparr>sb_map = Map.empty, sb_heap = [], sb_tasks = (\<lambda>_. Idle)\<rparr>"

definition new_channel :: "'m channel" where
  "new_channel = \<lparr>c_queue = [], c_senders = {InMap}, c_receivers = {InMap}, c_guard = None\<rparr>"

definition shared_channel_for :: "'m shared_bus \<Rightarrow> string \<Rightarrow> 'm shared_bus \<times> nat" where
  "shared_channel_for s topic =
     (case sb_map s topic of
        Some c \<Rightarrow> (s, c)
      | None \<Rightarrow> (s\<lparr>sb_heap := sb_heap s @ [new_channel],
                   sb_map := (sb_map s)(topic \<mapsto> length (sb_heap s))\<rparr>, length (sb_heap s)))"

definition set_task :: "nat \<Rightarrow> 'm task \<Rightarrow> nat \<Rightarrow> ('m channel \<Rightarrow> 'm channel) \<Rightarrow> 'm shared_bus
    \<Rightarrow> 'm shared_bus" where
  "set_task i task c f s = s\<lparr>sb_heap := (sb_heap s)[c := f (sb_heap s ! c)],
     sb_tasks := (sb_tasks s)(i := task)\<rparr>"

section \<open>The steps of \<^verbatim>\<open>send\<close> and \<^verbatim>\<open>recv\<close>\<close>

datatype 'm call_log = Sent string 'm "TransportError + unit"
  | Received string "TransportError + 'm option"

datatype 'm bus_event = SendCall nat string 'm | SendPush nat | RecvCall nat string | RecvLock nat
  | RecvTake nat

text \<open>\<^verbatim>\<open>let (tx, _) = self.channel_for(topic)\<close>: the sender is kept, the receiver handle dropped.\<close>

definition send_call :: "'m shared_bus \<Rightarrow> nat \<Rightarrow> string \<Rightarrow> 'm \<Rightarrow> 'm shared_bus option" where
  "send_call s i topic envelope =
     (case sb_tasks s i of
        Idle \<Rightarrow> (case shared_channel_for s topic of (s', c) \<Rightarrow>
          Some (set_task i (Sending topic c envelope) c
            (\<lambda>ch. ch\<lparr>c_senders := insert (OfTask i) (c_senders ch)\<rparr>) s'))
      | _ \<Rightarrow> None)"

text \<open>\<^verbatim>\<open>tx.send(envelope)\<close> fails only when no receiver is left; then \<^verbatim>\<open>tx\<close> is dropped.\<close>

definition send_push :: "'m shared_bus \<Rightarrow> nat \<Rightarrow> ('m shared_bus \<times> 'm call_log) option" where
  "send_push s i =
     (case sb_tasks s i of
        Sending topic c envelope \<Rightarrow>
          if c_receivers (sb_heap s ! c) = {}
          then Some (set_task i Idle c (\<lambda>ch. ch\<lparr>c_senders := c_senders ch - {OfTask i}\<rparr>) s,
                 Sent topic envelope (Inl (Upstream ''sending on a closed channel'')))
          else Some (set_task i Idle c (\<lambda>ch. ch\<lparr>c_queue := c_queue ch @ [envelope],
                   c_senders := c_senders ch - {OfTask i}\<rparr>) s,
                 Sent topic envelope (Inr ()))
      | _ \<Rightarrow> None)"

definition recv_call :: "'m shared_bus \<Rightarrow> nat \<Rightarrow> string \<Rightarrow> 'm shared_bus option" where
  "recv_call s i topic =
     (case sb_tasks s i of
        Idle \<Rightarrow> (case shared_channel_for s topic of (s', c) \<Rightarrow>
          Some (set_task i (Waiting topic c) c
            (\<lambda>ch. ch\<lparr>c_receivers := insert (OfTask i) (c_receivers ch)\<rparr>) s'))
      | _ \<Rightarrow> None)"

text \<open>\<^verbatim>\<open>rx.lock()\<close> waits for the guard.\<close>

definition recv_lock :: "'m shared_bus \<Rightarrow> nat \<Rightarrow> 'm shared_bus option" where
  "recv_lock s i =
     (case sb_tasks s i of
        Waiting topic c \<Rightarrow>
          if c_guard (sb_heap s ! c) = None
          then Some (set_task i (Holding topic c) c (\<lambda>ch. ch\<lparr>c_guard := Some i\<rparr>) s) else None
      | _ \<Rightarrow> None)"

text \<open>\<^verbatim>\<open>guard.recv()\<close> takes the first message; on an empty queue it waits while a sender is alive and
  fails, which \<^verbatim>\<open>recv\<close> reports as \<^verbatim>\<open>Ok(None)\<close>, when none is.\<close>

definition recv_take :: "'m shared_bus \<Rightarrow> nat \<Rightarrow> ('m shared_bus \<times> 'm call_log) option" where
  "recv_take s i =
     (case sb_tasks s i of
        Holding topic c \<Rightarrow>
          (case c_queue (sb_heap s ! c) of
             envelope # rest \<Rightarrow>
               Some (set_task i Idle c (\<lambda>ch. ch\<lparr>c_queue := rest, c_guard := None,
                   c_receivers := c_receivers ch - {OfTask i}\<rparr>) s,
                 Received topic (Inr (Some envelope)))
           | [] \<Rightarrow>
               if c_senders (sb_heap s ! c) = {}
               then Some (set_task i Idle c (\<lambda>ch. ch\<lparr>c_guard := None,
                   c_receivers := c_receivers ch - {OfTask i}\<rparr>) s, Received topic (Inr None))
               else None)
      | _ \<Rightarrow> None)"

fun bus_step :: "'m shared_bus \<Rightarrow> 'm bus_event \<Rightarrow> ('m shared_bus \<times> 'm call_log list) option" where
  "bus_step s (SendCall i topic envelope) = map_option (\<lambda>s'. (s', [])) (send_call s i topic envelope)"
| "bus_step s (SendPush i) = map_option (\<lambda>(s', l). (s', [l])) (send_push s i)"
| "bus_step s (RecvCall i topic) = map_option (\<lambda>s'. (s', [])) (recv_call s i topic)"
| "bus_step s (RecvLock i) = map_option (\<lambda>s'. (s', [])) (recv_lock s i)"
| "bus_step s (RecvTake i) = map_option (\<lambda>(s', l). (s', [l])) (recv_take s i)"

fun bus_run :: "'m shared_bus \<Rightarrow> 'm bus_event list \<Rightarrow> ('m shared_bus \<times> 'm call_log list) option" where
  "bus_run s [] = Some (s, [])"
| "bus_run s (e # es) =
     (case bus_step s e of None \<Rightarrow> None
      | Some (s', l) \<Rightarrow> map_option (\<lambda>(s'', ls). (s'', l @ ls)) (bus_run s' es))"

section \<open>The invariant\<close>

fun task_channel :: "'m task \<Rightarrow> (string \<times> nat) option" where
  "task_channel Idle = None"
| "task_channel (Sending topic c _) = Some (topic, c)"
| "task_channel (Waiting topic c) = Some (topic, c)"
| "task_channel (Holding topic c) = Some (topic, c)"

text \<open>Every topic has its own channel, which the map keeps open at both ends, and a task works on the
  channel of its topic.\<close>

definition bus_ok :: "'m shared_bus \<Rightarrow> bool" where
  "bus_ok s \<longleftrightarrow>
     (\<forall>t c. sb_map s t = Some c \<longrightarrow> c < length (sb_heap s)
        \<and> InMap \<in> c_senders (sb_heap s ! c) \<and> InMap \<in> c_receivers (sb_heap s ! c))
     \<and> (\<forall>t t' c. sb_map s t = Some c \<longrightarrow> sb_map s t' = Some c \<longrightarrow> t = t')
     \<and> (\<forall>i t c. task_channel (sb_tasks s i) = Some (t, c) \<longrightarrow> sb_map s t = Some c)"

definition bus_queue :: "'m shared_bus \<Rightarrow> string \<Rightarrow> 'm list" where
  "bus_queue s t = (case sb_map s t of None \<Rightarrow> [] | Some c \<Rightarrow> c_queue (sb_heap s ! c))"

lemma bus_ok_new: "bus_ok bus_new" "bus_queue bus_new = (\<lambda>_. [])"
  by (simp_all add: bus_ok_def bus_new_def bus_queue_def fun_eq_iff)

lemma bus_okD:
  assumes "bus_ok s" and "sb_map s t = Some c"
  shows "c < length (sb_heap s)" "InMap \<in> c_senders (sb_heap s ! c)"
    "InMap \<in> c_receivers (sb_heap s ! c)" "sb_map s t' = Some c \<Longrightarrow> t' = t"
  using assms by (auto simp: bus_ok_def)

lemma task_on_map:
  assumes "bus_ok s" and "task_channel (sb_tasks s i) = Some (t, c)"
  shows "sb_map s t = Some c"
  using assms by (simp add: bus_ok_def)

lemma shared_channel_for_ok:
  assumes "bus_ok s" and "shared_channel_for s t = (s', c)"
  shows "bus_ok s' \<and> sb_map s' t = Some c \<and> bus_queue s' = bus_queue s \<and> sb_tasks s' = sb_tasks s"
proof (cases "sb_map s t")
  case None
  let ?n = "length (sb_heap s)"
  from assms(2) None have s': "sb_map s' = (sb_map s)(t \<mapsto> ?n)" "sb_heap s' = sb_heap s @ [new_channel]"
    "sb_tasks s' = sb_tasks s" and c: "c = ?n"
    by (auto simp: shared_channel_for_def)
  note old = bus_okD [OF assms(1)]
  have fresh: "sb_map s t' \<noteq> Some ?n" for t' using old(1) [of t' ?n] by auto
  have "bus_ok s'"
    unfolding bus_ok_def s'
  proof (intro conjI allI impI)
    fix t' d assume "((sb_map s)(t \<mapsto> ?n)) t' = Some d"
    then show "d < length (sb_heap s @ [new_channel])"
      "InMap \<in> c_senders ((sb_heap s @ [new_channel]) ! d)"
      "InMap \<in> c_receivers ((sb_heap s @ [new_channel]) ! d)"
      using old(1-3) [of t' d] by (auto simp: new_channel_def nth_append split: if_splits)
  next
    fix t1 t2 d
    assume "((sb_map s)(t \<mapsto> ?n)) t1 = Some d" "((sb_map s)(t \<mapsto> ?n)) t2 = Some d"
    then show "t1 = t2"
      using old(4) [of t1 d t2] fresh by (auto split: if_splits)
  next
    fix i t' d assume "task_channel (sb_tasks s i) = Some (t', d)"
    with task_on_map [OF assms(1) this] None show "((sb_map s)(t \<mapsto> ?n)) t' = Some d" by auto
  qed
  moreover have "bus_queue s' t' = bus_queue s t'" for t'
    using None old(1) [of t']
    by (auto simp: bus_queue_def s' new_channel_def nth_append split: option.splits)
  ultimately show ?thesis using c by (simp add: s' fun_eq_iff)
qed (use assms in \<open>simp add: shared_channel_for_def\<close>)

text \<open>An update of a topic's channel that keeps the map's handles, by a task that stays on that topic
  or becomes idle.\<close>

lemma set_task_ok:
  assumes "bus_ok s" and "sb_map s t = Some c"
    and "task_channel task = None \<or> task_channel task = Some (t, c)"
    and "InMap \<in> c_senders (f (sb_heap s ! c))" and "InMap \<in> c_receivers (f (sb_heap s ! c))"
  shows "bus_ok (set_task i task c f s)
    \<and> bus_queue (set_task i task c f s) = (bus_queue s)(t := c_queue (f (sb_heap s ! c)))"
proof -
  note mine = bus_okD [OF assms(1,2)] and all = bus_okD [OF assms(1)]
  let ?s = "set_task i task c f s"
  have fields: "sb_map ?s = sb_map s" "length (sb_heap ?s) = length (sb_heap s)"
    "sb_tasks ?s = (sb_tasks s)(i := task)"
    "\<And>d. sb_heap ?s ! d = (if d = c then f (sb_heap s ! c) else sb_heap s ! d)"
    using mine(1) by (simp_all add: set_task_def nth_list_update)
  have "bus_ok ?s"
    unfolding bus_ok_def fields
  proof (intro conjI allI impI)
    fix t' d assume "sb_map s t' = Some d"
    from all(1-3) [OF this] assms(4,5)
    show "d < length (sb_heap s)"
      "InMap \<in> c_senders (if d = c then f (sb_heap s ! c) else sb_heap s ! d)"
      "InMap \<in> c_receivers (if d = c then f (sb_heap s ! c) else sb_heap s ! d)"
      by simp_all
  next
    fix t1 t2 d assume "sb_map s t1 = Some d" "sb_map s t2 = Some d"
    then show "t1 = t2" by (rule all(4) [rotated])
  next
    fix k t' d assume "task_channel (((sb_tasks s)(i := task)) k) = Some (t', d)"
    then show "sb_map s t' = Some d"
      using assms(2,3) task_on_map [OF assms(1), of k t' d] by (auto split: if_splits)
  qed
  moreover have "bus_queue ?s t' = ((bus_queue s)(t := c_queue (f (sb_heap s ! c)))) t'" for t'
  proof (cases "t' = t")
    case True
    then show ?thesis using assms(2) by (simp add: bus_queue_def fields)
  next
    case False
    with mine(4) [of t'] have "sb_map s t' \<noteq> Some c" by blast
    with False show ?thesis by (cases "sb_map s t'") (simp_all add: bus_queue_def fields)
  qed
  ultimately show ?thesis by (simp add: fun_eq_iff)
qed

lemma set_task_quiet:
  assumes "bus_ok s" and "sb_map s t = Some c" and "task_channel task = Some (t, c)"
    and "c_queue (f (sb_heap s ! c)) = c_queue (sb_heap s ! c)"
    and "InMap \<in> c_senders (f (sb_heap s ! c))" and "InMap \<in> c_receivers (f (sb_heap s ! c))"
  shows "bus_ok (set_task i task c f s) \<and> bus_queue (set_task i task c f s) = bus_queue s"
proof -
  have "bus_queue s t = c_queue (sb_heap s ! c)" using assms(2) by (simp add: bus_queue_def)
  moreover from assms(3) have "task_channel task = None \<or> task_channel task = Some (t, c)" ..
  ultimately show ?thesis using set_task_ok [OF assms(1,2), of task f i] assms(4-6)
    by (simp add: fun_upd_idem)
qed

section \<open>Every interleaving is a sequential history\<close>

text \<open>The completed calls replayed, one after the other, on the sequential model of the bus.\<close>

fun replay :: "'m bus \<Rightarrow> 'm call_log list \<Rightarrow> 'm bus option" where
  "replay b [] = Some b"
| "replay b (Sent t m r # ls) =
     (case inmem_send b t m of (b', r') \<Rightarrow> if r' = r then replay b' ls else None)"
| "replay b (Received t r # ls) =
     (case inmem_recv b t of (b', out) \<Rightarrow> if out = Ready r then replay b' ls else None)"

lemma replay_append: "replay b (xs @ ys) = Option.bind (replay b xs) (\<lambda>b'. replay b' ys)"
  by (induction b xs rule: replay.induct) (simp_all split: prod.splits)

lemma inmem_send_replays:
  "\<exists>b'. replay b [Sent t m (Inr ())] = Some b'
    \<and> bus_pending b' = (bus_pending b)(t := bus_pending b t @ [m])"
proof -
  obtain b' r where send: "inmem_send b t m = (b', r)" by (rule prod.exhaust)
  then have "r = Inr ()" by (auto simp: inmem_send_def split: prod.splits)
  moreover have "bus_pending b' = (bus_pending b)(t := bus_pending b t @ [m])"
    by (rule ext) (simp add: inmem.send_pending [OF send])
  ultimately show ?thesis using send by simp
qed

lemma inmem_recv_replays:
  assumes "bus_pending b t = m # ms"
  shows "\<exists>b'. replay b [Received t (Inr (Some m))] = Some b'
    \<and> bus_pending b' = (bus_pending b)(t := ms)"
proof -
  obtain b' out where recv: "inmem_recv b t = (b', out)" by (rule prod.exhaust)
  from inmem.recv_pending [OF recv] assms recv show ?thesis by simp
qed

text \<open>In a state that keeps the invariant a step is one of four moves: a call enters with its channel's
  handles, a receiver takes the mutex, a sender pushes, a receiver takes a message. The branches of
  \<open>send\<close> and \<open>recv\<close> for a closed channel are not among them.\<close>

definition keeps_channel :: "('m channel \<Rightarrow> 'm channel) \<Rightarrow> bool" where
  "keeps_channel f \<longleftrightarrow> (\<forall>ch. c_queue (f ch) = c_queue ch \<and> c_guard (f ch) = c_guard ch
     \<and> c_senders ch \<subseteq> c_senders (f ch) \<and> c_receivers ch \<subseteq> c_receivers (f ch))"

inductive bus_move :: "'m shared_bus \<Rightarrow> 'm shared_bus \<Rightarrow> 'm call_log list \<Rightarrow> bool" where
  Enter: "shared_channel_for s t = (s1, c) \<Longrightarrow> task = Sending t c m \<or> task = Waiting t c \<Longrightarrow>
    keeps_channel f \<Longrightarrow> bus_move s (set_task i task c f s1) []"
| Lock: "sb_tasks s i = Waiting t c \<Longrightarrow> c_guard (sb_heap s ! c) = None \<Longrightarrow>
    bus_move s (set_task i (Holding t c) c (\<lambda>ch. ch\<lparr>c_guard := Some i\<rparr>) s) []"
| Push: "sb_tasks s i = Sending t c m \<Longrightarrow>
    bus_move s (set_task i Idle c (\<lambda>ch. ch\<lparr>c_queue := c_queue ch @ [m],
      c_senders := c_senders ch - {OfTask i}\<rparr>) s) [Sent t m (Inr ())]"
| Take: "sb_tasks s i = Holding t c \<Longrightarrow> c_queue (sb_heap s ! c) = m # ms \<Longrightarrow>
    bus_move s (set_task i Idle c (\<lambda>ch. ch\<lparr>c_queue := ms, c_guard := None,
      c_receivers := c_receivers ch - {OfTask i}\<rparr>) s) [Received t (Inr (Some m))]"

fun_cases bus_step_SendCallE: "bus_step s (SendCall i t m) = Some r"
  and bus_step_SendPushE: "bus_step s (SendPush i) = Some r"
  and bus_step_RecvCallE: "bus_step s (RecvCall i t) = Some r"
  and bus_step_RecvLockE: "bus_step s (RecvLock i) = Some r"
  and bus_step_RecvTakeE: "bus_step s (RecvTake i) = Some r"

lemmas bus_stepE = bus_step_SendCallE bus_step_SendPushE bus_step_RecvCallE bus_step_RecvLockE
  bus_step_RecvTakeE

lemma open_ends:
  assumes "bus_ok s" and "task_channel (sb_tasks s i) = Some (t, c)"
  shows "c_senders (sb_heap s ! c) \<noteq> {}" "c_receivers (sb_heap s ! c) \<noteq> {}"
  using bus_okD(2,3) [OF assms(1) task_on_map [OF assms]] by blast+

lemma bus_step_moves:
  assumes ok: "bus_ok s" and step: "bus_step s e = Some (s', ls)"
  shows "bus_move s s' ls"
proof (cases e)
  case (SendCall i t m)
  with step show ?thesis
    by (auto simp: send_call_def keeps_channel_def intro!: Enter
        elim!: bus_stepE split: task.splits prod.splits)
next
  case (RecvCall i t)
  with step show ?thesis
    by (auto simp: recv_call_def keeps_channel_def intro!: Enter
        elim!: bus_stepE split: task.splits prod.splits)
next
  case (RecvLock i)
  with step show ?thesis
    by (auto simp: recv_lock_def intro: Lock elim!: bus_stepE split: task.splits if_splits)
next
  case (SendPush i)
  with step open_ends(2) [OF ok, of i] show ?thesis
    by (auto simp: send_push_def intro: Push elim!: bus_stepE split: task.splits if_splits)
next
  case (RecvTake i)
  with step open_ends(1) [OF ok, of i] show ?thesis
    by (auto simp: recv_take_def intro: Take elim!: bus_stepE split: task.splits list.splits if_splits)
qed

lemma bus_move_refines:
  assumes "bus_move s s' ls" and "bus_ok s" and "bus_pending b = bus_queue s"
  shows "bus_ok s' \<and> (\<exists>b'. replay b ls = Some b' \<and> bus_pending b' = bus_queue s')"
  using assms
proof cases
  case (Enter t s1 c task m f i)
  from shared_channel_for_ok [OF assms(2) Enter(3)] have ok: "bus_ok s1" "sb_map s1 t = Some c"
    and same: "bus_queue s1 = bus_queue s" by simp_all
  have "bus_ok s' \<and> bus_queue s' = bus_queue s1"
    unfolding Enter(1) using Enter(4,5) bus_okD(2,3) [OF ok]
    by (intro set_task_quiet [OF ok]) (auto simp: keeps_channel_def)
  with assms(3) same show ?thesis by (simp add: Enter(2))
next
  case (Lock i t c)
  then have map: "sb_map s t = Some c" by (intro task_on_map [OF assms(2), of i]) simp
  have "bus_ok s' \<and> bus_queue s' = bus_queue s"
    unfolding Lock(1) by (rule set_task_quiet [OF assms(2) map]) (simp_all add: bus_okD [OF assms(2) map])
  with assms(3) show ?thesis by (simp add: Lock(2))
next
  case (Push i t c m)
  then have map: "sb_map s t = Some c" by (intro task_on_map [OF assms(2), of i]) simp
  have "bus_ok s' \<and> bus_queue s' = (bus_queue s)(t := bus_queue s t @ [m])"
    unfolding Push(1) using set_task_ok [OF assms(2) map, of Idle] bus_okD(2,3) [OF assms(2) map] map
    by (simp add: bus_queue_def)
  with inmem_send_replays [of b t m] assms(3) show ?thesis by (simp add: Push(2))
next
  case (Take i t c m ms)
  then have map: "sb_map s t = Some c" by (intro task_on_map [OF assms(2), of i]) simp
  have "bus_ok s' \<and> bus_queue s' = (bus_queue s)(t := ms)"
    unfolding Take(1) using set_task_ok [OF assms(2) map, of Idle] bus_okD(2,3) [OF assms(2) map]
    by simp
  moreover have "bus_pending b t = m # ms" using map Take(4) assms(3) by (simp add: bus_queue_def)
  ultimately show ?thesis using inmem_recv_replays [of b t m ms] assms(3) by (simp add: Take(2))
qed

section \<open>One receiver at a time\<close>

text \<open>A task inside \<^verbatim>\<open>guard.recv()\<close> owns its channel's mutex, so no two are inside on one topic.\<close>

definition guard_ok :: "'m shared_bus \<Rightarrow> bool" where
  "guard_ok s \<longleftrightarrow> (\<forall>i t c. sb_tasks s i = Holding t c \<longrightarrow> c_guard (sb_heap s ! c) = Some i)"

lemma guard_ok_unique:
  "guard_ok s \<Longrightarrow> sb_tasks s i = Holding t c \<Longrightarrow> sb_tasks s k = Holding u c \<Longrightarrow> i = k"
  unfolding guard_ok_def by (metis option.inject)

lemma guard_ok_set_task:
  assumes "guard_ok s" and "c < length (sb_heap s)"
    and "\<And>t. task = Holding t c \<Longrightarrow> c_guard (f (sb_heap s ! c)) = Some i"
    and "\<And>t d. task = Holding t d \<Longrightarrow> d = c"
    and "\<And>k t. k \<noteq> i \<Longrightarrow> sb_tasks s k = Holding t c \<Longrightarrow>
      c_guard (f (sb_heap s ! c)) = c_guard (sb_heap s ! c)"
  shows "guard_ok (set_task i task c f s)"
  unfolding guard_ok_def
proof (intro allI impI)
  fix k t d
  assume hold: "sb_tasks (set_task i task c f s) k = Holding t d"
  show "c_guard (sb_heap (set_task i task c f s) ! d) = Some k"
  proof (cases "k = i")
    case True
    with hold assms(2-4) show ?thesis by (auto simp: set_task_def nth_list_update)
  next
    case False
    with hold have old: "sb_tasks s k = Holding t d" by (simp add: set_task_def)
    with assms(1) have "c_guard (sb_heap s ! d) = Some k" by (simp add: guard_ok_def)
    with old assms(2,5) False show ?thesis by (auto simp: set_task_def nth_list_update)
  qed
qed

lemma guard_ok_channel_for:
  assumes "bus_ok s" and "guard_ok s" and "shared_channel_for s t = (s', c)"
  shows "guard_ok s'"
  unfolding guard_ok_def
proof (intro allI impI)
  fix i u d
  assume "sb_tasks s' i = Holding u d"
  with assms(3) have hold: "sb_tasks s i = Holding u d"
    by (auto simp: shared_channel_for_def split: option.splits)
  then have "sb_map s u = Some d" by (intro task_on_map [OF assms(1), of i]) simp
  from bus_okD(1) [OF assms(1) this] hold assms(2,3) show "c_guard (sb_heap s' ! d) = Some i"
    by (auto simp: shared_channel_for_def guard_ok_def nth_append split: option.splits)
qed

lemma guard_ok_move:
  assumes "bus_move s s' ls" and "bus_ok s" and "guard_ok s"
  shows "guard_ok s'"
  using assms(1)
proof cases
  case (Enter t s1 c task m f i)
  from shared_channel_for_ok [OF assms(2) Enter(3)] have "bus_ok s1" "sb_map s1 t = Some c" by simp_all
  from bus_okD(1) [OF this] guard_ok_channel_for [OF assms(2,3) Enter(3)] Enter(4,5) show ?thesis
    unfolding Enter(1) by (intro guard_ok_set_task) (auto simp: keeps_channel_def)
next
  case (Lock i t c)
  then have "sb_map s t = Some c" by (intro task_on_map [OF assms(2), of i]) simp
  from bus_okD(1) [OF assms(2) this] Lock(4) assms(3) show ?thesis
    unfolding Lock(1) by (intro guard_ok_set_task) (auto simp: guard_ok_def)
next
  case (Push i t c m)
  then have "sb_map s t = Some c" by (intro task_on_map [OF assms(2), of i]) simp
  from bus_okD(1) [OF assms(2) this] assms(3) show ?thesis
    unfolding Push(1) by (intro guard_ok_set_task) simp_all
next
  case (Take i t c m ms)
  then have "sb_map s t = Some c" by (intro task_on_map [OF assms(2), of i]) simp
  moreover have "k = i" if "sb_tasks s k = Holding u c" for k u
    by (rule guard_ok_unique [OF assms(3) that Take(3)])
  ultimately show ?thesis
    unfolding Take(1) using bus_okD(1) [OF assms(2)] assms(3) by (intro guard_ok_set_task) auto
qed

section \<open>Runs\<close>

lemma bus_run_refines:
  "bus_run s es = Some (s', ls) \<Longrightarrow> bus_ok s \<Longrightarrow> guard_ok s \<Longrightarrow> bus_pending b = bus_queue s \<Longrightarrow>
   bus_ok s' \<and> guard_ok s' \<and> (\<exists>b'. replay b ls = Some b' \<and> bus_pending b' = bus_queue s')"
proof (induction es arbitrary: s ls b)
  case (Cons e es)
  from Cons.prems(1) obtain s1 l1 ls1 where step: "bus_step s e = Some (s1, l1)"
    and rest: "bus_run s1 es = Some (s', ls1)" and ls: "ls = l1 @ ls1"
    by (auto split: option.splits)
  note move = bus_step_moves [OF Cons.prems(2) step]
  from bus_move_refines [OF move Cons.prems(2,4)] obtain b1 where
    "bus_ok s1" "replay b l1 = Some b1" "bus_pending b1 = bus_queue s1" by blast
  with Cons.IH [OF rest, of b1] guard_ok_move [OF move Cons.prems(2,3)] show ?case
    by (simp add: ls replay_append)
qed auto

lemma guard_ok_new: "guard_ok bus_new"
  by (simp add: guard_ok_def bus_new_def)

text \<open>What a replayed history says: nothing failed, nothing was reported closed, and on every topic the
  messages received, followed by those pending, are the messages sent.\<close>

fun sent_in :: "string \<Rightarrow> 'm call_log list \<Rightarrow> 'm list" where
  "sent_in t [] = []"
| "sent_in t (Sent t' m _ # ls) = (if t' = t then m # sent_in t ls else sent_in t ls)"
| "sent_in t (Received _ _ # ls) = sent_in t ls"

fun received_in :: "string \<Rightarrow> 'm call_log list \<Rightarrow> 'm list" where
  "received_in t [] = []"
| "received_in t (Received t' (Inr (Some m)) # ls) =
    (if t' = t then m # received_in t ls else received_in t ls)"
| "received_in t (_ # ls) = received_in t ls"

fun call_fine :: "'m call_log \<Rightarrow> bool" where
  "call_fine (Sent _ _ r) \<longleftrightarrow> r = Inr ()"
| "call_fine (Received _ r) \<longleftrightarrow> (\<exists>m. r = Inr (Some m))"

lemma replay_Cons: "replay b (l # ls) = Option.bind (replay b [l]) (\<lambda>b'. replay b' ls)"
  using replay_append [of b "[l]" ls] by simp

lemma replay_delivers:
  "replay b ls = Some b' \<Longrightarrow>
   list_all call_fine ls \<and> bus_pending b t @ sent_in t ls = received_in t ls @ bus_pending b' t"
proof (induction ls arbitrary: b)
  case (Cons l ls)
  then obtain b1 where step: "replay b [l] = Some b1" and rest: "replay b1 ls = Some b'"
    by (subst (asm) (2) replay_Cons) (auto simp: bind_eq_Some_conv)
  note IH = Cons.IH [OF rest]
  show ?case
  proof (cases l)
    case (Sent t' m r)
    obtain b2 r2 where send: "inmem_send b t' m = (b2, r2)" by (rule prod.exhaust)
    then have "r2 = Inr ()" by (auto simp: inmem_send_def split: prod.splits)
    with step send Sent have "r = Inr ()" "b1 = b2" by (auto split: if_splits)
    with inmem.send_pending [OF send, of t] IH Sent show ?thesis by auto
  next
    case (Received t' r)
    obtain b2 out where recv: "inmem_recv b t' = (b2, out)" by (rule prod.exhaust)
    with step Received have "out = Ready r" "b1 = b2" by (auto split: if_splits)
    with inmem.recv_pending [OF recv] obtain m ms where "bus_pending b t' = m # ms"
      "r = Inr (Some m)" "bus_pending b1 = (bus_pending b)(t' := ms)"
      by (auto split: list.splits)
    with IH Received show ?thesis by auto
  qed
qed simp

text \<open>Who can wait: a call in \<^verbatim>\<open>send\<close> always completes; one in \<^verbatim>\<open>recv\<close> that holds the guard completes
  exactly when a message is pending.\<close>

lemma send_push_enabled: "sb_tasks s i = Sending t c m \<Longrightarrow> bus_step s (SendPush i) \<noteq> None"
  by (simp add: send_push_def)

lemma recv_take_enabled:
  assumes "bus_ok s" and "sb_tasks s i = Holding t c"
  shows "bus_step s (RecvTake i) \<noteq> None \<longleftrightarrow> bus_queue s t \<noteq> []"
proof -
  have map: "sb_map s t = Some c" by (rule task_on_map [OF assms(1), of i]) (simp add: assms(2))
  from bus_okD(2) [OF assms(1) map] have "c_senders (sb_heap s ! c) \<noteq> {}" by blast
  with map assms(2) show ?thesis
    by (auto simp: recv_take_def bus_queue_def split: list.splits)
qed

lemma one_holder:
  assumes "bus_ok s" and "guard_ok s"
    and "sb_tasks s i = Holding t c" and "sb_tasks s k = Holding t d"
  shows "i = k"
proof -
  have "sb_map s t = Some c" by (rule task_on_map [OF assms(1), of i]) (simp add: assms(3))
  moreover have "sb_map s t = Some d" by (rule task_on_map [OF assms(1), of k]) (simp add: assms(4))
  ultimately have "c = d" by simp
  with assms(3,4) show ?thesis by (auto intro: guard_ok_unique [OF assms(2)])
qed

end
