(* ===== verification/HostProperties.thy ===== *)
theory HostProperties
  imports Samples CuBench SharedBus
begin

text \<open>
  Properties of the host side: proving and its errors, synthetic requests, the wire codecs and
  transports, the sequencer client, the command line and the benchmark's encoders.
\<close>

section \<open>Proving\<close>

text \<open>Claim C31: checked proving either returns the proof or names the cause. With a working prover a
  true request yields a receipt that verifies to the expected journal, and a false one yields
  \<open>StatementFalse\<close> with the message of exactly the assertion that failed: the path, when the path
  does not anchor, and the balance otherwise.\<close>

theorem proving_succeeds_or_explains:
  assumes "prover_ok H P Z ID req Composite"
  shows "if request_true H req
    then (\<exists>r. prove_checked H P Z req = Inr \<lparr>pf_receipt = r, pf_journal = journal_stub H req\<rparr>
      \<and> verify_receipt Z ID r = Inr (journal_stub H req))
    else prove_checked H P Z req = Inl (StatementFalse (panic_message
      (if witness_root H (request_inputs req) \<noteq> q_merkle_root req
       then MerklePathDoesNotAnchor else BalanceBelowThreshold)))"
proof (cases "request_true H req")
  case True
  with prove_true [OF assms True] show ?thesis
    by (auto simp: prove_checked_def prove_def)
next
  case False
  let ?p = "if witness_root H (request_inputs req) \<noteq> q_merkle_root req
       then MerklePathDoesNotAnchor else BalanceBelowThreshold"
  have "guest_main H (request_inputs req) (journal_stub H req) = Inl ?p"
    using False by (auto simp: guest_main_stub request_true_def not_le)
  from prove_false [OF assms this] obtain msg where
    "prove_with_kind H P Z req Composite = Inl msg"
    "\<And>p'. str_contains msg (panic_message p') \<longleftrightarrow> p' = ?p" by blast
  then show ?thesis
    using False classify_panic [of msg ?p] by (simp add: prove_checked_def prove_def)
qed

theorem proving_succeeds_or_explains_witness:
  "let req = (sample_request (arr_rep 4))\<lparr>q_threshold := 3000000\<rparr> in
   if request_true sample_hash req
   then (\<exists>r. prove_checked sample_hash (sample_prover sample_hash) (sample_zkvm sample_hash) req
          = Inr \<lparr>pf_receipt = r, pf_journal = journal_stub sample_hash req\<rparr>
      \<and> verify_receipt (sample_zkvm sample_hash) sample_id r = Inr (journal_stub sample_hash req))
   else prove_checked sample_hash (sample_prover sample_hash) (sample_zkvm sample_hash) req
      = Inl (StatementFalse (panic_message
          (if witness_root sample_hash (request_inputs req) \<noteq> q_merkle_root req
           then MerklePathDoesNotAnchor else BalanceBelowThreshold)))"
  unfolding Let_def by (rule proving_succeeds_or_explains [OF sample_prover_ok])

text \<open>A synthetic request attests whatever balance it declares. For every fixture, of any
  depth and index, the guest commits the journal exactly when the declared balance reaches the
  threshold; the root is the prover's own, which is why a gate has to compare it with the chain's.\<close>

lemma synthetic_request_attests:
  "guest_main H (request_inputs (into_request H d)) (journal_stub H (into_request H d)) =
    (if d_threshold d \<le> d_balance d then Inr (journal_stub H (into_request H d))
     else Inl BalanceBelowThreshold)"
  by (auto simp: guest_main_stub into_request_root)

section \<open>Wire formats and transports\<close>

text \<open>Claim C32: the transport's own base64 decoder inverts its encoder on every byte string, padding
  cases included, and the encoder emits only alphabet characters and padding.\<close>

theorem base64_roundtrip:
  "b64_decode dbg (b64_encode bs) = Inr bs
   \<and> set (b64_encode bs) \<subseteq> insert (CHR ''='') (set b64_table)"
proof
  have "set (b64_chunk c) \<subseteq> insert (CHR ''='') (set b64_table)" for c
    using sextet_less by (auto simp: b64_chunk_def b64_symbol_def Let_def intro!: nth_mem)
  then show "set (b64_encode bs) \<subseteq> insert (CHR ''='') (set b64_table)"
    unfolding b64_encode_def by auto
qed (rule b64_decode_encode)

text \<open>Claim C33: what is sent over Waku is what is received. If posting an envelope succeeded and the
  node's first pending message carries the posted body, polling any topic it is listed under returns
  the original envelope; two topics never share a poll URL.\<close>

theorem waku_delivers:
  assumes "bincode_ok B" and "encode_envelope B e = Inr bs"
    and "get_messages N (endpoint @ ''/relay/v1/auto/messages/'' @ encode_topic topic)
      = Inr (Inr (v # rest))"
    and "carries N v (message_body bs sent_topic)"
  shows "waku_recv N B dbg endpoint topic = Inr (Some e)
    \<and> (encode_topic topic = encode_topic topic' \<longleftrightarrow> topic = topic')"
proof
  show "waku_recv N B dbg endpoint topic = Inr (Some e)" using assms by (rule waku_recv_posted)
  show "encode_topic topic = encode_topic topic' \<longleftrightarrow> topic = topic'"
    by (metis percent_decode_encode)
qed

definition sample_bincode :: "bytes bincode" where
  "sample_bincode = \<lparr>receipt_to_vec = Inr,
     envelope_to_vec = (\<lambda>e. if length (e_presenter_signature_der e) = 1 \<and> e_app_meta e = []
        then Inr (elems (e_challenge_nonce e) @ e_presenter_signature_der e @ e_receipt e)
        else Inl ''unsupported''),
     envelope_from_slice = (\<lambda>bs. Inr (\<lparr>e_receipt = drop 33 bs, e_challenge_nonce = arr_of (take 32 bs),
        e_presenter_signature_der = take 1 (drop 32 bs), e_app_meta = []\<rparr>, length bs))\<rparr>"

definition sample_envelope :: "bytes CredentialEnvelope" where
  "sample_envelope = \<lparr>e_receipt = [1, 2], e_challenge_nonce = arr_rep 9,
     e_presenter_signature_der = [48], e_app_meta = []\<rparr>"

definition sample_node :: "jvalue waku_node" where
  "sample_node = \<lparr>post_message = (\<lambda>_ _. Inr ()), post_topics = (\<lambda>_ _. Inr ()),
     delete_topics = (\<lambda>_ _. Inr ()),
     get_messages = (\<lambda>_. Inr (Inr [JStr (b64_encode (replicate 32 9 @ [48, 1, 2]))])),
     get_info = (\<lambda>_. Inr (Inr JNull)), json_get = (\<lambda>v _. Some v), json_item = (\<lambda>_ _. None),
     json_str = (\<lambda>v. case v of JStr t \<Rightarrow> Some t | _ \<Rightarrow> None)\<rparr>"

lemma sample_bincode_ok: "bincode_ok sample_bincode"
  unfolding bincode_ok_def
proof (intro allI impI)
  fix e :: "bytes CredentialEnvelope" and bs
  assume "envelope_to_vec sample_bincode e = Inr bs"
  then have "length (e_presenter_signature_der e) = 1" "e_app_meta e = []"
    and bs: "bs = elems (e_challenge_nonce e) @ e_presenter_signature_der e @ e_receipt e"
    by (auto simp: sample_bincode_def split: if_splits)
  then have "\<lparr>e_receipt = drop 33 bs, e_challenge_nonce = arr_of (take 32 bs),
      e_presenter_signature_der = take 1 (drop 32 bs), e_app_meta = []\<rparr> = e"
    by (intro CredentialEnvelope.equality) simp_all
  then show "\<exists>n. envelope_from_slice sample_bincode bs = Inr (e, n)"
    by (simp add: sample_bincode_def)
qed

theorem waku_delivers_witness:
  "waku_recv sample_node sample_bincode (\<lambda>c. [c]) ''http://n'' ''/t'' = Inr (Some sample_envelope)
    \<and> (encode_topic ''/t'' = encode_topic ''/u'' \<longleftrightarrow> ''/t'' = ''/u'')"
proof (rule waku_delivers [OF sample_bincode_ok])
  show "encode_envelope sample_bincode sample_envelope = Inr (replicate 32 9 @ [48, 1, 2])"
    by (simp add: encode_envelope_def sample_bincode_def sample_envelope_def)
  show "get_messages sample_node (''http://n'' @ ''/relay/v1/auto/messages/'' @ encode_topic ''/t'')
      = Inr (Inr (JStr (b64_encode (replicate 32 9 @ [48, 1, 2])) # []))"
    by (simp add: sample_node_def)
  show "carries sample_node (JStr (b64_encode (replicate 32 9 @ [48, 1, 2])))
      (message_body (replicate 32 9 @ [48, 1, 2]) ''/t'')"
    by (simp add: carries_def sample_node_def message_body_def)
qed

text \<open>Claim C40: what an envelope's fingerprint stands for. Equal fingerprints mean equal challenge nonces
  and equal concatenations of signature, metadata and encoded receipt, unless the two messages
  collide; no more, because the parts are hashed without their lengths: every envelope with
  metadata has a different one with the same receipt and nonce and the same fingerprint.\<close>

theorem fingerprint_binds_concatenation:
  assumes "receipt_to_vec B (e_receipt e) = Inr r" and "receipt_to_vec B (e_receipt e') = Inr r'"
  shows "(fingerprint H B e = fingerprint H B e' \<longrightarrow>
      (e_challenge_nonce e = e_challenge_nonce e'
        \<and> e_presenter_signature_der e @ e_app_meta e @ r = e_presenter_signature_der e' @ e_app_meta e' @ r')
      \<or> (\<exists>m m'. fingerprint_bytes B e = Some m \<and> fingerprint_bytes B e' = Some m' \<and> collision H m m'))
    \<and> (e_app_meta e \<noteq> [] \<longrightarrow> (\<exists>e''. e'' \<noteq> e \<and> e_receipt e'' = e_receipt e
        \<and> e_challenge_nonce e'' = e_challenge_nonce e \<and> fingerprint H B e'' = fingerprint H B e))"
proof (intro conjI impI)
  let ?m = "\<lambda>e r. bytes_of ''/lp-0005/v0.1/EnvelopeFingerprint/'' @ elems (e_challenge_nonce e)
    @ e_presenter_signature_der e @ e_app_meta e @ r"
  have m: "fingerprint_bytes B e = Some (?m e r)" "fingerprint_bytes B e' = Some (?m e' r')"
    by (simp_all add: fingerprint_bytes_def assms)
  assume "fingerprint H B e = fingerprint H B e'"
  then have "H (?m e r) = H (?m e' r')" by (simp add: fingerprint_def m)
  from hash_eqD [of H, OF this] show "(e_challenge_nonce e = e_challenge_nonce e'
        \<and> e_presenter_signature_der e @ e_app_meta e @ r = e_presenter_signature_der e' @ e_app_meta e' @ r')
      \<or> (\<exists>m m'. fingerprint_bytes B e = Some m \<and> fingerprint_bytes B e' = Some m' \<and> collision H m m')"
    using m by auto
next
  assume "e_app_meta e \<noteq> []"
  then obtain b bs where meta: "e_app_meta e = b # bs" by (cases "e_app_meta e") auto
  let ?e = "e\<lparr>e_presenter_signature_der := e_presenter_signature_der e @ [b], e_app_meta := bs\<rparr>"
  have "?e \<noteq> e" using meta by (auto dest: arg_cong [where f = e_app_meta])
  moreover have "fingerprint H B ?e = fingerprint H B e"
    by (simp add: fingerprint_def fingerprint_bytes_def meta assms(1))
  ultimately show "\<exists>e''. e'' \<noteq> e \<and> e_receipt e'' = e_receipt e
      \<and> e_challenge_nonce e'' = e_challenge_nonce e \<and> fingerprint H B e'' = fingerprint H B e"
    by (intro exI [of _ ?e]) simp
qed

theorem fingerprint_binds_concatenation_witness:
  "\<exists>e''. e'' \<noteq> sample_envelope\<lparr>e_app_meta := [7]\<rparr>
     \<and> fingerprint sample_hash sample_bincode e''
        = fingerprint sample_hash sample_bincode (sample_envelope\<lparr>e_app_meta := [7]\<rparr>)"
  using fingerprint_binds_concatenation [of sample_bincode "sample_envelope\<lparr>e_app_meta := [7]\<rparr>" "[1, 2]"
      sample_envelope "[1, 2]" sample_hash]
  by (auto simp: sample_bincode_def sample_envelope_def)

text \<open>One call at a time, the in-process bus delivers every topic in order and in isolation, then blocks.\<close>

lemma inmem_in_order:
  "snd (recv_n inmem_recv t (length (sent_on t msgs)) (send_all inmem_send Map.empty msgs))
     = map (\<lambda>m. Ready (Inr (Some m))) (sent_on t msgs)
   \<and> snd (inmem_recv (fst (recv_n inmem_recv t (length (sent_on t msgs))
        (send_all inmem_send Map.empty msgs))) t) = Blocked"
proof
  have empty: "bus_pending Map.empty t = []" by (simp add: bus_pending_def)
  then show "snd (recv_n inmem_recv t (length (sent_on t msgs)) (send_all inmem_send Map.empty msgs))
     = map (\<lambda>m. Ready (Inr (Some m))) (sent_on t msgs)"
    by (rule inmem.delivered_in_order)
  have "bus_pending (send_all inmem_send Map.empty msgs) t = sent_on t msgs"
    using empty by (simp add: inmem.pending_send_all sent_on_def)
  then show "snd (inmem_recv (fst (recv_n inmem_recv t (length (sent_on t msgs))
        (send_all inmem_send Map.empty msgs))) t) = Blocked"
    by (intro inmem.empty_blocks) (simp add: inmem.recv_n_pending)
qed

text \<open>Claim C34: the in-process bus under concurrent callers. Whatever the interleaving of the steps of any
  number of tasks, the completed calls are a sequential history of \<open>inmem_send\<close> and \<open>inmem_recv\<close> that
  ends with the pending messages; no call failed or reported a closed topic, and each topic's messages
  were received once, in the order sent. A call in \<^verbatim>\<open>send\<close> can always complete, one inside \<^verbatim>\<open>recv\<close>
  exactly when a message is pending, and at most one is inside per topic.\<close>

theorem shared_bus_linearizable:
  assumes "bus_run bus_new schedule = Some (s, log)"
  shows "(\<exists>b. replay Map.empty log = Some b \<and> bus_pending b = bus_queue s)
    \<and> list_all call_fine log \<and> sent_in t log = received_in t log @ bus_queue s t
    \<and> (\<forall>i c m. sb_tasks s i = Sending t c m \<longrightarrow> bus_step s (SendPush i) \<noteq> None)
    \<and> (\<forall>i c. sb_tasks s i = Holding t c \<longrightarrow> (bus_step s (RecvTake i) \<noteq> None \<longleftrightarrow> bus_queue s t \<noteq> []))
    \<and> (\<forall>i k c d. sb_tasks s i = Holding t c \<longrightarrow> sb_tasks s k = Holding t d \<longrightarrow> i = k)"
proof -
  have empty: "bus_pending Map.empty = bus_queue bus_new"
    by (simp add: bus_pending_def bus_ok_new fun_eq_iff)
  from bus_run_refines [OF assms bus_ok_new(1) guard_ok_new empty] obtain b where
    ok: "bus_ok s" "guard_ok s" and run: "replay Map.empty log = Some b" "bus_pending b = bus_queue s"
    by blast
  from replay_delivers [OF run(1), of t] run(2)
  have "list_all call_fine log \<and> sent_in t log = received_in t log @ bus_queue s t"
    by (simp add: empty bus_ok_new)
  then show ?thesis
    using run send_push_enabled [of s] recv_take_enabled [OF ok(1)] one_holder [OF ok] by blast
qed

definition sample_schedule :: "string bus_event list" where
  "sample_schedule = [RecvCall 3 ''t'', SendCall 1 ''t'' ''a'', SendCall 2 ''t'' ''b'', SendPush 2,
     RecvLock 3, SendPush 1, RecvTake 3, SendCall 2 ''u'' ''c'']"

theorem shared_bus_linearizable_witness:
  "\<exists>s. bus_run bus_new sample_schedule
      = Some (s, [Sent ''t'' ''b'' (Inr ()), Sent ''t'' ''a'' (Inr ()), Received ''t'' (Inr (Some ''b''))])
    \<and> sent_in ''t'' [Sent ''t'' ''b'' (Inr ()), Sent ''t'' ''a'' (Inr ()),
         Received ''t'' (Inr (Some ''b''))] = [''b''] @ bus_queue s ''t''"
proof -
  obtain s where run: "bus_run bus_new sample_schedule = Some (s, [Sent ''t'' ''b'' (Inr ()),
      Sent ''t'' ''a'' (Inr ()), Received ''t'' (Inr (Some ''b''))])"
    by (simp add: sample_schedule_def bus_new_def send_call_def recv_call_def send_push_def recv_lock_def
        recv_take_def shared_channel_for_def set_task_def new_channel_def)
  with shared_bus_linearizable [OF run, of "''t''"] show ?thesis by auto
qed

section \<open>The sequencer client\<close>

text \<open>Claim C30: the client decodes the sequencer's tuple encoding of a membership proof, siblings as
  arrays of byte values, to the proof that was encoded.\<close>

theorem membership_proof_roundtrip:
  assumes "json_ok J"
  shows "decode_proof_tuple J hex (encode_proof J p) = Inr p"
  using assms by (rule decode_encode_proof)

theorem membership_proof_roundtrip_witness:
  "decode_proof_tuple sample_json Inl
     (encode_proof sample_json \<lparr>m_leaf_index = 3, m_siblings = [arr_rep 170, arr_rep 187]\<rparr>)
   = Inr \<lparr>m_leaf_index = 3, m_siblings = [arr_rep 170, arr_rep 187]\<rparr>"
  by (rule membership_proof_roundtrip [OF sample_json_ok])

text \<open>The freshness check is exact. Against a sequencer that holds a ledger and answers for a
  commitment of it, \<open>is_root_current\<close> never errs and is true of the ledger's root and of no other
  value; the client's fold is the circuit's.\<close>

lemma root_check_exact:
  assumes "json_ok J" and "sequencer_holds H J C endpoint t known"
  shows "is_root_current H J C hex endpoint root known = Inr (root = ledger_root H t)
    \<and> fold_membership_proof H known p
      = fold_merkle_path H (leaf_hash_of H known) (m_leaf_index p) (m_siblings p)"
  using is_root_current_honest [OF assms] fold_membership_is_path by blast

section \<open>The command line\<close>

text \<open>Claim C35: the documented session works from an empty start. \<open>keygen\<close> writes a key file; \<open>prove\<close>
  for a balance below the threshold prints which assertion failed and writes nothing; otherwise it
  writes a credential for which the signature \<open>sign-challenge\<close> prints for the verifier's
  \<open>challenge\<close> makes \<open>verify\<close> accept, for the context string of \<open>prove\<close> and any floor up to the
  threshold, the self-contained \<open>verify\<close> accepts too, and the flags \<open>gated-check-args\<close> prints for the
  same challenge read as arguments that the shallow gate accepts from any account.\<close>

theorem cli_session:
  assumes "signer_ok E S"
    and "prover_ok H P Z ID (cli_request H pk balance threshold ctx) (if snark then Groth16 else Composite)"
    and "hex_ok V"
    and "key_file_ok V" and "receipt_file_ok V" and "two_files V key cred"
    and "presenter_from_bytes S seed = Some sk" and "presenter_public S sk = Some pk"
    and "floor \<le> threshold"
  shows "let main = cli_main H E S P Z ID V in \<exists>d1 d2 n printed flags args.
    main seed (Keygen key) d = (d1, Inr (PublicKey (hex_enc V (elems pk))))
    \<and> (if balance < threshold
       then main ra (Prove key balance threshold ctx snark cred) d1
         = (d1, Inl (ProveFailed (StatementFalse ''balance is below the attested threshold'')))
       else
         let j = journal_stub H (cli_request H pk balance threshold ctx);
             nonce_hex = hex_enc V (elems nonce)
         in main ra (Prove key balance threshold ctx snark cred) d1
              = (d2, Inr (Wrote n (hex_enc V (elems (j_nullifier j)))))
          \<and> main nonce Challenge d2 = (d2, Inr (Text nonce_hex))
          \<and> main rb (SignChallenge cred key nonce_hex) d2 = (d2, Inr (Text printed))
          \<and> main rc (Verify cred ctx floor (Some nonce_hex) (Some printed) None) d2
              = (d2, Inr (Verified j))
          \<and> main rd (Verify cred ctx floor None None (Some key)) d2 = (d2, Inr (Verified j))
          \<and> main re (GatedCheckArgs cred key ctx floor nonce_hex) d2 = (d2, Inr (Flags flags))
          \<and> read_gate_flags V flags = Some args
          \<and> shallow_gated_check H E p args = Inr \<lparr>so_accounts = [am_account p], so_chained = []\<rparr>)"
proof -
  let ?req = "cli_request H pk balance threshold ctx"
  let ?j = "journal_stub H ?req"
  let ?run = "if snark then prove_groth16_checked H P Z ?req else prove_checked H P Z ?req"
  obtain d1 where key: "cmd_keygen S V d seed key = (d1, Inr (hex_enc V (elems pk)))"
    and sk: "load_presenter S V d1 key = Inr sk"
    using cmd_keygen_stores [OF assms(3,4,6,7,8)] .
  show ?thesis
  proof (cases "balance < threshold")
    case True
    have "?run = Inl (StatementFalse (panic_message BalanceBelowThreshold))"
      by (rule cli_run_refused [OF assms(2) True])
    then have "cmd_prove H S P Z V d1 key balance threshold ctx snark cred
      = (d1, Inl (ProveFailed (StatementFalse ''balance is below the attested threshold'')))"
      using sk assms(8) by (simp add: cmd_prove_def Let_def)
    with True key show ?thesis by (simp add: cli_main_def Let_def)
  next
    case False
    then obtain r where run: "?run = Inr \<lparr>pf_receipt = r, pf_journal = ?j\<rparr>"
      and r: "verify_receipt Z ID r = Inr ?j"
      using cli_run_proves [OF assms(2)] by (metis not_less)
    from cmd_prove_stores [OF assms(5,6) sk assms(8) run] obtain d2 n where
      prove: "cmd_prove H S P Z V d1 key balance threshold ctx snark cred
        = (d2, Inr (n, hex_enc V (elems (j_nullifier ?j))))"
      and cred: "load_receipt V d2 cred = Inr r" and sk2: "load_presenter S V d2 key = Inr sk"
      by auto
    have j: "j_context_id ?j = context_id_from H ctx" "j_threshold ?j = threshold"
      "j_presenter_pubkey ?j = pk" by (simp_all add: cli_request_fixture cli_fixture_def)
    show ?thesis
      using False key prove assms(8,9) j
        cli_presents [OF assms(3,1) sk2 cred r _ _ _ refl, where ctx = ctx and floor = floor]
      by (simp add: cli_main_def cmd_challenge_def Let_def)
  qed
qed

text \<open>A command-line environment for the example: hexadecimal as one character pair per byte.\<close>

definition sample_hex :: "bytes \<Rightarrow> string" where
  "sample_hex bs = concat (map (\<lambda>b. [hex_digit_upper (unat b div 16), hex_digit_upper (unat b mod 16)]) bs)"

fun sample_unhex :: "string \<Rightarrow> string + bytes" where
  "sample_unhex (h # l # s) = rbind (sample_unhex s) (\<lambda>bs. Inr (of_nat (16 * hexval h + hexval l) # bs))"
| "sample_unhex [] = Inr []"
| "sample_unhex [c] = Inl ''odd length''"

type_synonym sample_disk = "string \<Rightarrow> bytes option"

text \<open>Its receipts are the journals themselves, with the journal's fields in order as the file format.\<close>

definition journal_zkvm :: "PublicJournal zkvm" where
  "journal_zkvm = \<lparr>receipt_verify = (\<lambda>_ _. Inr ()), journal_decode = Inr\<rparr>"

definition journal_prover :: "sha \<Rightarrow> (PrivateInputs \<times> PublicJournal, PublicJournal) prover" where
  "journal_prover H = \<lparr>env_build = (\<lambda>w j. Inr (w, j)),
     prove_with_opts = (\<lambda>(w, j) _. map_err sample_failure (guest_main H w j))\<rparr>"

lemma journal_prover_ok: "prover_ok H (journal_prover H) journal_zkvm ID req kind"
  unfolding prover_ok_def
  by (auto simp: journal_prover_def journal_zkvm_def sample_messages split: sum.splits)

definition journal_file :: "PublicJournal \<Rightarrow> bytes" where
  "journal_file j = elems (j_merkle_root j) @ u128_le (j_threshold j) @ elems (j_context_id j)
     @ elems (j_presenter_pubkey j) @ elems (j_nullifier j)"

definition read_journal_file :: "bytes \<Rightarrow> PublicJournal" where
  "read_journal_file bs = \<lparr>j_merkle_root = arr_of (take 32 bs), j_threshold = from_le (take 16 (drop 32 bs)),
     j_context_id = arr_of (take 32 (drop 48 bs)), j_presenter_pubkey = arr_of (take 33 (drop 80 bs)),
     j_nullifier = arr_of (drop 113 bs)\<rparr>"

lemma read_journal_file: "read_journal_file (journal_file j) = j"
  by (rule PublicJournal.equality) (simp_all add: read_journal_file_def journal_file_def)

definition sample_cli_env :: "(sample_disk, PublicJournal) cli_env" where
  "sample_cli_env = \<lparr>fs_read = (\<lambda>d p. ok_or ''no such file'' (d p)),
     fs_write = (\<lambda>d p bs. (d(p \<mapsto> bs), Inr ())),
     secret_json = (\<lambda>secret public. Inr (bytes_of secret)),
     json_secret_hex = (\<lambda>bs. Inr (Some (map (\<lambda>b. char_of (unat b)) bs))), journal_text = (\<lambda>_. Inr []),
     hex_dec = sample_unhex, hex_enc = sample_hex, receipt_to_slice = (\<lambda>r. Inr (journal_file r)),
     receipt_from_slice = (\<lambda>bs. Inr (read_journal_file bs, length bs))\<rparr>"

lemma sample_unhex_hex: "sample_unhex (sample_hex bs) = Inr bs"
proof (induction bs)
  case (Cons b bs)
  have "unat b < 2 ^ LENGTH(8)" by (rule unsigned_less)
  then have "unat b div 16 < 16" by (simp add: less_mult_imp_div_less)
  with Cons show ?case by (simp add: sample_hex_def hexval_digit)
qed (simp add: sample_hex_def)

lemma hex_digit_no_space: "d < 16 \<Longrightarrow> \<not> ascii_whitespace (hex_digit_upper d)"
  by (auto simp: ascii_whitespace_def hex_digit_upper_def)

lemma trim_no_space: "\<forall>c \<in> set s. \<not> ascii_whitespace c \<Longrightarrow> trim s = s"
proof -
  assume *: "\<forall>c \<in> set s. \<not> ascii_whitespace c"
  then have "dropWhile ascii_whitespace s = s" by (cases s) simp_all
  moreover from * have "dropWhile ascii_whitespace (rev s) = rev s"
    by (cases "rev s") (auto dest: arg_cong [where f = set])
  ultimately show ?thesis by (simp add: trim_def)
qed

lemma sample_hex_clean: "\<forall>c \<in> set (sample_hex bs). \<not> ascii_whitespace c"
proof (induction bs)
  case (Cons b bs)
  have "unat b < 2 ^ LENGTH(8)" by (rule unsigned_less)
  then have "unat b div 16 < 16" by (simp add: less_mult_imp_div_less)
  with Cons show ?case by (simp add: sample_hex_def hex_digit_no_space)
qed (simp add: sample_hex_def)

lemma char_of_bytes_of: "map (\<lambda>b. char_of (unat b)) (bytes_of s) = s"
proof -
  have "char_of (unat (of_char c :: u8)) = c" for c
  proof -
    have "unat (of_nat (of_char c) :: u8) = of_char c" by (simp add: unat_of_nat)
    then show ?thesis by (simp add: of_nat_of_char)
  qed
  then show ?thesis by (simp add: bytes_of_def comp_def)
qed

lemma sample_cli_env_ok:
  "hex_ok sample_cli_env" "key_file_ok sample_cli_env" "receipt_file_ok sample_cli_env"
  "p \<noteq> q \<Longrightarrow> two_files sample_cli_env p q"
  by (simp_all add: hex_ok_def key_file_ok_def receipt_file_ok_def two_files_def sample_cli_env_def
      trim_no_space sample_hex_clean sample_unhex_hex char_of_bytes_of read_journal_file)

lemma sample_presenter_seed: "presenter_from_bytes sample_signer (arr_rep 2) = Some sample_pk"
proof -
  have "(2 :: u8) # replicate 32 2 = replicate 33 2" by (simp add: numeral_eq_Suc)
  then show ?thesis
    using arr_of_elems [of "arr_rep 2 :: b33"]
    by (simp add: presenter_from_bytes_def sample_signer_def sample_pk_def)
qed

theorem cli_session_witness:
  "let main = cli_main sample_hash sample_ecdsa sample_signer (journal_prover sample_hash)
       journal_zkvm sample_id sample_cli_env;
     j = journal_stub sample_hash (cli_request sample_hash sample_pk 1000000 100000 ''gov-v1'');
     nonce_hex = sample_hex (elems sample_nonce)
   in \<exists>d1 d2 n printed flags args.
    main (arr_rep 2) (Keygen ''key'') Map.empty = (d1, Inr (PublicKey (sample_hex (elems sample_pk))))
    \<and> main (arr_rep 0) (Prove ''key'' 1000000 100000 ''gov-v1'' True ''cred'') d1
        = (d2, Inr (Wrote n (sample_hex (elems (j_nullifier j)))))
    \<and> main sample_nonce Challenge d2 = (d2, Inr (Text nonce_hex))
    \<and> main (arr_rep 0) (SignChallenge ''cred'' ''key'' nonce_hex) d2 = (d2, Inr (Text printed))
    \<and> main (arr_rep 0) (Verify ''cred'' ''gov-v1'' 50000 (Some nonce_hex) (Some printed) None) d2
        = (d2, Inr (Verified j))
    \<and> main (arr_rep 0) (GatedCheckArgs ''cred'' ''key'' ''gov-v1'' 50000 nonce_hex) d2
        = (d2, Inr (Flags flags))
    \<and> read_gate_flags sample_cli_env flags = Some args
    \<and> shallow_gated_check sample_hash sample_ecdsa sample_presenter args
        = Inr \<lparr>so_accounts = [am_account sample_presenter], so_chained = []\<rparr>"
proof -
  have enc: "hex_enc sample_cli_env = sample_hex" by (simp add: sample_cli_env_def)
  show ?thesis
    using cli_session [where H = sample_hash and E = sample_ecdsa and S = sample_signer
        and P = "journal_prover sample_hash" and Z = journal_zkvm and ID = sample_id
        and V = sample_cli_env and key = "''key''" and cred = "''cred''" and seed = "arr_rep 2"
        and sk = sample_pk and pk = sample_pk and floor = 50000 and threshold = 100000
        and d = Map.empty and balance = 1000000 and snark = True and ctx = "''gov-v1''"
        and nonce = sample_nonce and ra = "arr_rep 0" and rb = "arr_rep 0" and rc = "arr_rep 0"
        and rd = "arr_rep 0" and re = "arr_rep 0" and p = sample_presenter]
    by (simp add: sample_signer_ok journal_prover_ok sample_cli_env_ok sample_presenter_seed
        sample_presenter_public enc Let_def)
      (elim exE conjE, intro exI conjI, assumption+)
qed

section \<open>The compute-unit benchmark\<close>

text \<open>Claim C36: the base58 encoder always returns. On 64-bit carries that could wrap, 8-bit digits that
  could truncate, a loop without a bound and an alphabet lookup that could panic, every account id
  has a text of at most 44 characters of the alphabet; the text denotes the 32 bytes as one
  big-endian number, leading zeros as leading ones, and no other account id has it.\<close>

theorem base58_returns:
  "\<exists>s. bs58_encode a = Some s \<and> b58_read s = bytes_value (elems a) \<and> length s \<le> 44
    \<and> set s \<subseteq> set b58_alphabet
    \<and> take (length (takeWhile (\<lambda>b. b = 0) (elems a))) s
        = replicate (length (takeWhile (\<lambda>b. b = 0) (elems a))) (CHR ''1'')
    \<and> (\<forall>b. bs58_encode b = Some s \<longleftrightarrow> b = a)"
  using b58_read_encode [of a] b58_text_length [of a] b58_text_inject b58_text_alphabet [of a]
    b58_text_zeros [of a]
  by (simp add: bs58_encode_refines)

text \<open>Claim C37: a reported measurement is a faithful replay. If the tool prints a report, then the binary
  it names ran under the limit of \<open>2 ^ 25\<close> cycles on its own image id, without a caller, on the
  states the sequencer returned for the dry run's accounts, in their order and authorised exactly
  when flagged as signers, and on the dry run's instruction words; the cycle counts are the exact
  sums over the segments unless these exceed 64 bits.\<close>

theorem cu_report_faithful:
  assumes "cu_main J C elf_path tx_path sequencer = Inr rep"
  shows "faithful_replay J C elf_path tx_path sequencer rep"
  using assms by (rule cu_main_replays)

text \<open>One account, fetched from a node that always answers with the same balance, and one segment.\<close>

definition sample_cu_env :: "(jvalue, cu_input) cu_env" where
  "sample_cu_env = \<lparr>cu_read = (\<lambda>_. Inr [1]),
     cu_parse_dry_run = (\<lambda>_. Inr \<lparr>dr_instruction = ''gated_check'', dr_instruction_data = ''0xda'',
        dr_accounts = [\<lparr>dr_id = ''0xac'', dr_flags = [''signer'']\<rparr>]\<rparr>),
     cu_image_id = (\<lambda>_. Inr sample_id),
     cu_hex = (\<lambda>s. Inr (if s = ''ac'' then replicate 32 7 else [1, 0, 0, 0])),
     cu_post = (\<lambda>_ _. Inr (Inr (JObj [(''result'', JNum 1000)]))),
     cu_account_from_value = (\<lambda>v. case v of
        JNum n \<Rightarrow> Inr \<lparr>ra_program_owner = sample_id, ra_balance = ucast n, ra_data = [], ra_nonce = 0\<rparr>
      | _ \<Rightarrow> Inl ''not an account''),
     cu_account_data = Inr, cu_build_env = (\<lambda>_ i. Inr i),
     cu_execute = (\<lambda>_ _. Inr [\<lparr>sg_cycles = 1000000, sg_po2 = 20\<rparr>])\<rparr>"

lemma sample_cu_run:
  "\<exists>rep. cu_main sample_json sample_cu_env ''a.bin'' ''tx.json'' ''http://s'' = Inr rep
     \<and> cr_user_cycles rep = 1000000 \<and> cr_proving_cycles rep = 2 ^ 20"
proof -
  have "try_into (replicate 32 (7 :: u8)) = Some (arr_rep 7 :: b32)" by (simp add: try_into_Some)
  then show ?thesis
    by (simp add: cu_main_def sample_cu_env_def sample_json_def decode_instruction_data_def pre_state_def
        parse_account_id_def fetch_account_def bs58_encode_refines user_cycles_def proving_cycles_def Let_def)
qed

theorem cu_report_faithful_witness:
  "\<exists>rep. faithful_replay sample_json sample_cu_env ''a.bin'' ''tx.json'' ''http://s'' rep
     \<and> cr_user_cycles rep = 1000000 \<and> cr_proving_cycles rep = 2 ^ 20"
  using sample_cu_run cu_report_faithful [of sample_json sample_cu_env "''a.bin''" "''tx.json''" "''http://s''"]
  by blast

end
