(* ===== verification/TokenGateDemo.thy ===== *)
theory TokenGateDemo
  imports ChatGate Cli WakuRest SequencerClient
begin

text \<open>
  \<^verbatim>\<open>integrations/chat-gate/examples/waku_token_gate.rs\<close>: the flow that puts the parts together. A
  candidate proves, signs the operator's challenge and publishes the envelope from one Waku node; the
  operator polls another node and admits; then three refusals are exercised. \<open>demo_main\<close> is that
  \<^verbatim>\<open>main\<close>, without the prints and sleeps (what a print evaluates and may fail on is kept); the receiving node is a function of the poll attempt, the
  key and the two nonce seeds are arguments.
\<close>

definition GROUP :: string where "GROUP = ''premium-lounge''"
definition MIN_STAKE :: u128 where "MIN_STAKE = 100000"
definition BALANCE :: u128 where "BALANCE = 1000000"

datatype DemoError = SameNode | TransportFailed TransportError | ProvingFailed string
  | ReceiptEncoding string | NothingArrived | FingerprintPanic | AdmissionFailed AdmissionError
  | PresenterKeyPanic

fun poll :: "(nat \<Rightarrow> 'v waku_node) \<Rightarrow> 'r bincode \<Rightarrow> (char \<Rightarrow> string) \<Rightarrow> string \<Rightarrow> string \<Rightarrow> nat \<Rightarrow> nat
    \<Rightarrow> TransportError + 'r CredentialEnvelope option" where
  "poll N B dbg endpoint topic 0 attempt = Inr None"
| "poll N B dbg endpoint topic (Suc tries) attempt =
     rbind (waku_recv (N attempt) B dbg endpoint topic) (\<lambda>e.
       case e of Some e \<Rightarrow> Inr (Some e)
       | None \<Rightarrow> poll N B dbg endpoint topic tries (Suc attempt))"

definition rand_nonce :: "sha \<Rightarrow> u128 \<Rightarrow> b32" where
  "rand_nonce H nanos = H (bytes_of ''/lp-0005/demo/nonce/'' @ u128_le nanos)"

definition demo_request :: "sha \<Rightarrow> b33 \<Rightarrow> b32 \<Rightarrow> u128 \<Rightarrow> ProveRequest" where
  "demo_request H public context_id balance =
    (let req = \<lparr>q_npk = arr_rep 7, q_identifier = 1, q_program_owner = arr_rep 11,
           q_balance = balance, q_nonce = 3, q_data_hash = H [], q_merkle_path = [],
           q_leaf_index = 0, q_merkle_root = arr_rep 0, q_threshold = MIN_STAKE,
           q_context_id = context_id, q_presenter_pubkey = public\<rparr>;
         (_, leaf_hash) = precompute_leaf H req;
         (path, root) = synthetic_merkle_path H leaf_hash (q_leaf_index req) 3
     in req\<lparr>q_merkle_path := path, q_merkle_root := root\<rparr>)"

definition KNOWN_COMMITMENT :: b32 where
  "KNOWN_COMMITMENT = arr_of [0x74, 0x09, 0xcd, 0x5c, 0xac, 0x88, 0xe3, 0x1f, 0xfd, 0xe8, 0x2a, 0x9e,
     0x5d, 0x4a, 0x2a, 0x8f, 0xef, 0xdd, 0x89, 0xfa, 0xca, 0x05, 0x06, 0xb2, 0x32, 0x3d, 0xd8, 0x55,
     0x5e, 0x3f, 0xd6, 0x68]"

definition check_root_freshness :: "sha \<Rightarrow> 'j json \<Rightarrow> 'j rpc \<Rightarrow> hex_decoder \<Rightarrow> b32 \<Rightarrow> ClientError + bool"
  where
  "check_root_freshness H J C hex merkle_root =
     is_root_current H J C hex (client_endpoint public_testnet) merkle_root KNOWN_COMMITMENT"

record demo_outcome =
  do_journal :: PublicJournal
  do_replay :: "AdmissionError + PublicJournal"
  do_stolen :: "AdmissionError + PublicJournal"
  do_strict :: "AdmissionError + PublicJournal"
  do_fresh :: "ClientError + bool"

text \<open>What the parts of the world are.\<close>

record ('sk, 'vk, 'sg, 'env, 'r, 'v, 'j) world =
  wd_ecdsa :: "('vk, 'sg) ecdsa"
  wd_signer :: "('sk, 'vk, 'sg) signer"
  wd_prover :: "('env, 'r) prover"
  wd_zkvm :: "'r zkvm"
  wd_image :: program_id
  wd_bincode :: "'r bincode"
  wd_dbg :: "char \<Rightarrow> string"
  wd_sender :: "'v waku_node"
  wd_receiver :: "nat \<Rightarrow> 'v waku_node"
  wd_json :: "'j json"
  wd_rpc :: "'j rpc"
  wd_hex :: hex_decoder

definition demo_admit :: "sha \<Rightarrow> ('sk, 'vk, 'sg, 'env, 'r, 'v, 'j) world \<Rightarrow> GroupRoster
    \<Rightarrow> 'r CredentialEnvelope \<Rightarrow> b32 \<Rightarrow> GroupRoster \<times> (AdmissionError + PublicJournal)" where
  "demo_admit H W roster e nonce = admit H (wd_ecdsa W) (wd_zkvm W) (wd_image W) roster
     (e_receipt e) nonce (e_presenter_signature_der e)"

definition demo_operator :: "sha \<Rightarrow> ('sk, 'vk, 'sg, 'env, 'r, 'v, 'j) world
    \<Rightarrow> 'r CredentialEnvelope \<Rightarrow> b32 \<Rightarrow> DemoError + demo_outcome" where
  "demo_operator H W received fresh_nonce =
    (case demo_admit H W (roster_new GROUP MIN_STAKE) received (e_challenge_nonce received) of
       (roster, Inl e) \<Rightarrow> Inl (AdmissionFailed e)
     | (roster, Inr journal) \<Rightarrow>
         (let replay = snd (demo_admit H W roster received (e_challenge_nonce received));
              stolen = snd (demo_admit H W (roster_new GROUP MIN_STAKE) received fresh_nonce);
              under = snd (demo_admit H W (roster_new GROUP (BALANCE + 1)) received
                        (e_challenge_nonce received));
              fresh = check_root_freshness H (wd_json W) (wd_rpc W) (wd_hex W) (j_merkle_root journal)
          in Inr \<lparr>do_journal = journal, do_replay = replay, do_stolen = stolen, do_strict = under,
               do_fresh = fresh\<rparr>))"

definition demo_main :: "sha \<Rightarrow> ('sk, 'vk, 'sg, 'env, 'r, 'v, 'j) world \<Rightarrow> string \<Rightarrow> string
    \<Rightarrow> 'sk \<Rightarrow> u128 \<Rightarrow> u128 \<Rightarrow> DemoError + demo_outcome" where
  "demo_main H W sender_url receiver_url presenter seed fresh_seed =
    (let topic = content_topic_for GROUP in
     rbind (map_err TransportFailed (health (wd_sender W) sender_url)) (\<lambda>a.
     rbind (map_err TransportFailed (health (wd_receiver W 0) receiver_url)) (\<lambda>b.
     rbind (map_err TransportFailed (health (wd_sender W) sender_url)) (\<lambda>a.
     rbind (map_err TransportFailed (health (wd_receiver W 0) receiver_url)) (\<lambda>b.
     if a = b then Inl SameNode else
     rbind (map_err TransportFailed (subscribe (wd_receiver W 0) receiver_url topic)) (\<lambda>_.
     rbind (ok_or PresenterKeyPanic (presenter_public (wd_signer W) presenter)) (\<lambda>public.
     let context_id = group_context_id H GROUP;
         req = demo_request H public context_id BALANCE
     in rbind (map_err ProvingFailed (prove_groth16 H (wd_prover W) (wd_zkvm W) req)) (\<lambda>proof.
     rbind (map_err ReceiptEncoding (receipt_to_vec (wd_bincode W) (pf_receipt proof))) (\<lambda>_.
     let nonce = rand_nonce H seed;
         signature = presenter_sign H (wd_signer W) presenter nonce (pf_journal proof);
         envelope = \<lparr>e_receipt = pf_receipt proof, e_challenge_nonce = nonce,
           e_presenter_signature_der = signature, e_app_meta = bytes_of GROUP\<rparr>
     in rbind (map_err TransportFailed
            (waku_send (wd_sender W) (wd_bincode W) sender_url topic envelope)) (\<lambda>_.
        rbind (map_err TransportFailed
            (poll (wd_receiver W) (wd_bincode W) (wd_dbg W) receiver_url topic 20 0)) (\<lambda>m.
        rbind (ok_or NothingArrived m) (\<lambda>received.
        rbind (ok_or FingerprintPanic (fingerprint H (wd_bincode W) received)) (\<lambda>_.
        demo_operator H W received (rand_nonce H fresh_seed))))))))))))))"

text \<open>How the negative cases are printed; the dash of the second text is three bytes of UTF-8.\<close>

definition expect_err :: "('e \<Rightarrow> string) \<Rightarrow> 'e + 'a \<Rightarrow> string" where
  "expect_err dbg r = (case r of Inl e \<Rightarrow> ''REFUSED ('' @ dbg e @ '')''
     | Inr _ \<Rightarrow> ''ACCEPTED '' @ [CHR 0xE2, CHR 0x80, CHR 0x94] @ '' THIS IS A BUG'')"

section \<open>The request and the poll\<close>

definition demo_fixture :: "b33 \<Rightarrow> b32 \<Rightarrow> DemoFixture" where
  "demo_fixture public ctx = \<lparr>d_npk = arr_rep 7, d_identifier = 1, d_program_owner = arr_rep 11,
     d_balance = BALANCE, d_nonce = 3, d_data_seed = [], d_leaf_index = 0, d_tree_depth = 3,
     d_threshold = MIN_STAKE, d_context_id = ctx, d_presenter_pubkey = public\<rparr>"

lemma demo_request_fixture:
  "demo_request H public ctx BALANCE = into_request H (demo_fixture public ctx)"
  by (simp add: demo_request_def into_request_def demo_fixture_def precompute_leaf_def
      synthetic_merkle_path_def Let_def)

lemma demo_request_true: "request_true H (demo_request H public ctx BALANCE)"
  by (simp add: demo_request_fixture into_request_true)
    (simp add: demo_fixture_def MIN_STAKE_def BALANCE_def)

text \<open>Polling returns the first message to show up, as long as it does within the tries.\<close>

lemma poll_first:
  assumes "\<And>i. i < k \<Longrightarrow> waku_recv (N (a + i)) B dbg endpoint topic = Inr None"
    and "waku_recv (N (a + k)) B dbg endpoint topic = Inr (Some e)" and "k < tries"
  shows "poll N B dbg endpoint topic tries a = Inr (Some e)"
  using assms
proof (induction k arbitrary: tries a)
  case 0
  then show ?case by (cases tries) simp_all
next
  case (Suc k)
  then obtain tries' where tries: "tries = Suc tries'" by (cases tries) auto
  have "poll N B dbg endpoint topic tries' (Suc a) = Inr (Some e)"
  proof (rule Suc.IH)
    show "waku_recv (N (Suc a + i)) B dbg endpoint topic = Inr None" if "i < k" for i
      using Suc.prems(1) [of "Suc i"] that by simp
    show "waku_recv (N (Suc a + k)) B dbg endpoint topic = Inr (Some e)"
      using Suc.prems(2) by simp
    show "k < tries'" using Suc.prems(3) tries by simp
  qed
  with Suc.prems(1) [of 0] show ?case by (simp add: tries)
qed

section \<open>The operator's verdicts\<close>

lemma demo_operator_verdicts:
  assumes "verify_receipt (wd_zkvm W) (wd_image W) (e_receipt e) = Inr j"
    and "j_context_id j = group_context_id H GROUP" and "j_threshold j = MIN_STAKE"
    and "presenter_signed H (wd_ecdsa W) j (e_challenge_nonce e) (e_presenter_signature_der e)"
  shows "demo_operator H W e fresh = Inr \<lparr>do_journal = j, do_replay = Inl AdmissionError.NullifierReused,
    do_stolen = map_err AdmissionError.Verify (verify_credential H (wd_ecdsa W) (wd_zkvm W) (wd_image W)
      (e_receipt e) fresh (e_presenter_signature_der e) (group_context_id H GROUP) MIN_STAKE),
    do_strict = Inl (AdmissionError.Verify VerifyError.ThresholdTooLow),
    do_fresh = check_root_freshness H (wd_json W) (wd_rpc W) (wd_hex W) (j_merkle_root j)\<rparr>"
proof -
  let ?v = "verify_credential H (wd_ecdsa W) (wd_zkvm W) (wd_image W) (e_receipt e)"
  let ?der = "e_presenter_signature_der e"
  have ok: "?v (e_challenge_nonce e) ?der (group_context_id H GROUP) MIN_STAKE = Inr j"
    using assms by (simp add: verify_credential_Inr)
  have strict: "?v (e_challenge_nonce e) ?der (group_context_id H GROUP) (BALANCE + 1)
      = Inl VerifyError.ThresholdTooLow"
    using assms(1-3) by (simp add: verify_credential_def MIN_STAKE_def BALANCE_def)
  have first_verdict: "snd (demo_admit H W (roster_new GROUP m) e nonce)
      = map_err AdmissionError.Verify (?v nonce ?der (group_context_id H GROUP) m)" for m nonce
    by (cases "?v nonce ?der (group_context_id H GROUP) m")
      (simp_all add: demo_admit_def admit_def roster_new_def btree_insert_def)
  let ?R = "\<lparr>r_group_id = GROUP, r_members = {j_presenter_pubkey j},
    r_used_nullifiers = {j_nullifier j}, r_minimum_stake = MIN_STAKE\<rparr>"
  have "demo_admit H W (roster_new GROUP MIN_STAKE) e (e_challenge_nonce e) = (?R, Inr j)"
    using ok by (simp add: demo_admit_def admit_def roster_new_def btree_insert_def)
  moreover have "demo_admit H W ?R e (e_challenge_nonce e) = (?R, Inl AdmissionError.NullifierReused)"
    using ok by (simp add: demo_admit_def admit_def btree_insert_def)
  ultimately show ?thesis
    by (simp add: demo_operator_def first_verdict strict)
qed

section \<open>The whole flow\<close>

text \<open>The network's part: the post succeeds, and the receiving node lists the posted message at the
  first poll that lists any, within the given number of tries.\<close>

definition delivers :: "'v waku_node \<Rightarrow> (nat \<Rightarrow> 'v waku_node) \<Rightarrow> 'r bincode \<Rightarrow> string \<Rightarrow> string
    \<Rightarrow> string \<Rightarrow> nat \<Rightarrow> 'r CredentialEnvelope \<Rightarrow> bool" where
  "delivers S R B sender_url receiver_url topic tries e \<longleftrightarrow>
     (\<exists>bs k v rest. encode_envelope B e = Inr bs
        \<and> post_message S (sender_url @ ''/relay/v1/auto/messages'') (message_body bs topic) = Inr ()
        \<and> k < tries
        \<and> (\<forall>i<k. get_messages (R i)
              (receiver_url @ ''/relay/v1/auto/messages/'' @ encode_topic topic) = Inr (Inr []))
        \<and> get_messages (R k) (receiver_url @ ''/relay/v1/auto/messages/'' @ encode_topic topic)
            = Inr (Inr (v # rest))
        \<and> carries (R k) v (message_body bs topic))"

lemma delivers_poll:
  assumes "bincode_ok B" and "delivers S R B sender_url receiver_url topic tries e"
  shows "waku_send S B sender_url topic e = Inr ()
    \<and> poll R B dbg receiver_url topic tries 0 = Inr (Some e)"
proof -
  from assms(2) obtain bs k v rest where enc: "encode_envelope B e = Inr bs"
    and post: "post_message S (sender_url @ ''/relay/v1/auto/messages'') (message_body bs topic) = Inr ()"
    and k: "k < tries" "\<And>i. i < k \<Longrightarrow> get_messages (R i)
        (receiver_url @ ''/relay/v1/auto/messages/'' @ encode_topic topic) = Inr (Inr [])"
    and msg: "get_messages (R k) (receiver_url @ ''/relay/v1/auto/messages/'' @ encode_topic topic)
      = Inr (Inr (v # rest))" "carries (R k) v (message_body bs topic)"
    unfolding delivers_def by blast
  have "poll R B dbg receiver_url topic tries 0 = Inr (Some e)"
  proof (rule poll_first)
    show "waku_recv (R (0 + i)) B dbg receiver_url topic = Inr None" if "i < k" for i
      using k(2) [OF that] by (simp add: waku_recv_empty)
    show "waku_recv (R (0 + k)) B dbg receiver_url topic = Inr (Some e)"
      using waku_recv_posted [OF assms(1) enc msg] by simp
  qed (rule k(1))
  with enc post show ?thesis by (simp add: waku_send_Inr)
qed

definition demo_envelope :: "sha \<Rightarrow> ('sk, 'vk, 'sg, 'env, 'r, 'v, 'j) world \<Rightarrow> 'sk \<Rightarrow> u128
    \<Rightarrow> 'r AttestationProof \<Rightarrow> 'r CredentialEnvelope" where
  "demo_envelope H W presenter seed pf = \<lparr>e_receipt = pf_receipt pf,
     e_challenge_nonce = rand_nonce H seed,
     e_presenter_signature_der =
       presenter_sign H (wd_signer W) presenter (rand_nonce H seed) (pf_journal pf),
     e_app_meta = bytes_of GROUP\<rparr>"

lemma demo_main_reaches_operator:
  assumes "health (wd_sender W) sender_url = Inr a" and "health (wd_receiver W 0) receiver_url = Inr b"
    and "a \<noteq> b" and "subscribe (wd_receiver W 0) receiver_url (content_topic_for GROUP) = Inr ()"
    and "presenter_public (wd_signer W) sk = Some pk"
    and "prove_groth16 H (wd_prover W) (wd_zkvm W) (demo_request H pk (group_context_id H GROUP) BALANCE)
      = Inr pf"
    and "bincode_ok (wd_bincode W)"
    and "delivers (wd_sender W) (wd_receiver W) (wd_bincode W) sender_url receiver_url
      (content_topic_for GROUP) 20 (demo_envelope H W sk seed pf)"
    and "receipt_to_vec (wd_bincode W) (pf_receipt pf) = Inr receipt_bytes"
  shows "demo_main H W sender_url receiver_url sk seed fresh_seed
    = demo_operator H W (demo_envelope H W sk seed pf) (rand_nonce H fresh_seed)"
  using assms(1-6,9) delivers_poll [OF assms(7,8), of "wd_dbg W"]
  by (simp add: demo_main_def demo_envelope_def fingerprint_def fingerprint_bytes_def Let_def)

end
