(* ===== verification/Spec2Isabelle.thy ===== *)
theory Spec2Isabelle
  imports Sha256 ChainVectors SignatureSuite HostSuite GateSuite ChainProperties HistoryProperties Admissions CredentialProperties GateProperties IntegrationProperties HostProperties TokenGateDemo
begin

text \<open>
  Private balance attestation (LP-0005): a verification library for the Rust crates under
  \<^verbatim>\<open>crates/\<close> and \<^verbatim>\<open>integrations/\<close> of the repository.

  \<^bold>\<open>The program.\<close> A holder of a shielded account proves in zero knowledge that some leaf of the
  commitment tree is an account of at least \<open>threshold\<close> units, and binds the proof to a context and
  to a presenter key. The statement is the public journal; a credential is the journal, the proof of
  it and a signature by the presenter key over the journal and a nonce. Gates accept or refuse
  credentials: off chain (a library and four integrations over it), on chain (three SPEL guests).

  \<^bold>\<open>Theories and sources\<close>, in import order.
  \<^item> \<open>Prelude\<close>: bytes, machine words, fixed-length arrays \<open>('a, 'n) arr\<close> (Rust's
    \<open>[T; N]\<close>, ordered and compared as lists through instances of \<open>equal\<close> and \<open>linorder\<close>),
    little-endian encodings, results as sums with \<open>rbind\<close>, the collection \<open>result_iff\<close> that inverts
    them, string helpers, and \<open>collision\<close>.
  \<^item> \<open>AttestationCore\<close>: \<^verbatim>\<open>attestation-core/src/lib.rs\<close>. Records of witness, journal, statement; the
    four domain-separated derivations, each split into the hashed bytes and the digest;
    \<open>merkle_loop\<close>/\<open>fold_merkle_path\<close>; \<open>attest\<close> with its two asserts as values of \<open>attest_panic\<close>.
  \<^item> \<open>CommitmentSet\<close>: the specification side, a ledger of accounts as a binary hash tree \<open>mtree\<close>
    whose unused subtrees are precomputed digests (\<open>Empty\<close>), its root, leaves by index, and what a
    folding path shows about it.
  \<^item> \<open>AttestationGuests\<close>: the two zkVM mains, \<open>guest_main\<close>
    (\<^verbatim>\<open>attestation-circuit/methods/guest\<close>) and \<open>lez_main\<close> (\<^verbatim>\<open>guest-lez\<close>).
  \<^item> \<open>PresenterSignature\<close>: the k256 interface and the bytes a presenter signs.
  \<^item> \<open>GateInterface\<close>: the contracts a gate offers, as locales \<open>sound_gate\<close> and \<open>complete_gate\<close>.
  \<^item> \<open>OffchainVerifier\<close>, \<open>VerifierKernel\<close>, \<open>SpelGuests\<close>, \<open>DeepGate\<close>: \<^verbatim>\<open>verifier-offchain\<close>,
    \<^verbatim>\<open>verifier-program\<close>, the shallow, v2 and wrapper handlers of \<^verbatim>\<open>verifier-program-spel\<close>, and the deep
    guest. Each interprets the gate contract on its own definitions.
  \<^item> \<open>OneShotRegistry\<close>: a registry that serves each key once, as a locale \<open>one_shot\<close> over a step
    function, with runs of request lists, the inductive predicate \<open>reachable\<close>, and the locale
    \<open>invariant_system\<close>, of which each integration's invariants are instances.
  \<^item> \<open>ChatGate\<close>, \<open>GovernanceGate\<close>, \<open>PremiumFeatures\<close>, \<open>NostrGate\<close>: the integrations; the first three
    are interpretations of \<open>one_shot\<close>.
  \<^item> \<open>Sha256\<close>: SHA-256 itself as an instance of the hash parameter, and the reference vectors of the
    core crate's derivations evaluated on it. \<open>ChainVectors\<close>: the witness captured from a live
    sequencer (\<^verbatim>\<open>cu-bench/tests/real_chain_attestation.rs\<close> and its fixture), evaluated likewise, and
    what else could attest from its leaf.
  \<^item> \<open>Sdk\<close>: \<^verbatim>\<open>sdk/src/lib.rs\<close> (requests, proving, error classification, presenter keys, synthetic
    requests) and the benchmark \<^verbatim>\<open>baseline.rs\<close>.
  \<^item> \<open>DeliveryTransport\<close> (envelope, in-process bus, locale \<open>fifo_bus\<close>, Qt bridge stub) and \<open>WakuRest\<close> (base64,
    percent encoding, the REST client): \<^verbatim>\<open>delivery-transport\<close>. \<open>SharedBus\<close>: the in-process bus
    under concurrent callers, with the topic map, the channels, the cloned handles and the locks
    explicit and one step per lock section (\<open>bus_step\<close>, whose effects are the four rules of the
    inductive relation \<open>bus_move\<close>), and the proof that every interleaving of \<open>send\<close> and \<open>recv\<close>
    refines a sequence of the atomic operations of \<open>DeliveryTransport\<close>.
  \<^item> \<open>MarkerChain\<close>: the deep gate on a chain. \<open>marker_pda\<close>, the scenarios and \<open>scenario_run\<close> are the
    rejection harness \<^verbatim>\<open>cu-bench/tests/deep_gate_rejects.rs\<close>. \<open>gate_admits\<close> specifies when a chain
    admits a call (the handler accepts it, its chained attestation runs, and the account attributes
    hold), and \<open>init_claims\<close> what the chain does for an \<open>init\<close> account. The handler itself
    (\<open>deep_gated_check\<close>) returns the marker as it was given: claiming it for the gate is the macro's
    and the chain's part, so it is in \<open>init_claims\<close>.
  \<^item> \<open>SequencerClient\<close>: \<^verbatim>\<open>sequencer-client/src/lib.rs\<close>. \<open>Cli\<close>: \<^verbatim>\<open>cli/src/bin/attest.rs\<close>,
    whose \<open>cli_main\<close> maps a command and a file system to the new file system and the output.
    \<open>Base58\<close> and \<open>CuBench\<close>: \<^verbatim>\<open>cu-bench/src/main.rs\<close>, the encoder at its machine widths on its own. \<open>TokenGateDemo\<close>:
    \<^verbatim>\<open>chat-gate/examples/waku_token_gate.rs\<close>.
  \<^item> \<open>LedgerHistory\<close> and \<open>PrivateGate\<close>: the chain the program relies on, over time. It is a parameter
    with the documented rules as hypotheses: the append-only commitment set, the roots it remembers,
    the nullifier set, and the private transaction that calls the deep gate. Each theory ends with a
    computable chain that keeps the rules. \<open>HistoryProperties\<close> asks what the root check and the deep
    gate establish when the ledger changes after the proof; \<open>Admissions\<close> interleaves the chain with a
    chat group's roster, each admission followed by the root check, and projects runs to both.
  \<^item> \<open>Samples\<close>: computable instances of every parameter, used by the witnesses. \<open>SignatureSuite\<close>
    and \<open>HostSuite\<close>: the unit tests inside the crates' sources, each a definition that is true when the
    test passes, and lemmas that they pass for every lawful parameter, up to named collisions of the
    hash; where a test expects a signature to be rejected, up to that very signature verifying under
    the other key or digest (\<open>cross_verifies\<close>; no such exclusion is assumed of ECDSA). \<open>GateSuite\<close> likewise for the integration tests \<^verbatim>\<open>gate.rs\<close>, \<^verbatim>\<open>gate_tag.rs\<close>,
    \<^verbatim>\<open>merkle_regression.rs\<close>, \<^verbatim>\<open>nullifier_regression.rs\<close>, \<^verbatim>\<open>prove_failures.rs\<close>,
    \<^verbatim>\<open>admission.rs\<close>, \<^verbatim>\<open>vote.rs\<close> and \<^verbatim>\<open>tiers.rs\<close>.
  \<^item> \<open>ChainProperties\<close>, \<open>CredentialProperties\<close>, \<open>GateProperties\<close>, \<open>IntegrationProperties\<close>, \<open>HostProperties\<close> and this
    theory: most of the properties C1 to C40 and their witnesses. C1 to C14 are the central ones.

  \<^bold>\<open>How the code is represented.\<close> Structs are records and enums datatypes, with the source's names;
  \<open>[u8; 32]\<close> is \<open>b32\<close>, \<open>u128\<close> a 128-bit word; a \<open>Result\<close> is a sum with the error on the left; a panic
  is an error value of its own type; a handler with \<open>&mut self\<close> returns the new state with its result;
  a \<open>BTreeSet\<close> is a set whose insert reports freshness, as the crates use it. Loops over
  data are structural recursion, so total: \<open>merkle_loop\<close> over the siblings, \<open>b64_encode\<close> over
  three-byte chunks, \<open>poll\<close> over its tries (20 in the demo, the constant of the code). The carry
  loop of the base58 encoder is a partial function whose result is \<open>None\<close> when it does not end or
  indexes outside the alphabet; C36 shows that neither happens. The \<open>u64\<close> vote counters wrap, so
  C24 is stated for fewer than \<open>2 ^ 64\<close> requests.

  \<^bold>\<open>Parameters.\<close> Code outside the repository is an argument of the definitions that use it, and what
  a property relies on is a named hypothesis.
  \<^item> \<open>sha\<close>: SHA-256, any function from bytes to 32 bytes. Nothing is assumed of it: where security
    rests on it the conclusion offers the two messages that collide (\<open>collision\<close>) or, against a ledger, also a
    preimage of the digest of an empty subtree (\<open>hash_break\<close>, \<open>ledger_break\<close>).
  \<^item> \<open>ecdsa\<close> and \<open>signer\<close>: key parsing, verification, signing; \<open>signer_ok\<close> says what \<open>signer\<close> signs
    \<open>ecdsa\<close> verifies. Unforgeability is never assumed: conclusions speak of a valid signature.
  \<^item> \<open>zkvm\<close>: receipt verification and the journal decoder. \<open>risc0_sound\<close> is the soundness of the proof
    system: an accepted receipt's journal is one \<open>guest_main\<close> commits on the inputs the extractor
    \<open>ext\<close> returns. \<open>prover_ok\<close> is the prover's contract for one request and one receipt kind, so a
    property speaks only of the run it is about; session limits, a missing sidecar and other
    environment failures of that run are outside it.
  \<^item> \<open>bincode_ok\<close>, \<open>json_ok\<close>, \<open>hex_ok\<close>, \<open>key_file_ok\<close>, \<open>receipt_file_ok\<close>: the codecs decode what they
    encoded; \<open>two_files\<close>: a written file reads back, and two paths are two files. \<open>sequencer_holds\<close>: the
    sequencer answers from one ledger. \<open>waku_node\<close>: a node as its replies; no assumption but the one
    a property names, such as \<open>delivers\<close>.
  \<^item> \<open>lez_chain\<close>: the chain that runs the gate. \<open>init_claims\<close> is its documented treatment of a marker
    account declared \<open>init\<close>: a call is refused when the account is already claimed, a refused call
    changes nothing, an accepted one gives the gate exactly the marker's account, and no other
    transaction changes which accounts the gate owns.
  \<^item> \<open>private_chain\<close> and \<open>gate_chain\<close>: the chain's ledger over time and private transactions.
    \<open>keeps_ledger\<close> is what the repository documents of it: an accepted transaction presents fresh
    nullifiers against roots the chain has known and appends the accounts it creates, a refused one
    changes nothing. \<open>keeps_private_gate\<close> is the privacy path: a transaction with a gate call ran the
    deep gate and spends the state of its presenter.
  The witnesses in \<open>Samples\<close> and \<open>HistoryProperties\<close> show that these hypotheses hold together.

  \<^bold>\<open>What the lemmas show.\<close> \<open>X_Inr\<close> lemmas state exactly when an operation succeeds and with what;
  the properties combine them.
  \<^item> C1 to C6 follow a credential to the ledger: an accepted credential implies a leaf of the ledger
    with the balance, an honest holder is accepted, and so
    through the demo (C5) and for a group whose roster lives on while the chain moves (C6).
  \<^item> C7, C8 and C12 to C14: the deep gate and its marker. A marker on the chain was earned, is minted
    once, and determines the policy; the handler accepts exactly the stated calls and refuses the
    rest by code.
  \<^item> C9 to C11: time. A private gate call spends a live account of a ledger the chain had; a spent
    account still attests its former balance, to the verifier and to the root check; a credential
    of an outgrown ledger is refused by the root check.
  \<^item> C15 to C18 and C39: the fold refines opening a leaf, one position yields one nullifier, the two
    guests agree, an invented account passes every check but the root's, and a real account of the
    chain attests exactly its balance. C38: the root check on every reply of a sequencer.
  \<^item> C19, C20, C26, C27: agreement of the gates and of the signers, and what the gates that see no
    proof do not establish.
  \<^item> C21 to C25, C28, C29: the integrations' registries and tags. C30 to C37 and C40: the host code.

  \<^bold>\<open>What is not modelled.\<close> The zkVM and secp256k1; what the \<^verbatim>\<open>lez_program\<close> macro generates (the
  account constraints of the deep handler are modelled by what the chain does for them); HTTP and
  JSON text; random key and nonce generation, \<^verbatim>\<open>PresenterKey::generate\<close> included (the drawn values
  are arguments); argument parsing, progress lines and timing; the benchmark's floating-point
  percentage and the cycle-cost report; the test \<^verbatim>\<open>receipt_kind_default_is_composite\<close>, and the
  tests in \<^verbatim>\<open>tests/\<close> directories other than those of \<open>GateSuite\<close>, \<^verbatim>\<open>deep_gate_rejects.rs\<close>,
  \<^verbatim>\<open>real_chain_attestation.rs\<close> and the reference vectors (they run built guest images, the live testnet or serde); the Qt
  application. The registries of the integrations are passed by
  \<open>&mut\<close>, so their callers are sequences.
\<close>

section \<open>The token-gated admission flow\<close>

text \<open>Claim C5: the demonstrated flow, from proof to verdicts. With a prover that
  works for the demo's request, a signer, a receipt that encodes, two distinct healthy nodes and a
  network that delivers the posted message within the 20 polls, the candidate is admitted for the group's stake; replaying the credential is refused as reused, a gate
  demanding more than the balance refuses it for its threshold, and an interceptor who answers a
  fresh challenge with the old signature passes only if that signature is valid for the fresh one.\<close>

theorem demo_admits_and_refuses:
  assumes "prover_ok H (wd_prover W) (wd_zkvm W) (wd_image W)
      (demo_request H pk (group_context_id H GROUP) BALANCE) Groth16"
    and "signer_ok (wd_ecdsa W) (wd_signer W)"
    and "presenter_public (wd_signer W) sk = Some pk"
    and "health (wd_sender W) sender_url = Inr a" and "health (wd_receiver W 0) receiver_url = Inr b"
    and "a \<noteq> b" and "subscribe (wd_receiver W 0) receiver_url (content_topic_for GROUP) = Inr ()"
    and "bincode_ok (wd_bincode W)"
    and "prove_groth16 H (wd_prover W) (wd_zkvm W) (demo_request H pk (group_context_id H GROUP) BALANCE)
      = Inr pf"
    and "delivers (wd_sender W) (wd_receiver W) (wd_bincode W) sender_url receiver_url
      (content_topic_for GROUP) 20 (demo_envelope H W sk seed pf)"
    and "receipt_to_vec (wd_bincode W) (pf_receipt pf) = Inr receipt_bytes"
  shows "\<exists>out. demo_main H W sender_url receiver_url sk seed fresh_seed = Inr out
    \<and> do_journal out = journal_stub H (demo_request H pk (group_context_id H GROUP) BALANCE)
    \<and> j_threshold (do_journal out) = MIN_STAKE
    \<and> do_replay out = Inl AdmissionError.NullifierReused
    \<and> do_strict out = Inl (AdmissionError.Verify VerifyError.ThresholdTooLow)
    \<and> (is_ok (do_stolen out) \<longleftrightarrow> presenter_signed H (wd_ecdsa W) (do_journal out)
          (rand_nonce H fresh_seed)
          (presenter_sign H (wd_signer W) sk (rand_nonce H seed) (do_journal out)))"
proof -
  let ?req = "demo_request H pk (group_context_id H GROUP) BALANCE"
  let ?j = "journal_stub H ?req"
  obtain r where "prove_with_kind H (wd_prover W) (wd_zkvm W) ?req Groth16
      = Inr \<lparr>pf_receipt = r, pf_journal = ?j\<rparr>"
    and r: "verify_receipt (wd_zkvm W) (wd_image W) r = Inr ?j"
    using prove_true [OF assms(1) demo_request_true] by blast
  with assms(9) have "pf = \<lparr>pf_receipt = r, pf_journal = ?j\<rparr>" by (simp add: prove_groth16_def)
  with r have pf: "pf_journal pf = ?j"
    and ver: "verify_receipt (wd_zkvm W) (wd_image W) (pf_receipt pf) = Inr ?j" by simp_all
  have fields: "j_context_id ?j = group_context_id H GROUP" "j_threshold ?j = MIN_STAKE"
    "j_presenter_pubkey ?j = pk"
    by (simp_all add: demo_request_fixture) (simp_all add: demo_fixture_def)
  have sig: "presenter_signed H (wd_ecdsa W) ?j nonce (presenter_sign H (wd_signer W) sk nonce ?j)" for nonce
    using presenter_signed_sign [OF assms(2), of sk ?j] assms(3) fields(3) by simp
  show ?thesis
    unfolding demo_main_reaches_operator [OF assms(4,5,6,7,3,9,8,10,11)]
    using demo_operator_verdicts [of W "demo_envelope H W sk seed pf" ?j H "rand_nonce H fresh_seed"]
      ver fields sig
    by (simp add: demo_envelope_def pf is_ok_iff map_err_Inr verify_credential_Inr)
qed

text \<open>A world for the example: the sample crates, and two nodes that list one message each.\<close>

definition demo_pf :: "clear_receipt AttestationProof" where
  "demo_pf = (let req = demo_request sample_hash sample_pk (group_context_id sample_hash GROUP) BALANCE
     in \<lparr>pf_receipt = (request_inputs req, journal_stub sample_hash req),
         pf_journal = journal_stub sample_hash req\<rparr>)"

definition demo_letter :: "clear_receipt CredentialEnvelope" where
  "demo_letter = \<lparr>e_receipt = pf_receipt demo_pf, e_challenge_nonce = rand_nonce sample_hash 1,
     e_presenter_signature_der =
       presenter_sign sample_hash sample_signer sample_pk (rand_nonce sample_hash 1) (pf_journal demo_pf),
     e_app_meta = bytes_of GROUP\<rparr>"

definition demo_bincode :: "clear_receipt bincode" where
  "demo_bincode = \<lparr>receipt_to_vec = (\<lambda>_. Inr [1]),
     envelope_to_vec = (\<lambda>e. if e = demo_letter then Inr [1] else Inl ''unsupported''),
     envelope_from_slice = (\<lambda>_. Inr (demo_letter, 1))\<rparr>"

definition demo_node :: "string \<Rightarrow> jvalue waku_node" where
  "demo_node peer = \<lparr>post_message = (\<lambda>_ _. Inr ()), post_topics = (\<lambda>_ _. Inr ()),
     delete_topics = (\<lambda>_ _. Inr ()), get_messages = (\<lambda>_. Inr (Inr [JStr (b64_encode [1])])),
     get_info = (\<lambda>_. Inr (Inr (JStr peer))), json_get = (\<lambda>v _. Some v), json_item = (\<lambda>v _. Some v),
     json_str = (\<lambda>v. case v of JStr t \<Rightarrow> Some t | _ \<Rightarrow> None)\<rparr>"

definition demo_world :: "(b33, bytes, bytes, clear_receipt, clear_receipt, jvalue, jvalue) world" where
  "demo_world = \<lparr>wd_ecdsa = sample_ecdsa, wd_signer = sample_signer,
     wd_prover = sample_prover sample_hash, wd_zkvm = sample_zkvm sample_hash, wd_image = sample_id,
     wd_bincode = demo_bincode, wd_dbg = (\<lambda>c. [c]), wd_sender = demo_node ''a'',
     wd_receiver = (\<lambda>_. demo_node ''b''), wd_json = sample_json, wd_rpc = sample_rpc, wd_hex = Inl\<rparr>"

lemma demo_world_simps [simp]:
  "wd_ecdsa demo_world = sample_ecdsa" "wd_signer demo_world = sample_signer"
  "wd_prover demo_world = sample_prover sample_hash" "wd_zkvm demo_world = sample_zkvm sample_hash"
  "wd_image demo_world = sample_id" "wd_bincode demo_world = demo_bincode"
  "wd_sender demo_world = demo_node ''a''" "wd_receiver demo_world = (\<lambda>_. demo_node ''b'')"
  by (simp_all add: demo_world_def)

lemma demo_node_facts:
  "health (demo_node peer) url = Inr peer" "subscribe (demo_node peer) url topic = Inr ()"
  by (simp_all add: health_def subscribe_def demo_node_def)

lemma demo_bincode_ok: "bincode_ok demo_bincode"
  by (simp add: bincode_ok_def demo_bincode_def)

lemma demo_bincode_receipts: "receipt_to_vec demo_bincode r = Inr [1]"
  by (simp add: demo_bincode_def)

lemma demo_pf_proved:
  "prove_groth16 sample_hash (sample_prover sample_hash) (sample_zkvm sample_hash)
     (demo_request sample_hash sample_pk (group_context_id sample_hash GROUP) BALANCE) = Inr demo_pf"
proof -
  let ?req = "demo_request sample_hash sample_pk (group_context_id sample_hash GROUP) BALANCE"
  have "guest_main sample_hash (request_inputs ?req) (journal_stub sample_hash ?req)
    = Inr (journal_stub sample_hash ?req)"
    using demo_request_true [of sample_hash sample_pk "group_context_id sample_hash GROUP"]
    by (simp add: guest_main_stub request_true_def not_less)
  then show ?thesis
    by (simp add: prove_groth16_def prove_with_kind_def sample_prover_def sample_zkvm_def demo_pf_def Let_def)
qed

lemma demo_delivers:
  "delivers (demo_node ''a'') (\<lambda>_. demo_node ''b'') demo_bincode url url' topic 20 demo_letter"
  unfolding delivers_def
  by (intro exI [of _ "[1]"] exI [of _ 0] exI [of _ "JStr (b64_encode [1])"] exI [of _ "[]"])
    (simp add: encode_envelope_def demo_bincode_def demo_node_def carries_def message_body_def)

theorem demo_admits_and_refuses_witness:
  "let j = journal_stub sample_hash
       (demo_request sample_hash sample_pk (group_context_id sample_hash GROUP) BALANCE) in
   \<exists>out. demo_main sample_hash demo_world ''http://a'' ''http://b'' sample_pk 1 2 = Inr out
    \<and> do_journal out = j \<and> j_threshold (do_journal out) = MIN_STAKE
    \<and> do_replay out = Inl AdmissionError.NullifierReused
    \<and> do_strict out = Inl (AdmissionError.Verify VerifyError.ThresholdTooLow)
    \<and> (is_ok (do_stolen out) \<longleftrightarrow> presenter_signed sample_hash sample_ecdsa (do_journal out)
          (rand_nonce sample_hash 2)
          (presenter_sign sample_hash sample_signer sample_pk (rand_nonce sample_hash 1) (do_journal out)))"
proof -
  have letter: "demo_envelope sample_hash demo_world sample_pk 1 demo_pf = demo_letter"
    by (simp add: demo_envelope_def demo_letter_def)
  show ?thesis
    using demo_admits_and_refuses [of sample_hash demo_world sample_pk sample_pk "''http://a''" "''a''"
        "''http://b''" "''b''" demo_pf 1 "[1]" 2]
    by (simp add: demo_bincode_receipts Let_def sample_prover_ok sample_signer_ok sample_presenter_public demo_node_facts
        demo_bincode_ok demo_pf_proved letter demo_delivers)
qed

end
